(* ===== verification/Prelude.thy ===== *)
theory Prelude
  imports Complex_Main "HOL-Library.Word" "HOL-Library.Multiset"
begin

text \<open>
  Shared vocabulary of the development: the types that stand for Rust's own
  (wall-clock instants, identifiers, byte strings, unsigned integers with their
  wrap-around and saturation), the result type of fallible code, the line
  discipline of \<^verbatim>\<open>str::lines\<close>, and the two interfaces every component reuses: a
  transition system with an invariant and a fixed-width byte codec.

  Conventions.  A \<^verbatim>\<open>DateTime<Utc>\<close> or \<^verbatim>\<open>Instant\<close> is a number of nanoseconds
  (\<open>int\<close>); the reading of the clock is an argument of every operation that
  calls \<^verbatim>\<open>Utc::now()\<close>.  A Rust \<^verbatim>\<open>String\<close> used as an identifier or as bytes is a
  HOL \<open>string\<close>, that is, its UTF-8 bytes.  Unsigned integers are \<open>nat\<close>
  with the width written out wherever an operation can leave it.  A
  \<^verbatim>\<open>Result<T, E>\<close> is \<open>E + T\<close>, the error on the left.
\<close>

named_theorems cordon_defs \<open>definitions that component proofs unfold\<close>
named_theorems cordon_frame \<open>what an operation leaves unchanged\<close>

subsection \<open>Types and machine integers\<close>

type_synonym datetime = int
type_synonym uuid = nat
type_synonym bytes = "8 word list"

definition secs :: "int \<Rightarrow> int" where
  "secs n = n * 1000000000"

definition millis :: "int \<Rightarrow> int" where
  "millis n = n * 1000000"

text \<open>Rust's integer division of a duration truncates towards zero.\<close>

definition trunc_div :: "int \<Rightarrow> int \<Rightarrow> int" where
  "trunc_div a b = sgn a * sgn b * (\<bar>a\<bar> div \<bar>b\<bar>)"

definition num_seconds :: "int \<Rightarrow> int" where
  "num_seconds d = trunc_div d 1000000000"

definition num_milliseconds :: "int \<Rightarrow> int" where
  "num_milliseconds d = trunc_div d 1000000"

abbreviation (input) u32_max :: nat where
  "u32_max \<equiv> 4294967295"

abbreviation (input) u64_max :: nat where
  "u64_max \<equiv> 18446744073709551615"

definition wrap_u32 :: "nat \<Rightarrow> nat" where
  "wrap_u32 n = n mod 4294967296"

definition wrap_u64 :: "nat \<Rightarrow> nat" where
  "wrap_u64 n = n mod 18446744073709551616"

definition sat_add_u32 :: "nat \<Rightarrow> nat \<Rightarrow> nat" where
  "sat_add_u32 a b = min (a + b) 4294967295"

text \<open>Sorting by a key, stable, as \<^verbatim>\<open>sort_by_key\<close>: the library's \<open>sort_key\<close>.\<close>

subsection \<open>Text\<close>

definition newline :: char where
  "newline = CHR 0x0A"

definition carriage_return :: char where
  "carriage_return = CHR 0x0D"

text \<open>
  \<^verbatim>\<open>str::lines\<close>: split at line feeds, a final line feed does not start an empty
  line, and a carriage return right before a line feed is dropped.
\<close>

definition strip_cr :: "string \<Rightarrow> string" where
  "strip_cr l = (if l \<noteq> [] \<and> last l = carriage_return then butlast l else l)"

fun lines_acc :: "string \<Rightarrow> string \<Rightarrow> string list" where
  "lines_acc acc [] = (if acc = [] then [] else [rev acc])"
| "lines_acc acc (c # cs) =
     (if c = newline then strip_cr (rev acc) # lines_acc [] cs else lines_acc (c # acc) cs)"

definition lines :: "string \<Rightarrow> string list" where
  "lines s = lines_acc [] s"

definition is_space :: "char \<Rightarrow> bool" where
  "is_space c = (c \<in> {CHR 0x09, CHR 0x0A, CHR 0x0B, CHR 0x0C, CHR 0x0D, CHR '' ''})"

text \<open>\<^verbatim>\<open>str::trim\<close> on ASCII white space.\<close>

definition trim :: "string \<Rightarrow> string" where
  "trim s = rev (dropWhile is_space (rev (dropWhile is_space s)))"

definition blank :: "string \<Rightarrow> bool" where
  "blank l = list_all is_space l"

definition to_lower_char :: "char \<Rightarrow> char" where
  "to_lower_char c = (if 65 \<le> (of_char c :: nat) \<and> (of_char c :: nat) \<le> 90
     then char_of ((of_char c :: nat) + 32) else c)"

definition to_lower :: "string \<Rightarrow> string" where
  "to_lower s = map to_lower_char s"

text \<open>Decimal rendering of an unsigned integer.\<close>

fun show_nat :: "nat \<Rightarrow> string" where
  "show_nat n = (if n < 10 then [char_of (48 + n)] else show_nat (n div 10) @ [char_of (48 + n mod 10)])"

declare show_nat.simps [simp del]

text \<open>The alphabet of \<^verbatim>\<open>hex::encode\<close>.\<close>

definition hex_digit :: "char \<Rightarrow> bool" where
  "hex_digit c = (c \<in> set ''0123456789abcdef'')"

text \<open>
  What is documented of \<^verbatim>\<open>hex::encode(Sha256::digest(..))\<close>: sixty-four lower-case
  hexadecimal digits.  The digest itself is a parameter everywhere.
\<close>

definition hex_digest :: "(string \<Rightarrow> string) \<Rightarrow> bool" where
  "hex_digest H \<longleftrightarrow> (\<forall>x. length (H x) = 64 \<and> list_all hex_digit (H x))"

subsection \<open>Fallible code\<close>

fun try_each :: "('a \<Rightarrow> 'e + 'b) \<Rightarrow> 'a list \<Rightarrow> 'e + 'b list" where
  "try_each f [] = Inr []"
| "try_each f (x # xs) =
     (case f x of Inl e \<Rightarrow> Inl e
      | Inr y \<Rightarrow> (case try_each f xs of Inl e \<Rightarrow> Inl e | Inr ys \<Rightarrow> Inr (y # ys)))"

subsection \<open>Runs of a stateful component\<close>

text \<open>Two given inputs of a hash function that collide.  Every binding statement names the
  inputs: that some collision exists is true of any digest.\<close>

definition collides :: "('a \<Rightarrow> 'b) \<Rightarrow> 'a \<Rightarrow> 'a \<Rightarrow> bool" where
  "collides h a b \<longleftrightarrow> a \<noteq> b \<and> h a = h b"


fun run :: "('s \<Rightarrow> 'e \<Rightarrow> 's) \<Rightarrow> 's \<Rightarrow> 'e list \<Rightarrow> 's" where
  "run step s [] = s"
| "run step s (e # es) = run step (step s e) es"

fun run_ok :: "('s \<Rightarrow> 'e \<Rightarrow> 's) \<Rightarrow> ('s \<Rightarrow> 'e \<Rightarrow> bool) \<Rightarrow> 's \<Rightarrow> 'e list \<Rightarrow> bool" where
  "run_ok step ok s [] = True"
| "run_ok step ok s (e # es) = (ok s e \<and> run_ok step ok (step s e) es)"

subsection \<open>Lemmas on text\<close>

lemma lines_Nil [simp]: "lines [] = []"
  by (simp add: lines_def)

lemma lines_acc_line:
  "newline \<notin> set l \<Longrightarrow>
   lines_acc acc (l @ newline # cs) = strip_cr (rev acc @ l) # lines_acc [] cs"
  by (induction l arbitrary: acc) auto

lemma lines_Cons_line:
  "newline \<notin> set l \<Longrightarrow> lines (l @ newline # cs) = strip_cr l # lines cs"
  using lines_acc_line [of l "[]" cs] by (simp add: lines_def)

text \<open>A text that is a sequence of terminated lines is read back line by line.\<close>

definition unlines :: "string list \<Rightarrow> string" where
  "unlines ls = concat (map (\<lambda>l. l @ [newline]) ls)"

lemma unlines_simps [simp]:
  "unlines [] = []" "unlines (l # ls) = l @ newline # unlines ls"
  "unlines (xs @ ys) = unlines xs @ unlines ys"
  by (simp_all add: unlines_def)

definition plain_line :: "string \<Rightarrow> bool" where
  "plain_line l \<longleftrightarrow> newline \<notin> set l \<and> \<not> blank l \<and> last l \<noteq> carriage_return"

lemma plain_lineD:
  "plain_line l \<Longrightarrow> newline \<notin> set l" "plain_line l \<Longrightarrow> \<not> blank l"
  "plain_line l \<Longrightarrow> strip_cr l = l" "plain_line l \<Longrightarrow> l \<noteq> []"
  by (auto simp: plain_line_def strip_cr_def blank_def)

lemma lines_unlines:
  "list_all plain_line ls \<Longrightarrow> lines (unlines ls) = ls"
proof (induction ls)
  case (Cons l ls)
  then show ?case using lines_Cons_line [of l "unlines ls"] plain_lineD [of l] by simp
qed auto

lemma unlines_inj:
  "list_all plain_line ls \<Longrightarrow> list_all plain_line ms \<Longrightarrow> unlines ls = unlines ms \<Longrightarrow> ls = ms"
  by (metis lines_unlines)

lemma hex_digestD:
  assumes "hex_digest H"
  shows "length (H x) = 64" "list_all hex_digit (H x)"
  using assms by (auto simp: hex_digest_def)

subsection \<open>Lemmas on lists and arithmetic\<close>

lemma try_each_Inr_iff:
  "try_each f xs = Inr ys \<longleftrightarrow> list_all2 (\<lambda>x y. f x = Inr y) xs ys"
proof (induction xs arbitrary: ys)
  case (Cons x xs)
  show ?case
  proof (cases "try_each f xs")
    case (Inr zs)
    then have "list_all2 (\<lambda>x y. f x = Inr y) xs ws \<longleftrightarrow> ws = zs" for ws
      using Cons.IH [of ws] by auto
    with Inr show ?thesis by (cases ys) (auto split: sum.splits)
  next
    case (Inl e)
    then have "\<not> list_all2 (\<lambda>x y. f x = Inr y) xs ws" for ws
      using Cons.IH [of ws] by auto
    with Inl show ?thesis by (cases ys) (auto split: sum.splits)
  qed
qed auto

lemma try_each_Inr_length: "try_each f xs = Inr ys \<Longrightarrow> length ys = length xs"
  by (auto simp: try_each_Inr_iff dest: list_all2_lengthD)

lemma trunc_div_pos:
  "0 < b \<Longrightarrow> 0 \<le> a \<Longrightarrow> trunc_div a b = a div b"
  by (cases "a = 0") (auto simp: trunc_div_def)

lemma trunc_div_mono:
  assumes "0 < b" "0 \<le> x" "x \<le> y"
  shows "trunc_div x b \<le> trunc_div y b"
  using assms by (simp add: trunc_div_pos zdiv_mono1)

lemma sat_add_u32_bound [simp]: "sat_add_u32 a b \<le> u32_max"
  by (simp add: sat_add_u32_def)

lemma wrap_u64_small [simp]: "n < 18446744073709551616 \<Longrightarrow> wrap_u64 n = n"
  by (simp add: wrap_u64_def)

lemma wrap_u32_small [simp]: "n < 4294967296 \<Longrightarrow> wrap_u32 n = n"
  by (simp add: wrap_u32_def)

text \<open>
  A list sorted by a key that tells its elements apart depends on the elements
  only, not on the order they arrived in.
\<close>

lemma sort_key_mset_unique:
  assumes "mset xs = mset ys" "inj_on f (set xs)"
  shows "sort_key f xs = sort_key f ys"
  by (rule sort_key_inj_key_eq) (use assms in simp_all)

lemma sorted_key_last:
  "sorted (map f xs) \<Longrightarrow> x \<in> set xs \<Longrightarrow> f x \<le> f (last xs)"
  by (induction xs) auto

subsection \<open>The interface of a component with an invariant\<close>

text \<open>
  A component offers a step (one operation on its state) and promises that each
  step the environment may take keeps the invariant.  What follows for a whole
  run is proved here once.
\<close>

locale invariant_system =
  fixes step :: "'s \<Rightarrow> 'e \<Rightarrow> 's"
    and ok :: "'s \<Rightarrow> 'e \<Rightarrow> bool"
    and inv :: "'s \<Rightarrow> bool"
  assumes step_inv: "inv s \<Longrightarrow> ok s e \<Longrightarrow> inv (step s e)"
begin

lemma run_inv: "inv s \<Longrightarrow> run_ok step ok s es \<Longrightarrow> inv (run step s es)"
  by (induction es arbitrary: s) (auto intro: step_inv)

lemma run_prefix_inv:
  "inv s \<Longrightarrow> run_ok step ok s (es @ fs) \<Longrightarrow> inv (run step s es)"
  by (induction es arbitrary: s) (auto intro: step_inv)

end

lemma run_append [simp]: "run step s (es @ fs) = run step (run step s es) fs"
  by (induction es arbitrary: s) auto

lemma run_ok_append [simp]:
  "run_ok step ok s (es @ fs) \<longleftrightarrow> run_ok step ok s es \<and> run_ok step ok (run step s es) fs"
  by (induction es arbitrary: s) auto

lemma run_ok_True [simp]: "run_ok step (\<lambda>_ _. True) s es"
  by (induction es arbitrary: s) auto

text \<open>
  A relation between the state before and after that every step establishes and
  that is reflexive and transitive holds across a run.
\<close>

locale monotone_system =
  fixes step :: "'s \<Rightarrow> 'e \<Rightarrow> 's"
    and ok :: "'s \<Rightarrow> 'e \<Rightarrow> bool"
    and le :: "'s \<Rightarrow> 's \<Rightarrow> bool"
  assumes le_refl: "le s s"
    and le_trans: "le s t \<Longrightarrow> le t u \<Longrightarrow> le s u"
    and step_le: "ok s e \<Longrightarrow> le s (step s e)"
begin

lemma run_le: "run_ok step ok s es \<Longrightarrow> le s (run step s es)"
  by (induction es arbitrary: s) (auto intro: le_refl le_trans step_le)

end

end
