(* ===== verification/Canonical.thy ===== *)
theory Canonical
  imports Prelude
begin

text \<open>
  Byte encodings: fixed-width big- and little-endian integers (the interface
  \<open>fixed_width\<close> with its two families of instances), the canonical writer of
  \<^verbatim>\<open>cordon-crypto/src/canonical.rs\<close>, the derivation labels and the constant-time
  comparison of \<^verbatim>\<open>cordon-crypto/src/kdf.rs\<close>.
\<close>

unbundle bit_operations_syntax

definition bytes_of :: "string \<Rightarrow> bytes" where
  "bytes_of s = map (\<lambda>c. word_of_nat (of_char c)) s"

definition string_of_bytes :: "bytes \<Rightarrow> string" where
  "string_of_bytes b = map (char_of \<circ> unat) b"

subsection \<open>Fixed-width integers\<close>

fun be_bytes :: "nat \<Rightarrow> nat \<Rightarrow> bytes" where
  "be_bytes 0 v = []"
| "be_bytes (Suc k) v = be_bytes k (v div 256) @ [word_of_nat v]"

definition be_value :: "bytes \<Rightarrow> nat" where
  "be_value bs = foldl (\<lambda>acc b. acc * 256 + unat b) 0 bs"

definition le_bytes :: "nat \<Rightarrow> nat \<Rightarrow> bytes" where
  "le_bytes k v = rev (be_bytes k v)"

definition le_value :: "bytes \<Rightarrow> nat" where
  "le_value bs = be_value (rev bs)"

subsection \<open>The canonical writer\<close>

definition CANONICAL_VERSION_TAG :: bytes where
  "CANONICAL_VERSION_TAG = bytes_of ''CORDON_CANON_v1''"

type_synonym canonical_writer = bytes

definition write_u8 :: "canonical_writer \<Rightarrow> 8 word \<Rightarrow> canonical_writer" where
  "write_u8 w v = w @ [v]"

definition write_u16 :: "canonical_writer \<Rightarrow> 16 word \<Rightarrow> canonical_writer" where
  "write_u16 w v = w @ be_bytes 2 (unat v)"

definition write_u32 :: "canonical_writer \<Rightarrow> 32 word \<Rightarrow> canonical_writer" where
  "write_u32 w v = w @ be_bytes 4 (unat v)"

text \<open>An \<^verbatim>\<open>i64\<close> is written as its two's complement.\<close>

definition write_i64 :: "canonical_writer \<Rightarrow> 64 word \<Rightarrow> canonical_writer" where
  "write_i64 w v = w @ be_bytes 8 (unat v)"

text \<open>The length is cast to 32 bits, as \<^verbatim>\<open>bytes.len() as u32\<close> does.\<close>

definition write_blob :: "canonical_writer \<Rightarrow> bytes \<Rightarrow> canonical_writer" where
  "write_blob w bs = w @ be_bytes 4 (length bs mod 4294967296) @ bs"

definition write_str :: "canonical_writer \<Rightarrow> string \<Rightarrow> canonical_writer" where
  "write_str w s = write_blob w (bytes_of s)"

definition write_section :: "canonical_writer \<Rightarrow> canonical_writer \<Rightarrow> canonical_writer" where
  "write_section w sec = write_blob w sec"

definition canonical_new :: "string \<Rightarrow> canonical_writer" where
  "canonical_new section = write_blob CANONICAL_VERSION_TAG (bytes_of section)"

text \<open>A writer run: the fields a caller writes, in order.\<close>

datatype field = FU8 "8 word" | FU16 "16 word" | FU32 "32 word" | FI64 "64 word" | FBlob bytes

fun write_field :: "canonical_writer \<Rightarrow> field \<Rightarrow> canonical_writer" where
  "write_field w (FU8 v) = write_u8 w v"
| "write_field w (FU16 v) = write_u16 w v"
| "write_field w (FU32 v) = write_u32 w v"
| "write_field w (FI64 v) = write_i64 w v"
| "write_field w (FBlob bs) = write_blob w bs"

definition canonical_bytes :: "string \<Rightarrow> field list \<Rightarrow> bytes" where
  "canonical_bytes section fs = foldl write_field (canonical_new section) fs"

datatype field_kind = KU8 | KU16 | KU32 | KI64 | KBlob

fun kind :: "field \<Rightarrow> field_kind" where
  "kind (FU8 _) = KU8" | "kind (FU16 _) = KU16" | "kind (FU32 _) = KU32"
| "kind (FI64 _) = KI64" | "kind (FBlob _) = KBlob"

fun field_fits :: "field \<Rightarrow> bool" where
  "field_fits (FBlob bs) = (length bs < 4294967296)"
| "field_fits _ = True"

subsection \<open>Derivation labels and comparison\<close>

definition BUNDLE_KEY :: string where "BUNDLE_KEY = ''CORDON_BUNDLE_KEY_v1''"
definition SHARD_KEY :: string where "SHARD_KEY = ''CORDON_SHARD_KEY_v1''"
definition SESSION_KEY :: string where "SESSION_KEY = ''CORDON_SESSION_KEY_v1''"
definition LOG_KEY :: string where "LOG_KEY = ''CORDON_LOG_KEY_v1''"
definition ADMIN_KEY :: string where "ADMIN_KEY = ''CORDON_ADMIN_KEY_v1''"
definition ENCLAVE_KEY :: string where "ENCLAVE_KEY = ''CORDON_ENCLAVE_KEY_v1''"

definition bundle_key_info :: "string \<Rightarrow> string \<Rightarrow> string" where
  "bundle_key_info bundle_id client_id = BUNDLE_KEY @ '':'' @ bundle_id @ '':'' @ client_id"

definition shard_key_info :: "nat \<Rightarrow> string" where
  "shard_key_info i = SHARD_KEY @ '':'' @ show_nat i"

definition session_key_info :: "string \<Rightarrow> string \<Rightarrow> string" where
  "session_key_info deployment_id client_id = SESSION_KEY @ '':'' @ deployment_id @ '':'' @ client_id"

definition log_key_info :: "string \<Rightarrow> string \<Rightarrow> string" where
  "log_key_info deployment_id client_id = LOG_KEY @ '':'' @ deployment_id @ '':'' @ client_id"

definition admin_key_info :: "string \<Rightarrow> string \<Rightarrow> string" where
  "admin_key_info deployment_id client_id = ADMIN_KEY @ '':'' @ deployment_id @ '':'' @ client_id"

definition enclave_key_info :: "string \<Rightarrow> string \<Rightarrow> string" where
  "enclave_key_info deployment_id client_id = ENCLAVE_KEY @ '':'' @ deployment_id @ '':'' @ client_id"

text \<open>\<open>diff |= x ^ y\<close> over the zipped bytes, no early exit.\<close>

definition ct_eq :: "bytes \<Rightarrow> bytes \<Rightarrow> bool" where
  "ct_eq a b = (if length a \<noteq> length b then False
     else foldl (\<lambda>diff (x, y). diff OR (x XOR y)) 0 (zip a b) = 0)"

subsection \<open>The interface of a fixed-width codec\<close>

locale fixed_width =
  fixes enc :: "nat \<Rightarrow> nat \<Rightarrow> bytes" and dec :: "bytes \<Rightarrow> nat"
  assumes enc_length: "length (enc k v) = k"
    and dec_enc: "v < 256 ^ k \<Longrightarrow> dec (enc k v) = v"
begin

lemma enc_inj: "v < 256 ^ k \<Longrightarrow> w < 256 ^ k \<Longrightarrow> enc k v = enc k w \<Longrightarrow> v = w"
  by (metis dec_enc)

text \<open>Fixed width makes concatenation unambiguous.\<close>

lemma enc_append_eq:
  assumes "v < 256 ^ k" "w < 256 ^ k" "enc k v @ xs = enc k w @ ys"
  shows "v = w \<and> xs = ys"
  using assms enc_inj [of v k w] enc_length by (metis append_eq_append_conv)

lemma dec_take: "v < 256 ^ k \<Longrightarrow> dec (take k (enc k v @ xs)) = v"
  by (simp add: enc_length dec_enc)

end

lemma be_bytes_length [simp]: "length (be_bytes k v) = k"
  by (induction k arbitrary: v) auto

lemma be_value_snoc: "be_value (bs @ [b]) = be_value bs * 256 + unat b"
  by (simp add: be_value_def)

lemma be_value_be_bytes: "v < 256 ^ k \<Longrightarrow> be_value (be_bytes k v) = v"
proof (induction k arbitrary: v)
  case (Suc k)
  then have "v div 256 < 256 ^ k" by auto
  from Suc.IH [OF this] show ?case by (simp add: be_value_snoc unat_of_nat)
qed (simp add: be_value_def)

interpretation be: fixed_width be_bytes be_value
  by unfold_locales (simp_all add: be_value_be_bytes)

interpretation le: fixed_width le_bytes le_value
  by unfold_locales (simp_all add: be_value_be_bytes le_bytes_def le_value_def)

subsection \<open>The canonical encoding is unambiguous\<close>

definition emit :: "field \<Rightarrow> bytes" where
  "emit f = write_field [] f"

lemmas writer_defs = write_u8_def write_u16_def write_u32_def write_i64_def write_blob_def

lemma write_field_emit: "write_field w f = w @ emit f"
  by (cases f) (simp_all add: emit_def writer_defs)

lemma canonical_bytes_emit:
  "foldl write_field w fs = w @ concat (map emit fs)"
  by (induction fs arbitrary: w) (simp_all add: write_field_emit)

lemma unat_bounds:
  "unat (a :: 16 word) < 256 ^ 2" "unat (b :: 32 word) < 256 ^ 4" "unat (c :: 64 word) < 256 ^ 8"
  using unsigned_less [of a] unsigned_less [of b] unsigned_less [of c] by simp_all

lemma blob_append_eq:
  assumes "length xs < 4294967296" "length ys < 4294967296"
    and "write_blob [] xs @ us = write_blob [] ys @ vs"
  shows "xs = ys \<and> us = vs"
proof -
  have "length xs = length ys \<and> xs @ us = ys @ vs"
    using be.enc_append_eq [of "length xs" 4 "length ys" "xs @ us" "ys @ vs"] assms
    by (simp add: write_blob_def)
  then show ?thesis by auto
qed

lemma emit_append_eq:
  assumes "kind f = kind g" "field_fits f" "field_fits g" "emit f @ us = emit g @ vs"
  shows "f = g \<and> us = vs"
proof (cases f)
  case (FU8 a)
  then show ?thesis using assms by (cases g) (auto simp: emit_def writer_defs)
next
  case (FU16 a)
  then obtain b where g: "g = FU16 b" using assms(1) by (cases g) auto
  have "be_bytes 2 (unat a) @ us = be_bytes 2 (unat b) @ vs"
    using assms(4) FU16 g by (simp only: emit_def write_field.simps write_u16_def append_Nil)
  from be.enc_append_eq [OF unat_bounds(1) unat_bounds(1) this] show ?thesis using FU16 g by (simp add: word_unat_eq_iff)
next
  case (FU32 a)
  then obtain b where g: "g = FU32 b" using assms(1) by (cases g) auto
  have "be_bytes 4 (unat a) @ us = be_bytes 4 (unat b) @ vs"
    using assms(4) FU32 g by (simp only: emit_def write_field.simps write_u32_def append_Nil)
  from be.enc_append_eq [OF unat_bounds(2) unat_bounds(2) this] show ?thesis using FU32 g by (simp add: word_unat_eq_iff)
next
  case (FI64 a)
  then obtain b where g: "g = FI64 b" using assms(1) by (cases g) auto
  have "be_bytes 8 (unat a) @ us = be_bytes 8 (unat b) @ vs"
    using assms(4) FI64 g by (simp only: emit_def write_field.simps write_i64_def append_Nil)
  from be.enc_append_eq [OF unat_bounds(3) unat_bounds(3) this] show ?thesis using FI64 g by (simp add: word_unat_eq_iff)
next
  case (FBlob a)
  then obtain b where g: "g = FBlob b" using assms(1) by (cases g) auto
  have "write_blob [] a @ us = write_blob [] b @ vs"
    using assms(4) FBlob g by (simp only: emit_def write_field.simps)
  from blob_append_eq [OF _ _ this] show ?thesis using assms(2,3) FBlob g by simp
qed

lemma emits_append_eq:
  assumes "map kind fs = map kind gs" "list_all field_fits fs" "list_all field_fits gs"
    and "concat (map emit fs) @ us = concat (map emit gs) @ vs"
  shows "fs = gs \<and> us = vs"
  using assms
proof (induction fs arbitrary: gs)
  case (Cons f fs)
  then obtain g gs' where gs: "gs = g # gs'" by (cases gs) auto
  then show ?case
    using Cons.IH [of gs'] Cons.prems emit_append_eq [of f g "concat (map emit fs) @ us" "concat (map emit gs') @ vs"]
    by auto
qed simp

lemma emits_inj:
  assumes "map kind fs = map kind gs" "list_all field_fits fs" "list_all field_fits gs"
    and "concat (map emit fs) = concat (map emit gs)"
  shows "fs = gs"
  using emits_append_eq [OF assms(1-3), of "[]" "[]"] assms(4) by simp

text \<open>A counted list after a fixed layout: the count settles how many items follow.\<close>

lemma counted_fields_inj:
  assumes "canonical_bytes s (pre @ FU32 (word_of_nat (length l)) # concat (map f l)) =
      canonical_bytes s (pre' @ FU32 (word_of_nat (length l')) # concat (map f l'))"
    and "map kind pre = map kind pre'" "\<And>x. map kind (f x) = ks" "length l < 4294967296" "length l' < 4294967296"
    and "list_all field_fits pre" "list_all field_fits pre'"
    and "list_all (\<lambda>x. list_all field_fits (f x)) l" "list_all (\<lambda>x. list_all field_fits (f x)) l'"
  shows "pre = pre' \<and> length l = length l' \<and> concat (map f l) = concat (map f l')"
proof -
  let ?p = "pre @ [FU32 (word_of_nat (length l))]" and ?p' = "pre' @ [FU32 (word_of_nat (length l'))]"
  have "concat (map emit ?p) @ concat (map emit (concat (map f l))) = concat (map emit ?p') @ concat (map emit (concat (map f l')))"
    using assms(1) unfolding canonical_bytes_def canonical_bytes_emit by simp
  from emits_append_eq [OF _ _ _ this] assms(2,6,7)
  have p: "?p = ?p'" "concat (map emit (concat (map f l))) = concat (map emit (concat (map f l')))" by auto
  then have "(word_of_nat (length l) :: 32 word) = word_of_nat (length l')" by simp
  then have "unat (word_of_nat (length l) :: 32 word) = unat (word_of_nat (length l') :: 32 word)" by simp
  then have n: "length l = length l'" using assms(4,5) by (simp add: unat_of_nat)
  have k: "map kind (concat (map f xs)) = concat (map (\<lambda>_. ks) xs)" for xs
    by (induction xs) (simp_all add: assms(3))
  have "concat (map (\<lambda>_. ks) l) = concat (map (\<lambda>_. ks) l')" using n by (simp add: map_replicate_const)
  then have "concat (map f l) = concat (map f l')"
    using emits_inj [OF _ _ _ p(2)] k assms(8,9) by (simp add: list_all_iff)
  then show ?thesis using p n by simp
qed

lemma bytes_of_inj [simp]: "bytes_of s = bytes_of t \<longleftrightarrow> s = t"
proof
  assume e: "bytes_of s = bytes_of t"
  have "inj (\<lambda>c. word_of_nat (of_char c) :: 8 word)"
  proof (rule injI)
    fix a b :: char
    assume "(word_of_nat (of_char a) :: 8 word) = word_of_nat (of_char b)"
    then have "unat (word_of_nat (of_char a) :: 8 word) = unat (word_of_nat (of_char b) :: 8 word)" by simp
    then have "(of_char a :: nat) = of_char b" by (simp add: unat_of_nat)
    then show "a = b" by simp
  qed
  then show "s = t" using e by (simp add: bytes_of_def inj_map_eq_map)
qed simp

lemma string_of_bytes_inj: "string_of_bytes a = string_of_bytes b \<Longrightarrow> a = b"
proof (rule map_injective)
  show "inj (char_of \<circ> (unat :: 8 word \<Rightarrow> nat))"
  proof (rule injI)
    fix x y :: "8 word"
    assume "(char_of \<circ> unat) x = (char_of \<circ> unat) y"
    then have "unat x mod 256 = unat y mod 256" by (simp add: char_of_eq_iff take_bit_eq_mod)
    then show "x = y" using unsigned_less[of x, where ?'a = nat] unsigned_less[of y, where ?'a = nat] by (simp add: word_unat_eq_iff)
  qed
qed (simp add: string_of_bytes_def)

lemma bytes_of_length [simp]: "length (bytes_of s) = length s"
  by (simp add: bytes_of_def)

text \<open>The canonical encoding leaves no room for confusion: two values of the same field
  layout encode to the same bytes only if they are the same section with the same field
  values (blobs and section names below 4 GiB, so that the 32-bit length is exact).\<close>

theorem canonical_encoding_injective:
  assumes "map kind fs = map kind gs" "list_all field_fits fs" "list_all field_fits gs"
    and "length s < 4294967296" "length t < 4294967296"
    and "canonical_bytes s fs = canonical_bytes t gs"
  shows "s = t \<and> fs = gs"
proof -
  have "write_blob [] (bytes_of s) @ concat (map emit fs) = write_blob [] (bytes_of t) @ concat (map emit gs)"
    using assms(6) by (simp add: canonical_bytes_def canonical_bytes_emit canonical_new_def write_blob_def)
  then have "bytes_of s = bytes_of t \<and> concat (map emit fs) = concat (map emit gs)"
    using blob_append_eq [of "bytes_of s" "bytes_of t"] assms(4,5) by simp
  then show ?thesis using emits_inj [OF assms(1-3)] by simp
qed

theorem canonical_encoding_injective_witness:
  "canonical_bytes ''s'' [FBlob (bytes_of ''ab''), FBlob (bytes_of ''c'')] \<noteq>
   canonical_bytes ''s'' [FBlob (bytes_of ''a''), FBlob (bytes_of ''bc'')]"
  using canonical_encoding_injective [of "[FBlob (bytes_of ''ab''), FBlob (bytes_of ''c'')]"
      "[FBlob (bytes_of ''a''), FBlob (bytes_of ''bc'')]" "''s''" "''s''"]
  by auto

subsection \<open>Comparison and labels\<close>

lemma or_xor_zero_iff: "d OR (x XOR y) = 0 \<longleftrightarrow> d = 0 \<and> x = (y :: 8 word)"
proof -
  have "x XOR y = 0 \<longleftrightarrow> x = y"
    by (metis xor_self_eq xor.assoc xor.right_neutral)
  then show ?thesis by (simp add: or_eq_0_iff)
qed

lemma ct_fold_zero_iff:
  fixes a b :: bytes
  shows "length a = length b \<Longrightarrow>
   foldl (\<lambda>diff (x, y). diff OR (x XOR y)) d (zip a b) = 0 \<longleftrightarrow> d = 0 \<and> a = b"
proof (induction a arbitrary: b d)
  case (Cons x a)
  then obtain y b' where "b = y # b'" by (cases b) auto
  then show ?case using Cons.IH [of b' "d OR (x XOR y)"] Cons.prems by (auto simp: or_xor_zero_iff)
qed simp

text \<open>The constant-time comparison decides equality of byte strings.\<close>

lemma ct_eq_iff [simp]: "ct_eq a b \<longleftrightarrow> a = b"
  using ct_fold_zero_iff [of a b 0] by (auto simp: ct_eq_def)

lemma split_at_colon:
  assumes "CHR '':'' \<notin> set a" "CHR '':'' \<notin> set a'" "a @ '':'' @ b = a' @ '':'' @ b'"
  shows "a = a' \<and> b = b'"
  using assms
proof (induction a arbitrary: a')
  case Nil
  then show ?case by (cases a') auto
next
  case (Cons c a)
  then show ?case by (cases a') auto
qed

lemmas key_info_defs = bundle_key_info_def session_key_info_def log_key_info_def admin_key_info_def
  enclave_key_info_def shard_key_info_def BUNDLE_KEY_def SESSION_KEY_def LOG_KEY_def ADMIN_KEY_def
  ENCLAVE_KEY_def SHARD_KEY_def

text \<open>Derivation labels separate purposes: no choice of identifiers makes a label of one
  key purpose equal to a label of another, and within a purpose the label determines the
  identifiers provided the first one holds no colon.\<close>

theorem key_labels_separate:
  "distinct [bundle_key_info a1 b1, session_key_info a2 b2, log_key_info a3 b3, admin_key_info a4 b4,
     enclave_key_info a5 b5, shard_key_info i] \<and>
   (CHR '':'' \<notin> set a \<and> CHR '':'' \<notin> set c \<longrightarrow> bundle_key_info a b = bundle_key_info c d \<longrightarrow> a = c \<and> b = d)"
  using split_at_colon [of a c b d] by (auto simp: key_info_defs)

theorem key_labels_separate_witness: "bundle_key_info ''x'' ''y:z'' \<noteq> bundle_key_info ''w'' ''y:z''"
  using key_labels_separate [of "[]" "[]" "[]" "[]" "[]" "[]" "[]" "[]" "[]" "[]" 0 "''x''" "''w''" "''y:z''" "''y:z''"]
  by auto

end
