(* ===== verification/Crypto.thy ===== *)
theory Crypto
  imports Canonical
begin

text \<open>
  The key hierarchy, shard encryption and signing wrappers of
  \<^verbatim>\<open>cordon-crypto/src/{kdf,hierarchy,symmetric,signing,error}.rs\<close>.

  HKDF, AES-256-GCM, Ed25519, SHA-256 and the base64 and hexadecimal codecs are
  third-party code: the record \<open>crypto_env\<close> carries the calls the sources make, and
  \<open>crypto_ok\<close> what is documented of them.  Byte strings are HOL strings.
\<close>

datatype CryptoError =
  EncryptionFailed string
| DecryptionFailed
| KdfFailed string
| CryptoSignatureInvalid
| SigningFailed string
| InvalidKey string
| AttestationFailed string
| NonceMismatch
| PcrMismatch nat string string
| EnclaveMeasurementMismatch string string
| RngFailed string
| Base64Error string
| HexError string
| CryptoInternal string

type_synonym 'a CryptoResult = "CryptoError + 'a"

fun crypto_error_to_string :: "CryptoError \<Rightarrow> string" where
  "crypto_error_to_string (EncryptionFailed m) = ''Encryption failed: '' @ m"
| "crypto_error_to_string DecryptionFailed = ''Decryption failed; data may be tampered''"
| "crypto_error_to_string (KdfFailed m) = ''Key derivation failed: '' @ m"
| "crypto_error_to_string CryptoSignatureInvalid = ''Signature verification failed''"
| "crypto_error_to_string (SigningFailed m) = ''Signing failed: '' @ m"
| "crypto_error_to_string (InvalidKey m) = ''Invalid key material: '' @ m"
| "crypto_error_to_string (AttestationFailed m) = ''Attestation verification failed: '' @ m"
| "crypto_error_to_string NonceMismatch = ''Nonce mismatch; possible replay attack''"
| "crypto_error_to_string (PcrMismatch i e a) =
     ''PCR value mismatch at index '' @ show_nat i @ '': expected '' @ e @ '', got '' @ a"
| "crypto_error_to_string (EnclaveMeasurementMismatch e a) =
     ''MRENCLAVE mismatch: expected '' @ e @ '', got '' @ a"
| "crypto_error_to_string (RngFailed m) = ''Random number generation failed: '' @ m"
| "crypto_error_to_string (Base64Error m) = ''Base64 decode error: '' @ m"
| "crypto_error_to_string (HexError m) = ''Hex decode error: '' @ m"
| "crypto_error_to_string (CryptoInternal m) = ''Internal crypto error: '' @ m"

record crypto_env =
  hkdf_expand :: "string \<Rightarrow> string \<Rightarrow> nat \<Rightarrow> string + string"
  digest_hex :: "string \<Rightarrow> string"
  b64_encode :: "string \<Rightarrow> string"
  b64_decode :: "string \<Rightarrow> string + string"
  hex_encode :: "string \<Rightarrow> string"
  hex_decode :: "string \<Rightarrow> string + string"
  gcm_encrypt :: "string \<Rightarrow> string \<Rightarrow> string \<Rightarrow> string + string"
  gcm_decrypt :: "string \<Rightarrow> string \<Rightarrow> string \<Rightarrow> string option"
  ed_public :: "string \<Rightarrow> string"
  ed_sign :: "string \<Rightarrow> string \<Rightarrow> string"
  ed_point_error :: "string \<Rightarrow> string option"
  ed_verify :: "string \<Rightarrow> string \<Rightarrow> string \<Rightarrow> bool"

subsection \<open>Key derivation\<close>

definition derive_key :: "crypto_env \<Rightarrow> string \<Rightarrow> string \<Rightarrow> nat \<Rightarrow> string CryptoResult" where
  "derive_key C ikm info output_len =
     (case hkdf_expand C ikm info output_len of Inl e \<Rightarrow> Inl (KdfFailed e) | Inr okm \<Rightarrow> Inr okm)"

definition derive_32_byte_key :: "crypto_env \<Rightarrow> string \<Rightarrow> string \<Rightarrow> string CryptoResult" where
  "derive_32_byte_key C ikm info = derive_key C ikm info 32"

definition master_from_hex :: "crypto_env \<Rightarrow> string \<Rightarrow> string CryptoResult" where
  "master_from_hex C s = (case hex_decode C s of
     Inl e \<Rightarrow> Inl (HexError e)
   | Inr b \<Rightarrow> if length b \<noteq> 32 then Inl (InvalidKey ''Master key must be exactly 32 bytes'') else Inr b)"

definition master_to_hex :: "crypto_env \<Rightarrow> string \<Rightarrow> string" where
  "master_to_hex C m = hex_encode C m"

definition derive_bundle_key :: "crypto_env \<Rightarrow> string \<Rightarrow> string \<Rightarrow> string \<Rightarrow> string CryptoResult" where
  "derive_bundle_key C master bundle_id client_id = derive_32_byte_key C master (bundle_key_info bundle_id client_id)"

definition derive_session_key :: "crypto_env \<Rightarrow> string \<Rightarrow> string \<Rightarrow> string \<Rightarrow> string CryptoResult" where
  "derive_session_key C master dep client_id = derive_32_byte_key C master (session_key_info dep client_id)"

text \<open>A signing key is its seed.\<close>

definition derive_log_signing_key :: "crypto_env \<Rightarrow> string \<Rightarrow> string \<Rightarrow> string \<Rightarrow> string CryptoResult" where
  "derive_log_signing_key C master dep client_id = derive_32_byte_key C master (log_key_info dep client_id)"

definition derive_log_key :: "crypto_env \<Rightarrow> string \<Rightarrow> string \<Rightarrow> string \<Rightarrow> string CryptoResult" where
  "derive_log_key C master dep client_id = derive_32_byte_key C master (log_key_info dep client_id)"

definition derive_enclave_key :: "crypto_env \<Rightarrow> string \<Rightarrow> string \<Rightarrow> string \<Rightarrow> string CryptoResult" where
  "derive_enclave_key C master dep client_id = derive_32_byte_key C master (enclave_key_info dep client_id)"

definition derive_admin_key :: "crypto_env \<Rightarrow> string \<Rightarrow> string \<Rightarrow> string \<Rightarrow> string CryptoResult" where
  "derive_admin_key C master dep client_id = derive_32_byte_key C master (admin_key_info dep client_id)"

definition derive_shard_key :: "crypto_env \<Rightarrow> string \<Rightarrow> nat \<Rightarrow> string CryptoResult" where
  "derive_shard_key C bundle_key index = derive_32_byte_key C bundle_key (shard_key_info index)"

record DerivedKeys =
  dk_bundle_key :: string
  dk_session_key :: string
  dk_log_key :: string
  dk_admin_key :: string

definition derive_all :: "crypto_env \<Rightarrow> string \<Rightarrow> string \<Rightarrow> string \<Rightarrow> string \<Rightarrow> DerivedKeys CryptoResult" where
  "derive_all C master dep client_id bundle_id =
     (case derive_bundle_key C master bundle_id client_id of Inl e \<Rightarrow> Inl e
      | Inr b \<Rightarrow> (case derive_session_key C master dep client_id of Inl e \<Rightarrow> Inl e
      | Inr s \<Rightarrow> (case derive_log_key C master dep client_id of Inl e \<Rightarrow> Inl e
      | Inr l \<Rightarrow> (case derive_admin_key C master dep client_id of Inl e \<Rightarrow> Inl e
      | Inr a \<Rightarrow> Inr \<lparr>dk_bundle_key = b, dk_session_key = s, dk_log_key = l, dk_admin_key = a\<rparr>))))"

subsection \<open>Authenticated encryption\<close>

definition aes_key_from_slice :: "string \<Rightarrow> string CryptoResult" where
  "aes_key_from_slice s = (if length s \<noteq> 32
     then Inl (InvalidKey (''AES-256 key must be 32 bytes, got '' @ show_nat (length s))) else Inr s)"

record EncryptedBlob =
  nonce_b64 :: string
  ciphertext_b64 :: string
  plaintext_sha256 :: string
  ciphertext_sha256 :: string

text \<open>The nonce drawn from the operating system is the argument \<open>nonce\<close>.\<close>

definition encrypt_blob :: "crypto_env \<Rightarrow> string \<Rightarrow> string \<Rightarrow> string \<Rightarrow> EncryptedBlob CryptoResult" where
  "encrypt_blob C nonce key plaintext = (case gcm_encrypt C key nonce plaintext of
     Inl e \<Rightarrow> Inl (EncryptionFailed e)
   | Inr ct \<Rightarrow> Inr \<lparr>nonce_b64 = b64_encode C nonce, ciphertext_b64 = b64_encode C ct,
       plaintext_sha256 = digest_hex C plaintext, ciphertext_sha256 = digest_hex C ct\<rparr>)"

definition decrypt_blob :: "crypto_env \<Rightarrow> string \<Rightarrow> EncryptedBlob \<Rightarrow> string CryptoResult" where
  "decrypt_blob C key blob = (case b64_decode C (nonce_b64 blob) of
     Inl e \<Rightarrow> Inl (Base64Error e)
   | Inr nonce \<Rightarrow> (case b64_decode C (ciphertext_b64 blob) of
     Inl e \<Rightarrow> Inl (Base64Error e)
   | Inr ct \<Rightarrow>
       if digest_hex C ct \<noteq> ciphertext_sha256 blob then Inl DecryptionFailed
       else if length nonce \<noteq> 12 then Inl (InvalidKey ''Invalid nonce length'')
       else (case gcm_decrypt C key nonce ct of
         None \<Rightarrow> Inl DecryptionFailed
       | Some pt \<Rightarrow> if digest_hex C pt \<noteq> plaintext_sha256 blob then Inl DecryptionFailed else Inr pt)))"

definition encrypt_shard :: "crypto_env \<Rightarrow> string \<Rightarrow> string \<Rightarrow> string \<Rightarrow> string CryptoResult" where
  "encrypt_shard C key plaintext nonce =
     (case gcm_encrypt C key nonce plaintext of Inl e \<Rightarrow> Inl (EncryptionFailed e) | Inr ct \<Rightarrow> Inr ct)"

definition decrypt_shard :: "crypto_env \<Rightarrow> string \<Rightarrow> string \<Rightarrow> string \<Rightarrow> string CryptoResult" where
  "decrypt_shard C key ciphertext nonce =
     (case gcm_decrypt C key nonce ciphertext of None \<Rightarrow> Inl DecryptionFailed | Some pt \<Rightarrow> Inr pt)"

subsection \<open>Signatures\<close>

definition verifying_key :: "crypto_env \<Rightarrow> string \<Rightarrow> string" where
  "verifying_key C seed = ed_public C seed"

definition sign :: "crypto_env \<Rightarrow> string \<Rightarrow> string \<Rightarrow> string" where
  "sign C seed msg = ed_sign C seed msg"

definition vk_from_bytes :: "crypto_env \<Rightarrow> string \<Rightarrow> string CryptoResult" where
  "vk_from_bytes C b = (case ed_point_error C b of Some e \<Rightarrow> Inl (InvalidKey e) | None \<Rightarrow> Inr b)"

definition vk_from_hex :: "crypto_env \<Rightarrow> string \<Rightarrow> string CryptoResult" where
  "vk_from_hex C s = (case hex_decode C s of
     Inl e \<Rightarrow> Inl (HexError e)
   | Inr b \<Rightarrow> if length b \<noteq> 32 then Inl (InvalidKey ''Ed25519 public key must be 32 bytes'') else vk_from_bytes C b)"

definition vk_to_hex :: "crypto_env \<Rightarrow> string \<Rightarrow> string" where
  "vk_to_hex C vk = hex_encode C vk"

definition vk_verify :: "crypto_env \<Rightarrow> string \<Rightarrow> string \<Rightarrow> string \<Rightarrow> unit CryptoResult" where
  "vk_verify C vk msg sig = (case ed_point_error C vk of
     Some e \<Rightarrow> Inl (InvalidKey e)
   | None \<Rightarrow> if ed_verify C vk msg sig then Inr () else Inl CryptoSignatureInvalid)"

definition sig_from_hex :: "crypto_env \<Rightarrow> string \<Rightarrow> string CryptoResult" where
  "sig_from_hex C s = (case hex_decode C s of
     Inl e \<Rightarrow> Inl (HexError e)
   | Inr b \<Rightarrow> if length b \<noteq> 64 then Inl (InvalidKey ''Ed25519 signature must be 64 bytes'') else Inr b)"

definition sig_to_hex :: "crypto_env \<Rightarrow> string \<Rightarrow> string" where
  "sig_to_hex C sig = hex_encode C sig"

subsection \<open>What is documented of the third-party code\<close>

definition crypto_ok :: "crypto_env \<Rightarrow> bool" where
  "crypto_ok C \<longleftrightarrow>
     (\<forall>x. b64_decode C (b64_encode C x) = Inr x) \<and> (\<forall>x. hex_decode C (hex_encode C x) = Inr x)
   \<and> (\<forall>k n p c. gcm_encrypt C k n p = Inr c \<longrightarrow> gcm_decrypt C k n c = Some p)
   \<and> (\<forall>s. length (ed_public C s) = 32 \<and> ed_point_error C (ed_public C s) = None)
   \<and> (\<forall>s m. length (ed_sign C s m) = 64 \<and> ed_verify C (ed_public C s) m (ed_sign C s m))"

subsection \<open>A concrete environment\<close>

text \<open>
  Every hypothesis of \<open>crypto_ok\<close> and of a hexadecimal digest holds together: codecs by a
  marker character, a checksum as digest, and a tag that names the key and the message.
\<close>

definition sample_hex :: "nat \<Rightarrow> char" where
  "sample_hex n = ''0123456789abcdef'' ! (n mod 16)"

definition sample_digest :: "string \<Rightarrow> string" where
  "sample_digest s = (let k = foldl (\<lambda>a c. (a * 31 + of_char c) mod 65521) 7 s
     in replicate 60 (CHR ''0'') @ [sample_hex (k div 4096), sample_hex (k div 256), sample_hex (k div 16), sample_hex k])"

definition sample_pad :: "nat \<Rightarrow> string \<Rightarrow> string" where
  "sample_pad n s = take n (s @ replicate n (CHR ''.''))"

definition unmark :: "char \<Rightarrow> string \<Rightarrow> string + string" where
  "unmark c s = (case s of [] \<Rightarrow> Inl ''empty'' | x # xs \<Rightarrow> if x = c then Inr xs else Inl ''bad marker'')"

definition sample_crypto :: crypto_env where
  "sample_crypto = \<lparr>hkdf_expand = (\<lambda>ikm info n. Inr (sample_pad n (sample_digest (ikm @ info)))),
     digest_hex = sample_digest,
     b64_encode = (\<lambda>x. CHR ''b'' # x), b64_decode = unmark (CHR ''b''),
     hex_encode = (\<lambda>x. CHR ''h'' # x), hex_decode = unmark (CHR ''h''),
     gcm_encrypt = (\<lambda>k n p. Inr (k @ n @ p)),
     gcm_decrypt = (\<lambda>k n c. if take (length (k @ n)) c = k @ n then Some (drop (length (k @ n)) c) else None),
     ed_public = (\<lambda>s. sample_pad 32 s),
     ed_sign = (\<lambda>s m. sample_pad 64 (sample_digest (sample_pad 32 s @ m))),
     ed_point_error = (\<lambda>_. None),
     ed_verify = (\<lambda>vk m sg. sg = sample_pad 64 (sample_digest (vk @ m)))\<rparr>"

lemma sample_crypto_ok: "crypto_ok sample_crypto"
  by (auto simp: crypto_ok_def sample_crypto_def unmark_def sample_pad_def)

lemma sample_digest_hex: "hex_digest sample_digest"
proof -
  have "hex_digit (sample_hex n)" for n
  proof -
    have "n mod 16 \<in> {0..<16}" by simp
    then have "sample_hex n \<in> set ''0123456789abcdef''"
      unfolding sample_hex_def by (intro nth_mem) simp
    then show ?thesis by (simp only: hex_digit_def)
  qed
  moreover have "hex_digit (CHR ''0'')" by (simp add: hex_digit_def)
  ultimately show ?thesis
    by (simp add: hex_digest_def sample_digest_def Let_def list_all_iff)
qed

subsection \<open>Properties\<close>

text \<open>What was encrypted decrypts to itself under the same key, whenever the cipher
  does not refuse and the nonce has twelve bytes; and whatever decryption returns, for
  any blob, carries the two digests the blob names.\<close>

theorem blob_round_trip:
  assumes "crypto_ok C" "length nonce = 12" "encrypt_blob C nonce key p = Inr blob"
  shows "decrypt_blob C key blob = Inr p
    \<and> (case decrypt_blob C key b of Inl _ \<Rightarrow> True
        | Inr q \<Rightarrow> digest_hex C q = plaintext_sha256 b \<and> digest_hex C (projr (b64_decode C (ciphertext_b64 b))) = ciphertext_sha256 b)"
proof
  obtain ct where "gcm_encrypt C key nonce p = Inr ct"
    "blob = \<lparr>nonce_b64 = b64_encode C nonce, ciphertext_b64 = b64_encode C ct,
       plaintext_sha256 = digest_hex C p, ciphertext_sha256 = digest_hex C ct\<rparr>"
    using assms(3) by (auto simp: encrypt_blob_def split: sum.splits)
  then show "decrypt_blob C key blob = Inr p"
    using assms(1,2) by (simp add: decrypt_blob_def crypto_ok_def)
  show "(case decrypt_blob C key b of Inl _ \<Rightarrow> True
      | Inr q \<Rightarrow> digest_hex C q = plaintext_sha256 b \<and> digest_hex C (projr (b64_decode C (ciphertext_b64 b))) = ciphertext_sha256 b)"
    by (auto simp: decrypt_blob_def split: sum.split option.split)
qed

theorem blob_round_trip_witness:
  "let blob = projr (encrypt_blob sample_crypto ''nonce-nonce-'' ''key'' ''weights'')
   in decrypt_blob sample_crypto ''key'' blob = Inr ''weights''"
proof -
  have "encrypt_blob sample_crypto ''nonce-nonce-'' ''key'' ''weights''
      = Inr (projr (encrypt_blob sample_crypto ''nonce-nonce-'' ''key'' ''weights''))"
    by (simp add: encrypt_blob_def sample_crypto_def)
  from blob_round_trip[OF sample_crypto_ok _ this] show ?thesis
    by (simp add: Let_def)
qed

end
