(* ===== verification/AuditEvents.thy ===== *)
theory AuditEvents
  imports Prelude
begin

text \<open>
  The audit event vocabulary of \<^verbatim>\<open>cordon-audit/src/events.rs\<close> and the audit
  error type of \<^verbatim>\<open>cordon-audit/src/error.rs\<close>.  Record fields carry a prefix
  where the source reuses a field name in several structs.
\<close>

datatype FinishReason = Stop | Length | ContentFilter | Timeout | Error

record InferenceEvent =
  ie_request_id :: uuid
  ie_client_id :: string
  ie_session_id :: "uuid option"
  ie_model_id :: string
  ie_mrenclave :: string
  ie_input_hash :: string
  ie_output_hash :: string
  ie_prompt_tokens :: nat
  ie_completion_tokens :: nat
  ie_latency_ms :: nat
  ie_finish_reason :: FinishReason
  ie_content_policy_triggered :: bool
  ie_policy_rules_matched :: "string list"
  ie_covert_channel_score :: rat
  ie_timing_bucket_ms :: "nat option"

datatype AlertType =
  TamperDetected | AttestationFailure | IntegrityViolation | SustainedProbe
| CovertChannelSuspectedAlert | UnauthorizedAdmin | RateLimitExceededAlert | AuthFailure
| ReplayAttack

datatype AlertSeverity = Low | Medium | High | Critical

datatype AutoAction = Continue | QuarantineNode | Halt | Zeroize | SuspendClient | BlockIp

datatype AuditEnclaveState =
  AuditOperational | AuditQuarantine | AuditLocked | AuditZeroized

record SecurityAlertEvent =
  sa_alert_type :: AlertType
  sa_severity :: AlertSeverity
  sa_detail_hash :: string
  sa_summary :: string
  sa_automatic_action :: AutoAction
  sa_enclave_state_after :: AuditEnclaveState
  sa_source_identifier :: "string option"

datatype AdminAction =
  AdminKeyRotation | ModelUpdate | ConfigChange | Teardown | Recovery | AdminLogExport
| ReAttestation | SoftwareUpdate

datatype ActionResult = Success | Failure | Rejected

record AdminEvent =
  ad_client_id :: string
  ad_actor_key_id :: string
  ad_action :: AdminAction
  ad_authorization_sig_valid :: bool
  ad_parameters_hash :: string
  ad_result :: ActionResult
  ad_failure_reason :: "string option"

datatype AttestationTrigger = BootAttestation | Scheduled | ClientRequest | PostUpdate

record AttestationEvent =
  at_trigger :: AttestationTrigger
  at_tpm_pcr_snapshot_hash :: string
  at_mrenclave :: string
  at_client_verified :: bool
  at_key_released :: bool
  at_nonce :: string

record KeyRotationEvent =
  kr_bundle_id :: string
  kr_previous_epoch :: nat
  kr_new_epoch :: nat
  kr_emergency :: bool
  kr_requests_dropped :: nat

datatype TamperSource =
  ChassisIntrusion | HsmTamperDetect | PcrChange | WeightIntegrity | LogChainBroken

record TamperEvent =
  te_source :: TamperSource
  te_hsm_zeroized :: bool
  te_enclave_zeroized :: bool
  te_recovery_required :: "string list"

datatype LifecycleEventType =
  Boot | Shutdown | QuarantineEnter | QuarantineExit | EnclaveRestart

record LifecycleEvent =
  lc_event :: LifecycleEventType
  lc_cordon_version :: string
  lc_tee_type :: string
  lc_node_id :: string

record LogExportEvent =
  le_requester_client_id :: string
  le_export_method :: string
  le_range_start :: datetime
  le_range_end :: datetime
  le_entries_exported :: nat
  le_export_hash :: string
  le_recipient_key_id :: string

datatype BundleAction = Loaded | IntegrityCheckPassed | IntegrityCheckFailed | Unloaded

record ModelBundleEvent =
  mb_bundle_id :: string
  mb_action :: BundleAction
  mb_manifest_hash :: string
  mb_client_sig_verified :: bool
  mb_vendor_sig_verified :: bool

datatype AuditEvent =
  Inference InferenceEvent
| SecurityAlert SecurityAlertEvent
| Admin AdminEvent
| Attestation AttestationEvent
| KeyRotation KeyRotationEvent
| Tamper TamperEvent
| Lifecycle LifecycleEvent
| LogExport LogExportEvent
| ModelBundle ModelBundleEvent

fun event_type_str :: "AuditEvent \<Rightarrow> string" where
  "event_type_str (Inference e) = ''inference''"
| "event_type_str (SecurityAlert e) = ''security_alert''"
| "event_type_str (Admin e) = ''admin''"
| "event_type_str (Attestation e) = ''attestation''"
| "event_type_str (KeyRotation e) = ''key_rotation''"
| "event_type_str (Tamper e) = ''tamper''"
| "event_type_str (Lifecycle e) = ''lifecycle''"
| "event_type_str (LogExport e) = ''log_export''"
| "event_type_str (ModelBundle e) = ''model_bundle''"

fun event_client_id :: "AuditEvent \<Rightarrow> string option" where
  "event_client_id (Inference e) = Some (ie_client_id e)"
| "event_client_id (Admin e) = Some (ad_client_id e)"
| "event_client_id (LogExport e) = Some (le_requester_client_id e)"
| "event_client_id _ = None"

text \<open>
  The errors of the audit crate.  Their message strings are carried as the data
  they are formatted from; \<open>IoError\<close> and \<open>WriteFailed\<close> keep the name of
  the failing step.
\<close>

datatype AuditError =
  WriteFailed string
| AlreadyLocked string
| ChainViolation string string
| SignatureInvalid string
| GenesisMismatch
| LogNotAccessible string
| SerializationError string
| ExportError string
| IoError string
| CryptoErr string

type_synonym 'a AuditResult = "AuditError + 'a"

end
