(* ===== verification/Errors.thy ===== *)
theory Errors
  imports AuditEvents
begin

text \<open>
  The error type of \<^verbatim>\<open>cordon-core/src/error.rs\<close>, its classification of caller
  mistakes and the conversion from the audit crate's errors.
\<close>

datatype CordonError =
  AuthFailed string
| RateLimitExceeded string
| ValidationFailed string
| InferenceFailed string
| ModelNotFound string
| ModelIntegrityViolation string
| AttestationInvalid string
| Quarantined
| NodeLocked
| NodeZeroized
| ContentPolicyViolation string
| CovertChannelDetected rat
| OutputFilterError string
| AuditWriteFailed string
| AuditLogUnavailable string
| AdminRejected string
| KeyError string
| ConfigError string
| Timeout nat
| Overloaded nat
| RuntimeUnavailable string
| ModelDownloadFailed string
| RequestTooLarge string
| ModeForbidden string string
| Internal string

type_synonym 'a CordonResult = "CordonError + 'a"

fun is_client_fault :: "CordonError \<Rightarrow> bool" where
  "is_client_fault (AuthFailed _) = True"
| "is_client_fault (ValidationFailed _) = True"
| "is_client_fault (RateLimitExceeded _) = True"
| "is_client_fault (ModelNotFound _) = True"
| "is_client_fault (ContentPolicyViolation _) = True"
| "is_client_fault (RequestTooLarge _) = True"
| "is_client_fault (AdminRejected _) = True"
| "is_client_fault _ = False"

fun audit_error_to_string :: "AuditError \<Rightarrow> string" where
  "audit_error_to_string (WriteFailed m) = ''Audit log write failed: '' @ m"
| "audit_error_to_string (AlreadyLocked m) = m"
| "audit_error_to_string (ChainViolation a b) =
     ''Chain integrity violation at entry '' @ a @ '': '' @ b"
| "audit_error_to_string (SignatureInvalid m) = ''Signature invalid at entry '' @ m"
| "audit_error_to_string GenesisMismatch = ''Genesis entry hash mismatch; log may have been replaced''"
| "audit_error_to_string (LogNotAccessible m) = ''Log not accessible: '' @ m"
| "audit_error_to_string (SerializationError m) = ''Serialization error: '' @ m"
| "audit_error_to_string (ExportError m) = ''Export error: '' @ m"
| "audit_error_to_string (IoError m) = ''IO error: '' @ m"
| "audit_error_to_string (CryptoErr m) = ''Crypto error: '' @ m"

fun from_audit_error :: "AuditError \<Rightarrow> CordonError" where
  "from_audit_error (AlreadyLocked message) = AuditLogUnavailable message"
| "from_audit_error other = AuditWriteFailed (audit_error_to_string other)"

subsection \<open>Messages\<close>

text \<open>\<^verbatim>\<open>{:.3}\<close>: three decimals, a tie to the even digit.\<close>

definition show_fixed3 :: "rat \<Rightarrow> string" where
  "show_fixed3 x = (let y = \<bar>x\<bar> * 1000; f = \<lfloor>y\<rfloor>; r = y - of_int f;
     n = nat (if r > 1 / 2 \<or> r = 1 / 2 \<and> odd f then f + 1 else f); d = n mod 1000 in
     (if x < 0 then ''-'' else []) @ show_nat (n div 1000) @ ''.'' @ show_nat (d div 100) @ show_nat (d div 10 mod 10) @ show_nat (d mod 10))"

fun cordon_error_to_string :: "CordonError \<Rightarrow> string" where
  "cordon_error_to_string (AuthFailed m) = ''Authentication failed: '' @ m"
| "cordon_error_to_string (RateLimitExceeded c) = ''Rate limit exceeded for client '' @ c"
| "cordon_error_to_string (ValidationFailed m) = ''Request validation failed: '' @ m"
| "cordon_error_to_string (InferenceFailed m) = ''Inference error: '' @ m"
| "cordon_error_to_string (ModelNotFound b) = ''Model not found: '' @ b"
| "cordon_error_to_string (ModelIntegrityViolation b) = ''Model integrity violation for bundle '' @ b"
| "cordon_error_to_string (AttestationInvalid m) = ''Attestation invalid: '' @ m"
| "cordon_error_to_string Quarantined = ''Node is in quarantine mode; no inference permitted''"
| "cordon_error_to_string NodeLocked = ''Node is locked; operator recovery required''"
| "cordon_error_to_string NodeZeroized = ''Node has been zeroized; full re-provisioning required''"
| "cordon_error_to_string (ContentPolicyViolation r) = ''Content policy violation: rule '' @ r @ '' triggered''"
| "cordon_error_to_string (CovertChannelDetected score) = ''Covert channel detected: anomaly score '' @ show_fixed3 score"
| "cordon_error_to_string (OutputFilterError m) = ''Output filter error: '' @ m"
| "cordon_error_to_string (AuditWriteFailed m) =
     ''FATAL: Audit log write failed: '' @ m @ ''; request rejected per log-before-process policy''"
| "cordon_error_to_string (AuditLogUnavailable m) = m"
| "cordon_error_to_string (AdminRejected m) = ''Admin command rejected: '' @ m"
| "cordon_error_to_string (KeyError m) = ''Key error: '' @ m"
| "cordon_error_to_string (ConfigError m) = ''Configuration error: '' @ m"
| "cordon_error_to_string (Timeout s) = ''Request timed out after '' @ show_nat s @ ''s''"
| "cordon_error_to_string (Overloaded n) = ''Node is at capacity ('' @ show_nat n @ '' concurrent requests); retry shortly''"
| "cordon_error_to_string (RuntimeUnavailable m) = ''Model runtime unavailable: '' @ m"
| "cordon_error_to_string (ModelDownloadFailed m) = ''Model download failed: '' @ m"
| "cordon_error_to_string (RequestTooLarge m) = ''Request rejected: '' @ m"
| "cordon_error_to_string (ModeForbidden mode reason) = ''Not permitted in '' @ mode @ '' mode: '' @ reason"
| "cordon_error_to_string (Internal m) = ''Internal error: '' @ m"

end
