(* ===== verification/ModelStore.thy ===== *)
theory ModelStore
  imports Crypto Errors "HOL-Library.AList"
begin

text \<open>
  The encrypted model store of \<^verbatim>\<open>cordon-core/src/model_store.rs\<close>: manifests and their
  validation, the serving gate, integrity checks and the staging of plaintext.

  Files are maps from paths to contents; a shard that exists but cannot be read is
  \<open>Unreadable\<close>.  The staging directory is a map from names to directory entries, so that a
  planted symbolic link is visible.  The outcome of every system call of a staging run is
  in \<open>stage_io\<close>.  Serde is the pair of parameters \<open>to_json\<close> and \<open>of_json\<close>.  The table of
  per-bundle mutexes only serialises checks and is not state of the model.
\<close>

definition IO_BUFFER_BYTES :: nat where "IO_BUFFER_BYTES = 4 * 1024 * 1024"

record ShardDescriptor =
  shard_path :: string
  shard_plaintext_sha256 :: string
  shard_ciphertext_sha256 :: string
  iv_base64 :: string
  shard_size_bytes :: nat
  layer_index :: nat

record HardwareRequirements =
  min_gpu_vram_gb :: nat
  min_ram_gb :: nat
  ecc_memory_required :: bool

record TeeRequirements =
  sgx_isv_svn_min :: "nat option"
  sev_snp_api_min :: "string option"

record MinimumRequirements =
  req_cordon_version :: string
  req_tee :: TeeRequirements
  req_hardware :: HardwareRequirements

record BundleManifest =
  bundle_id :: string
  model_name :: string
  model_version :: string
  created_at :: datetime
  encryption_algorithm :: string
  key_derivation :: string
  client_key_id :: string
  shards :: "ShardDescriptor list"
  total_plaintext_sha256 :: string
  minimum_requirements :: MinimumRequirements
  policy_hash :: string
  vendor_signature :: string
  client_approval_signature :: string

subsection \<open>Validation\<close>

definition is_ascii_alphanumeric :: "char \<Rightarrow> bool" where
  "is_ascii_alphanumeric c = (let n = of_char c :: nat
     in (48 \<le> n \<and> n \<le> 57) \<or> (65 \<le> n \<and> n \<le> 90) \<or> (97 \<le> n \<and> n \<le> 122))"

definition is_ascii_hexdigit :: "char \<Rightarrow> bool" where
  "is_ascii_hexdigit c = (let n = of_char c :: nat
     in (48 \<le> n \<and> n \<le> 57) \<or> (65 \<le> n \<and> n \<le> 70) \<or> (97 \<le> n \<and> n \<le> 102))"

definition is_safe_bundle_id :: "string \<Rightarrow> bool" where
  "is_safe_bundle_id bid \<longleftrightarrow> bid \<noteq> [] \<and> length bid \<le> 128 \<and> bid \<noteq> ''.'' \<and> bid \<noteq> ''..''
     \<and> list_all (\<lambda>c. is_ascii_alphanumeric c \<or> c \<in> {CHR ''-'', CHR ''_'', CHR ''.''}) bid"

definition REQUIRED_ENCRYPTION_ALGORITHM :: string where
  "REQUIRED_ENCRYPTION_ALGORITHM = ''AES-256-GCM''"

definition REQUIRED_KEY_DERIVATION :: string where
  "REQUIRED_KEY_DERIVATION = ''HKDF-SHA256''"

definition eq_ignore_ascii_case :: "string \<Rightarrow> string \<Rightarrow> bool" where
  "eq_ignore_ascii_case a b \<longleftrightarrow> to_lower a = to_lower b"

definition quoted :: "string \<Rightarrow> string" where
  "quoted s = [CHR 0x27] @ s @ [CHR 0x27]"

definition validate_digest :: "string \<Rightarrow> string \<Rightarrow> unit CordonResult" where
  "validate_digest value what =
     (if length value \<noteq> 64 \<or> \<not> list_all is_ascii_hexdigit value
      then Inl (ValidationFailed (what @ '' is not a SHA-256 hex digest'')) else Inr ())"

text \<open>\<^verbatim>\<open>Path::components\<close> on Unix: empty parts and inner single dots vanish.\<close>

datatype path_component = RootDir | CurDir | ParentDir | NormalPart string

fun split_slash :: "string \<Rightarrow> string \<Rightarrow> string list" where
  "split_slash acc [] = [rev acc]"
| "split_slash acc (c # cs) =
     (if c = CHR ''/'' then rev acc # split_slash [] cs else split_slash (c # acc) cs)"

definition is_absolute :: "string \<Rightarrow> bool" where
  "is_absolute p \<longleftrightarrow> p \<noteq> [] \<and> hd p = CHR ''/''"

definition component_of :: "string \<Rightarrow> path_component list" where
  "component_of part = (if part = [] \<or> part = ''.'' then [] else if part = ''..'' then [ParentDir] else [NormalPart part])"

definition path_components :: "string \<Rightarrow> path_component list" where
  "path_components p =
     (if is_absolute p then RootDir # concat (map component_of (split_slash [] p))
      else (case split_slash [] p of
              first # rest \<Rightarrow> (if first = ''.'' then [CurDir] else component_of first) @ concat (map component_of rest)
            | [] \<Rightarrow> []))"

definition is_normal :: "path_component \<Rightarrow> bool" where
  "is_normal c = (case c of NormalPart _ \<Rightarrow> True | _ \<Rightarrow> False)"

definition validate_relative_path :: "string \<Rightarrow> string \<Rightarrow> unit CordonResult" where
  "validate_relative_path path bid =
     (if is_absolute path
      then Inl (ValidationFailed (''bundle '' @ quoted bid @ '' names an absolute shard path '' @ quoted path))
      else if \<not> list_all is_normal (path_components path)
      then Inl (ValidationFailed (''bundle '' @ quoted bid @ '' shard path '' @ quoted path @ '' escapes the bundle directory''))
      else Inr ())"

definition decode_iv :: "crypto_env \<Rightarrow> string \<Rightarrow> string + string" where
  "decode_iv C s = (case b64_decode C s of
     Inl e \<Rightarrow> Inl (''invalid base64 nonce: '' @ e)
   | Inr b \<Rightarrow> if length b \<noteq> 12 then Inl (''nonce must be 12 bytes, got '' @ show_nat (length b)) else Inr b)"

definition validate_shard :: "crypto_env \<Rightarrow> string \<Rightarrow> nat \<Rightarrow> ShardDescriptor \<Rightarrow> unit CordonResult" where
  "validate_shard C bid idx sh =
     (case validate_relative_path (shard_path sh) bid of Inl e \<Rightarrow> Inl e | Inr _ \<Rightarrow>
     (case validate_digest (shard_plaintext_sha256 sh) (''shard '' @ show_nat idx @ '' plaintext'') of Inl e \<Rightarrow> Inl e | Inr _ \<Rightarrow>
     (case validate_digest (shard_ciphertext_sha256 sh) (''shard '' @ show_nat idx @ '' ciphertext'') of Inl e \<Rightarrow> Inl e | Inr _ \<Rightarrow>
      if eq_ignore_ascii_case (shard_plaintext_sha256 sh) (shard_ciphertext_sha256 sh)
      then Inl (ValidationFailed (''bundle '' @ quoted bid @ '' shard '' @ show_nat idx
             @ '' has identical plaintext and ciphertext digests; the shard is not encrypted''))
      else (case decode_iv C (iv_base64 sh) of
        Inl e \<Rightarrow> Inl (ValidationFailed (''bundle '' @ quoted bid @ '' shard '' @ show_nat idx @ '': '' @ e))
      | Inr iv \<Rightarrow>
          if list_all (\<lambda>b. b = CHR 0x00) iv
          then Inl (ValidationFailed (''bundle '' @ quoted bid @ '' shard '' @ show_nat idx
                 @ '' uses an all-zero nonce. Nonce reuse under AES-GCM is catastrophic; re-encrypt the bundle.''))
          else Inr ()))))"

fun validate_shards :: "crypto_env \<Rightarrow> string \<Rightarrow> nat \<Rightarrow> ShardDescriptor list \<Rightarrow> unit CordonResult" where
  "validate_shards C bid idx [] = Inr ()"
| "validate_shards C bid idx (sh # shs) =
     (case validate_shard C bid idx sh of Inl e \<Rightarrow> Inl e | Inr _ \<Rightarrow> validate_shards C bid (Suc idx) shs)"

fun validate_nonces :: "string \<Rightarrow> nat \<Rightarrow> string list \<Rightarrow> ShardDescriptor list \<Rightarrow> unit CordonResult" where
  "validate_nonces bid idx seen [] = Inr ()"
| "validate_nonces bid idx seen (sh # shs) =
     (if iv_base64 sh \<in> set seen
      then Inl (ValidationFailed (''bundle '' @ quoted bid @ '' reuses a nonce at shard '' @ show_nat idx))
      else validate_nonces bid (Suc idx) (iv_base64 sh # seen) shs)"

definition validate_structure :: "crypto_env \<Rightarrow> BundleManifest \<Rightarrow> unit CordonResult" where
  "validate_structure C m =
     (let bid = bundle_id m in
      if trim bid = [] then Inl (ValidationFailed ''bundle_id must not be empty'')
      else if \<not> is_safe_bundle_id bid
      then Inl (ValidationFailed (''bundle_id '' @ quoted bid @ '' may contain only letters, digits, ''
             @ quoted ''.'' @ '', '' @ quoted ''-'' @ '' and '' @ quoted ''_''))
      else if \<not> eq_ignore_ascii_case (encryption_algorithm m) REQUIRED_ENCRYPTION_ALGORITHM
      then Inl (ValidationFailed (''bundle '' @ quoted bid @ '' declares encryption_algorithm ''
             @ quoted (encryption_algorithm m) @ ''; Cordon serves only '' @ REQUIRED_ENCRYPTION_ALGORITHM
             @ '' bundles. Re-encrypt it with `cordon-provision encrypt`.''))
      else if \<not> eq_ignore_ascii_case (key_derivation m) REQUIRED_KEY_DERIVATION
      then Inl (ValidationFailed (''bundle '' @ quoted bid @ '' declares key_derivation ''
             @ quoted (key_derivation m) @ ''; expected '' @ REQUIRED_KEY_DERIVATION))
      else if shards m = [] then Inl (ValidationFailed (''bundle '' @ quoted bid @ '' declares no shards''))
      else (case validate_shards C bid 0 (shards m) of Inl e \<Rightarrow> Inl e | Inr _ \<Rightarrow>
           (case validate_nonces bid 0 [] (shards m) of Inl e \<Rightarrow> Inl e | Inr _ \<Rightarrow>
            validate_digest (total_plaintext_sha256 m) ''total_plaintext_sha256'')))"

subsection \<open>Signatures on a manifest\<close>

type_synonym manifest_json = "BundleManifest \<Rightarrow> string + string"

definition signable_bytes :: "manifest_json \<Rightarrow> BundleManifest \<Rightarrow> string CordonResult" where
  "signable_bytes to_json m =
     (case to_json (m\<lparr>vendor_signature := [], client_approval_signature := []\<rparr>) of
        Inl e \<Rightarrow> Inl (Internal e) | Inr b \<Rightarrow> Inr b)"

definition verify_manifest_signature ::
  "crypto_env \<Rightarrow> manifest_json \<Rightarrow> string \<Rightarrow> string \<Rightarrow> string \<Rightarrow> BundleManifest \<Rightarrow> string \<Rightarrow> unit CordonResult" where
  "verify_manifest_signature C to_json malformed invalid vk m sig_hex =
     (case signable_bytes to_json m of Inl e \<Rightarrow> Inl e
      | Inr b \<Rightarrow> (case sig_from_hex C sig_hex of
          Inl _ \<Rightarrow> Inl (ValidationFailed malformed)
        | Inr sg \<Rightarrow> (case vk_verify C vk b sg of Inl _ \<Rightarrow> Inl (ValidationFailed invalid) | Inr _ \<Rightarrow> Inr ())))"

definition verify_vendor_signature :: "crypto_env \<Rightarrow> manifest_json \<Rightarrow> BundleManifest \<Rightarrow> string \<Rightarrow> unit CordonResult" where
  "verify_vendor_signature C to_json m vk = verify_manifest_signature C to_json
     ''malformed vendor signature'' ''vendor signature invalid on bundle manifest'' vk m (vendor_signature m)"

definition verify_client_signature :: "crypto_env \<Rightarrow> manifest_json \<Rightarrow> BundleManifest \<Rightarrow> string \<Rightarrow> unit CordonResult" where
  "verify_client_signature C to_json m vk = verify_manifest_signature C to_json
     ''malformed client approval signature'' ''client approval signature invalid on bundle manifest'' vk m
     (client_approval_signature m)"

definition manifest_hash :: "crypto_env \<Rightarrow> manifest_json \<Rightarrow> BundleManifest \<Rightarrow> string CordonResult" where
  "manifest_hash C to_json m = (case to_json m of Inl e \<Rightarrow> Inl (Internal e) | Inr b \<Rightarrow> Inr (digest_hex C b))"

subsection \<open>The store\<close>

datatype BundleStatus = Encrypted | Ready | Tampered | Staging

record IntegrityVerdict =
  checked_at :: datetime
  passed :: bool

record BundleEntry =
  manifest :: BundleManifest
  bundle_dir :: string
  bundle_status :: BundleStatus
  verdict :: "IntegrityVerdict option"

record BundleSummary =
  sum_bundle_id :: string
  sum_model_name :: string
  sum_model_version :: string
  sum_status :: BundleStatus
  sum_size_bytes :: nat
  sum_last_integrity_check :: "datetime option"
  sum_integrity_ok :: bool

record ModelStore =
  store_dir :: string
  bundles :: "(string \<times> BundleEntry) list"
  vendor_vk :: "string option"
  verdict_ttl :: int

definition fresh_entry :: "BundleManifest \<Rightarrow> string \<Rightarrow> BundleEntry" where
  "fresh_entry m dir = \<lparr>manifest = m, bundle_dir = dir, bundle_status = Encrypted, verdict = None\<rparr>"

text \<open>One directory of the store: its path and its manifest file, when it has one.\<close>

type_synonym store_listing = "(string \<times> (string + string)) list"

definition load_manifest_from_dir :: "(string \<Rightarrow> string + BundleManifest) \<Rightarrow> string + string \<Rightarrow> BundleManifest CordonResult" where
  "load_manifest_from_dir of_json content = (case content of
     Inl e \<Rightarrow> Inl (Internal (''cannot read manifest: '' @ e))
   | Inr s \<Rightarrow> (case of_json s of Inl e \<Rightarrow> Inl (Internal (''invalid manifest JSON: '' @ e)) | Inr m \<Rightarrow> Inr m))"

fun scan_existing_bundles ::
  "crypto_env \<Rightarrow> (string \<Rightarrow> string + BundleManifest) \<Rightarrow> store_listing \<Rightarrow> ModelStore \<Rightarrow> ModelStore" where
  "scan_existing_bundles C of_json [] st = st"
| "scan_existing_bundles C of_json ((path, content) # ds) st =
     scan_existing_bundles C of_json ds
       (case load_manifest_from_dir of_json content of
          Inl _ \<Rightarrow> st
        | Inr m \<Rightarrow> (case validate_structure C m of
            Inl _ \<Rightarrow> st
          | Inr _ \<Rightarrow> st\<lparr>bundles := AList.update (bundle_id m) (fresh_entry m path) (bundles st)\<rparr>))"

definition with_verdict_ttl ::
  "crypto_env \<Rightarrow> (string \<Rightarrow> string + BundleManifest) \<Rightarrow> string option \<Rightarrow> string + store_listing
   \<Rightarrow> string \<Rightarrow> string option \<Rightarrow> int \<Rightarrow> ModelStore CordonResult" where
  "with_verdict_ttl C of_json mkdir_err listing dir vk ttl_minutes = (case mkdir_err of
     Some e \<Rightarrow> Inl (Internal (''cannot create model store: '' @ e))
   | None \<Rightarrow> (case listing of
       Inl e \<Rightarrow> Inl (Internal e)
     | Inr ds \<Rightarrow> Inr (scan_existing_bundles C of_json ds
         \<lparr>store_dir = dir, bundles = [], vendor_vk = vk, verdict_ttl = secs (60 * max ttl_minutes 1)\<rparr>)))"

definition store_new ::
  "crypto_env \<Rightarrow> (string \<Rightarrow> string + BundleManifest) \<Rightarrow> string option \<Rightarrow> string + store_listing
   \<Rightarrow> string \<Rightarrow> string option \<Rightarrow> ModelStore CordonResult" where
  "store_new C of_json mkdir_err listing dir vk = with_verdict_ttl C of_json mkdir_err listing dir vk 15"

definition register_bundle ::
  "crypto_env \<Rightarrow> manifest_json \<Rightarrow> ModelStore \<Rightarrow> BundleManifest \<Rightarrow> string \<Rightarrow> string option
   \<Rightarrow> unit CordonResult \<times> ModelStore" where
  "register_bundle C to_json st m dir client_vk =
     (case validate_structure C m of Inl e \<Rightarrow> (Inl e, st) | Inr _ \<Rightarrow>
     (case (case vendor_vk st of None \<Rightarrow> Inr () | Some vk \<Rightarrow> verify_vendor_signature C to_json m vk) of
        Inl e \<Rightarrow> (Inl e, st) | Inr _ \<Rightarrow>
     (case (case client_vk of None \<Rightarrow> Inr () | Some vk \<Rightarrow> verify_client_signature C to_json m vk) of
        Inl e \<Rightarrow> (Inl e, st) | Inr _ \<Rightarrow>
        (Inr (), st\<lparr>bundles := AList.update (bundle_id m) (fresh_entry m dir) (bundles st)\<rparr>))))"

definition get_manifest :: "ModelStore \<Rightarrow> string \<Rightarrow> BundleManifest CordonResult" where
  "get_manifest st bid = (case map_of (bundles st) bid of None \<Rightarrow> Inl (ModelNotFound bid) | Some e \<Rightarrow> Inr (manifest e))"

definition is_registered :: "ModelStore \<Rightarrow> string \<Rightarrow> bool" where
  "is_registered st bid \<longleftrightarrow> map_of (bundles st) bid \<noteq> None"

definition bundle_ids :: "ModelStore \<Rightarrow> string list" where
  "bundle_ids st = map fst (bundles st)"

definition summary_of :: "BundleEntry \<Rightarrow> BundleSummary" where
  "summary_of e = \<lparr>sum_bundle_id = bundle_id (manifest e), sum_model_name = model_name (manifest e),
     sum_model_version = model_version (manifest e), sum_status = bundle_status e,
     sum_size_bytes = sum_list (map shard_size_bytes (shards (manifest e))),
     sum_last_integrity_check = map_option checked_at (verdict e),
     sum_integrity_ok = (case verdict e of None \<Rightarrow> False | Some v \<Rightarrow> passed v)\<rparr>"

definition codes :: "string \<Rightarrow> nat list" where
  "codes s = map of_char s"

fun insert_summary :: "BundleSummary \<Rightarrow> BundleSummary list \<Rightarrow> BundleSummary list" where
  "insert_summary x [] = [x]"
| "insert_summary x (y # ys) = (if lexordp_eq (codes (sum_bundle_id x)) (codes (sum_bundle_id y)) then x # y # ys
     else y # insert_summary x ys)"

definition list_bundles :: "ModelStore \<Rightarrow> BundleSummary list" where
  "list_bundles st = foldr insert_summary (map (summary_of \<circ> snd) (bundles st)) []"

definition ensure_servable :: "ModelStore \<Rightarrow> datetime \<Rightarrow> string \<Rightarrow> bool \<Rightarrow> unit CordonResult" where
  "ensure_servable st now bid allow_unregistered = (case map_of (bundles st) bid of
     None \<Rightarrow> if bundles st = [] \<or> allow_unregistered then Inr () else Inl (ModelNotFound bid)
   | Some e \<Rightarrow>
       if bundle_status e = Tampered then Inl (ModelIntegrityViolation bid)
       else (case verdict e of
           None \<Rightarrow> Inl (ModelIntegrityViolation (bid @ '' (integrity verdict is stale or absent; the integrity monitor has not confirmed this bundle recently)''))
         | Some v \<Rightarrow>
             if passed v \<and> now - checked_at v < verdict_ttl st then Inr ()
             else if \<not> passed v then Inl (ModelIntegrityViolation bid)
             else Inl (ModelIntegrityViolation (bid @ '' (integrity verdict is stale or absent; the integrity monitor has not confirmed this bundle recently)''))))"

subsection \<open>Integrity checks\<close>

datatype shard_file = Readable string | Unreadable string

type_synonym shard_disk = "string \<rightharpoonup> shard_file"

definition join_path :: "string \<Rightarrow> string \<Rightarrow> string" where
  "join_path dir p = (if is_absolute p then p else dir @ ''/'' @ p)"

definition hash_file_streaming :: "crypto_env \<Rightarrow> string \<Rightarrow> shard_file \<Rightarrow> string CordonResult" where
  "hash_file_streaming C path f = (case f of
     Readable s \<Rightarrow> Inr (digest_hex C s) | Unreadable e \<Rightarrow> Inl (Internal (''cannot open '' @ path @ '': '' @ e)))"

fun check_shard_files :: "crypto_env \<Rightarrow> shard_disk \<Rightarrow> string \<Rightarrow> ShardDescriptor list \<Rightarrow> bool CordonResult" where
  "check_shard_files C d dir [] = Inr True"
| "check_shard_files C d dir (sh # shs) =
     (let path = join_path dir (shard_path sh) in
      case d path of
        None \<Rightarrow> Inr False
      | Some f \<Rightarrow> (case hash_file_streaming C path f of
          Inl e \<Rightarrow> Inl e
        | Inr h \<Rightarrow> if ct_eq (bytes_of h) (bytes_of (shard_ciphertext_sha256 sh)) then check_shard_files C d dir shs
                  else Inr False))"

definition check_shards :: "crypto_env \<Rightarrow> manifest_json \<Rightarrow> ModelStore \<Rightarrow> shard_disk \<Rightarrow> BundleManifest \<Rightarrow> string \<Rightarrow> bool CordonResult" where
  "check_shards C to_json st d m dir = (case check_shard_files C d dir (shards m) of
     Inl e \<Rightarrow> Inl e
   | Inr False \<Rightarrow> Inr False
   | Inr True \<Rightarrow> (case vendor_vk st of
       None \<Rightarrow> Inr True
     | Some vk \<Rightarrow> Inr (\<not> isl (verify_vendor_signature C to_json m vk))))"

definition update_entry :: "string \<Rightarrow> (BundleEntry \<Rightarrow> BundleEntry) \<Rightarrow> ModelStore \<Rightarrow> ModelStore" where
  "update_entry bid f st = (case map_of (bundles st) bid of
     None \<Rightarrow> st | Some e \<Rightarrow> st\<lparr>bundles := AList.update bid (f e) (bundles st)\<rparr>)"

definition record_verdict :: "ModelStore \<Rightarrow> datetime \<Rightarrow> string \<Rightarrow> bool \<Rightarrow> ModelStore" where
  "record_verdict st now bid ok = update_entry bid (\<lambda>e.
     let e1 = e\<lparr>verdict := Some \<lparr>checked_at = now, passed = ok\<rparr>\<rparr>
     in if \<not> ok then e1\<lparr>bundle_status := Tampered\<rparr> else e1) st"

text \<open>\<open>now\<close> is the clock when the verdict is recorded, after the shards were hashed.\<close>

definition run_integrity_check ::
  "crypto_env \<Rightarrow> manifest_json \<Rightarrow> shard_disk \<Rightarrow> ModelStore \<Rightarrow> datetime \<Rightarrow> string \<Rightarrow> bool CordonResult \<times> ModelStore" where
  "run_integrity_check C to_json d st now bid = (case map_of (bundles st) bid of
     None \<Rightarrow> (Inl (ModelNotFound bid), st)
   | Some e \<Rightarrow> (case check_shards C to_json st d (manifest e) (bundle_dir e) of
       Inl err \<Rightarrow> (Inl err, st)
     | Inr ok \<Rightarrow> (Inr ok, record_verdict st now bid ok)))"

definition remove_bundle :: "ModelStore \<Rightarrow> string \<Rightarrow> unit CordonResult \<times> ModelStore" where
  "remove_bundle st bid = (case map_of (bundles st) bid of
     None \<Rightarrow> (Inl (ModelNotFound bid), st)
   | Some _ \<Rightarrow> (Inr (), st\<lparr>bundles := AList.delete bid (bundles st)\<rparr>))"

subsection \<open>Decrypting and staging\<close>

definition read_shard :: "string \<Rightarrow> shard_file option \<Rightarrow> string CordonResult" where
  "read_shard prefix f = (case f of
     None \<Rightarrow> Inl (Internal (prefix @ '': No such file or directory (os error 2)''))
   | Some (Unreadable e) \<Rightarrow> Inl (Internal (prefix @ '': '' @ e))
   | Some (Readable s) \<Rightarrow> Inr s)"

text \<open>The steps shared by \<^verbatim>\<open>decrypt_shard\<close> and the staging loop, from ciphertext to verified plaintext.\<close>

definition open_shard :: "crypto_env \<Rightarrow> string \<Rightarrow> string \<Rightarrow> nat \<Rightarrow> ShardDescriptor \<Rightarrow> string \<Rightarrow> string CordonResult" where
  "open_shard C bid bk index sh ct =
     (if \<not> ct_eq (bytes_of (digest_hex C ct)) (bytes_of (shard_ciphertext_sha256 sh))
      then Inl (ModelIntegrityViolation bid)
      else (case derive_shard_key C bk (wrap_u32 index) of
        Inl e \<Rightarrow> Inl (KeyError (crypto_error_to_string e))
      | Inr key \<Rightarrow> (case decode_iv C (iv_base64 sh) of
        Inl e \<Rightarrow> Inl (ValidationFailed e)
      | Inr iv \<Rightarrow> (case decrypt_shard C key ct iv of
        Inl _ \<Rightarrow> Inl (ModelIntegrityViolation bid)
      | Inr pt \<Rightarrow>
          if \<not> ct_eq (bytes_of (digest_hex C pt)) (bytes_of (shard_plaintext_sha256 sh))
          then Inl (ModelIntegrityViolation bid) else Inr pt))))"

definition store_decrypt_shard ::
  "crypto_env \<Rightarrow> shard_disk \<Rightarrow> ModelStore \<Rightarrow> string \<Rightarrow> nat \<Rightarrow> string \<Rightarrow> string CordonResult" where
  "store_decrypt_shard C d st bid index bk = (case map_of (bundles st) bid of
     None \<Rightarrow> Inl (ModelNotFound bid)
   | Some e \<Rightarrow>
       if index \<ge> length (shards (manifest e))
       then Inl (Internal (''shard index '' @ show_nat index @ '' out of range''))
       else let sh = shards (manifest e) ! index in
         (case read_shard ''cannot read shard'' (d (join_path (bundle_dir e) (shard_path sh))) of
            Inl err \<Rightarrow> Inl err
          | Inr ct \<Rightarrow> open_shard C bid bk index sh ct))"

datatype dir_entry = RegularFile string | Symlink string | Subdirectory

type_synonym staging_dir = "string \<rightharpoonup> dir_entry"

text \<open>
  \<open>planted\<close> is what another process put at the path between the unlink and the exclusive
  create; a failed write of a shard says how many of its bytes reached the file.
\<close>

record stage_io =
  mkdir_error :: "string option"
  unlink_error :: "string option"
  planted :: "dir_entry option"
  create_error :: "string option"
  write_error :: "nat \<Rightarrow> (string \<times> nat) option"
  flush_error :: "string option"

definition create_private_file :: "stage_io \<Rightarrow> string \<Rightarrow> staging_dir \<Rightarrow> unit CordonResult \<times> staging_dir" where
  "create_private_file io name sd =
     (let cleared = (case sd name of
            None \<Rightarrow> Inr sd
          | Some Subdirectory \<Rightarrow> Inl (Internal (''cannot clear the staging path '' @ name @ '': Is a directory (os error 21)''))
          | Some _ \<Rightarrow> (case unlink_error io of
              Some e \<Rightarrow> Inl (Internal (''cannot clear the staging path '' @ name @ '': '' @ e))
            | None \<Rightarrow> Inr (sd(name := None))))
      in case cleared of
           Inl e \<Rightarrow> (Inl e, sd)
         | Inr sd1 \<Rightarrow> (case planted io of
             Some x \<Rightarrow> (Inl (Internal (''cannot create the staging file '' @ name @ '': File exists (os error 17)'')), sd1(name \<mapsto> x))
           | None \<Rightarrow> (case create_error io of
               Some e \<Rightarrow> (Inl (Internal (''cannot create the staging file '' @ name @ '': '' @ e)), sd1)
             | None \<Rightarrow> (Inr (), sd1(name \<mapsto> RegularFile [])))))"

text \<open>The loop of \<^verbatim>\<open>stage_plaintext\<close>; the second component is what the file holds.\<close>

fun stage_shards ::
  "crypto_env \<Rightarrow> stage_io \<Rightarrow> shard_disk \<Rightarrow> string \<Rightarrow> string \<Rightarrow> string \<Rightarrow> (nat \<times> ShardDescriptor) list \<Rightarrow> string
   \<Rightarrow> unit CordonResult \<times> string" where
  "stage_shards C io d bid dir bk [] acc = (Inr (), acc)"
| "stage_shards C io d bid dir bk ((index, sh) # shs) acc =
     (case read_shard (''cannot read shard '' @ shard_path sh) (d (join_path dir (shard_path sh))) of
        Inl e \<Rightarrow> (Inl e, acc)
      | Inr ct \<Rightarrow> (case open_shard C bid bk index sh ct of
          Inl e \<Rightarrow> (Inl e, acc)
        | Inr pt \<Rightarrow> (case write_error io index of
            Some (e, n) \<Rightarrow> (Inl (Internal (''cannot write staged weights: '' @ e)), acc @ take n pt)
          | None \<Rightarrow> stage_shards C io d bid dir bk shs (acc @ pt))))"

record StagedModel =
  staged_path :: string
  staged_size :: nat

definition staging_order :: "BundleManifest \<Rightarrow> (nat \<times> ShardDescriptor) list" where
  "staging_order m = sort_key (\<lambda>(i, sh). layer_index sh) (enumerate 0 (shards m))"

definition stage_plaintext ::
  "crypto_env \<Rightarrow> stage_io \<Rightarrow> shard_disk \<Rightarrow> ModelStore \<Rightarrow> datetime \<Rightarrow> string \<Rightarrow> string \<Rightarrow> staging_dir
   \<Rightarrow> StagedModel CordonResult \<times> ModelStore \<times> staging_dir" where
  "stage_plaintext C io d st now bid bk sd = (case map_of (bundles st) bid of
     None \<Rightarrow> (Inl (ModelNotFound bid), st, sd)
   | Some e \<Rightarrow>
       let st1 = update_entry bid (\<lambda>e. e\<lparr>bundle_status := Staging\<rparr>) st; name = bid @ ''.staged'' in
       (case mkdir_error io of
          Some err \<Rightarrow> (Inl (Internal (''cannot create staging directory: '' @ err)), st1, sd)
        | None \<Rightarrow> (case create_private_file io name sd of
            (Inl err, sd1) \<Rightarrow> (Inl err, st1, sd1)
          | (Inr _, sd1) \<Rightarrow> (case stage_shards C io d bid (bundle_dir e) bk (staging_order (manifest e)) [] of
              (Inl err, content) \<Rightarrow> (Inl err, st1, sd1(name \<mapsto> RegularFile content))
            | (Inr _, content) \<Rightarrow>
                let sd2 = sd1(name \<mapsto> RegularFile content) in
                (case flush_error io of
                   Some err \<Rightarrow> (Inl (Internal (''cannot flush staged weights: '' @ err)), st1, sd2)
                 | None \<Rightarrow>
                     if \<not> ct_eq (bytes_of (digest_hex C content)) (bytes_of (total_plaintext_sha256 (manifest e)))
                     then (Inl (ModelIntegrityViolation bid), st1, sd2(name := None))
                     else (Inr \<lparr>staged_path = name, staged_size = length content\<rparr>,
                           update_entry bid (\<lambda>e. e\<lparr>bundle_status := Ready\<rparr>) (record_verdict st1 now bid True),
                           sd2))))))"

definition erase :: "StagedModel \<Rightarrow> staging_dir \<Rightarrow> staging_dir" where
  "erase s sd = (case sd (staged_path s) of
     None \<Rightarrow> sd | Some Subdirectory \<Rightarrow> sd | Some _ \<Rightarrow> sd(staged_path s := None))"

subsection \<open>Runs of the store\<close>

datatype store_event =
  CheckBundle shard_disk datetime string
| RegisterBundle BundleManifest string "string option"
| RemoveBundle string
| StageBundle stage_io shard_disk datetime string string staging_dir

fun store_step :: "crypto_env \<Rightarrow> manifest_json \<Rightarrow> ModelStore \<Rightarrow> store_event \<Rightarrow> ModelStore" where
  "store_step C J st (CheckBundle d now bid) = snd (run_integrity_check C J d st now bid)"
| "store_step C J st (RegisterBundle m dir vk) = snd (register_bundle C J st m dir vk)"
| "store_step C J st (RemoveBundle bid) = snd (remove_bundle st bid)"
| "store_step C J st (StageBundle io d now bid bk sd) = fst (snd (stage_plaintext C io d st now bid bk sd))"

text \<open>Events that do not replace, remove or stage the bundle.\<close>

fun leaves_bundle :: "string \<Rightarrow> store_event \<Rightarrow> bool" where
  "leaves_bundle bid (CheckBundle _ _ _) = True"
| "leaves_bundle bid (RegisterBundle m _ _) = (bundle_id m \<noteq> bid)"
| "leaves_bundle bid (RemoveBundle b) = (b \<noteq> bid)"
| "leaves_bundle bid (StageBundle _ _ _ b _ _) = (b \<noteq> bid)"

definition is_tampered :: "string \<Rightarrow> ModelStore \<Rightarrow> bool" where
  "is_tampered bid st \<longleftrightarrow> map_option bundle_status (map_of (bundles st) bid) = Some Tampered"

lemma map_of_update_entry:
  "map_of (bundles (update_entry b f st)) bid =
     (if b = bid then map_option f (map_of (bundles st) bid) else map_of (bundles st) bid)"
  by (auto simp: update_entry_def update_conv' split: option.splits)

lemma update_entry_frame [simp]:
  "verdict_ttl (update_entry b f st) = verdict_ttl st" "vendor_vk (update_entry b f st) = vendor_vk st"
  by (simp_all add: update_entry_def split: option.split)

lemma is_tampered_update:
  assumes "is_tampered bid st" "\<And>e. b = bid \<Longrightarrow> bundle_status e = Tampered \<Longrightarrow> bundle_status (f e) = Tampered"
  shows "is_tampered bid (update_entry b f st)"
  using assms by (auto simp: is_tampered_def map_of_update_entry split: option.splits)

lemma is_tampered_verdict: "is_tampered bid st \<Longrightarrow> is_tampered bid (record_verdict st now b ok)"
  unfolding record_verdict_def by (rule is_tampered_update) (simp_all add: Let_def)

lemma is_tampered_stage:
  "is_tampered bid st \<Longrightarrow> b \<noteq> bid \<Longrightarrow> is_tampered bid (fst (snd (stage_plaintext C io d st now b bk sd)))"
  by (auto simp: stage_plaintext_def Let_def intro!: is_tampered_update is_tampered_verdict
      split: option.split prod.split sum.split)

lemma store_step_tampered:
  "is_tampered bid st \<Longrightarrow> leaves_bundle bid e \<Longrightarrow> is_tampered bid (store_step C J st e)"
proof (cases e)
  case (CheckBundle d now b)
  then show "is_tampered bid st \<Longrightarrow> ?thesis"
    by (simp add: run_integrity_check_def is_tampered_verdict split: option.split sum.split)
next
  case (StageBundle io d now b bk sd)
  then show "is_tampered bid st \<Longrightarrow> leaves_bundle bid e \<Longrightarrow> ?thesis"
    by (simp add: is_tampered_stage)
qed (auto simp: is_tampered_def register_bundle_def remove_bundle_def update_conv' delete_conv'
      split: option.split sum.split)

interpretation tamper_sys: invariant_system "store_step C J" "\<lambda>_. leaves_bundle bid" "is_tampered bid" for C J bid
  by unfold_locales (rule store_step_tampered)

lemma tampered_refused: "is_tampered bid st \<Longrightarrow> ensure_servable st now bid allow = Inl (ModelIntegrityViolation bid)"
  by (auto simp: is_tampered_def ensure_servable_def)

lemma failed_check_tampers:
  "run_integrity_check C J d st now bid = (Inr False, st') \<Longrightarrow> is_tampered bid st'"
  by (auto simp: run_integrity_check_def record_verdict_def is_tampered_def map_of_update_entry
      split: option.splits sum.splits)

subsection \<open>Staging\<close>

text \<open>What the staging loop writes, as a function of the shards alone.\<close>

fun plaintexts ::
  "crypto_env \<Rightarrow> shard_disk \<Rightarrow> string \<Rightarrow> string \<Rightarrow> string \<Rightarrow> (nat \<times> ShardDescriptor) list \<Rightarrow> string list CordonResult" where
  "plaintexts C d bid dir bk shs = try_each (\<lambda>(index, sh).
     case read_shard (''cannot read shard '' @ shard_path sh) (d (join_path dir (shard_path sh))) of
       Inl e \<Rightarrow> Inl e | Inr ct \<Rightarrow> open_shard C bid bk index sh ct) shs"

lemma stage_shards_ok:
  "stage_shards C io d bid dir bk shs acc = (Inr (), content) \<Longrightarrow>
   \<exists>ps. plaintexts C d bid dir bk shs = Inr ps \<and> content = acc @ concat ps"
proof (induction shs arbitrary: acc)
  case (Cons ish shs)
  obtain i sh where "ish = (i, sh)" by (cases ish)
  then show ?case
    using Cons.prems Cons.IH by (force split: sum.splits option.splits prod.splits)
qed simp

lemma open_shard_digest: "open_shard C bid bk i sh ct = Inr p \<Longrightarrow>
   digest_hex C ct = shard_ciphertext_sha256 sh \<and> digest_hex C p = shard_plaintext_sha256 sh"
  by (auto simp: open_shard_def split: if_splits sum.splits)

lemma create_private_file_frame: "n \<noteq> name \<Longrightarrow> snd (create_private_file io name sd) n = sd n"
  by (auto simp: create_private_file_def Let_def split: option.split dir_entry.split sum.split)

lemma stage_confined:
  "n \<noteq> bid @ ''.staged'' \<Longrightarrow> snd (snd (stage_plaintext C io d st now bid bk sd)) n = sd n"
  using create_private_file_frame[of n "bid @ ''.staged''" io sd]
  by (auto simp: stage_plaintext_def Let_def split: option.split prod.split sum.split)

lemma stage_shards_append:
  assumes "plaintexts C d bid dir bk xs = Inr ps" "\<And>i. write_error io i = None"
  shows "stage_shards C io d bid dir bk (xs @ ys) acc = stage_shards C io d bid dir bk ys (acc @ concat ps)"
  using assms(1)
proof (induction xs arbitrary: acc ps)
  case (Cons ish xs)
  obtain i sh where i: "ish = (i, sh)" by (cases ish)
  obtain ct p ps' where "read_shard (''cannot read shard '' @ shard_path sh) (d (join_path dir (shard_path sh))) = Inr ct"
    "open_shard C bid bk i sh ct = Inr p" "plaintexts C d bid dir bk xs = Inr ps'" "ps = p # ps'"
    using Cons.prems i by (auto split: sum.splits)
  then show ?case
    using Cons.IH[of ps' "acc @ p"] assms(2) i by simp
qed simp

text \<open>A staging run whose system calls all succeed and whose path is free.\<close>

definition calm_io :: "stage_io \<Rightarrow> bool" where
  "calm_io io \<longleftrightarrow> mkdir_error io = None \<and> unlink_error io = None \<and> planted io = None \<and> create_error io = None
     \<and> (\<forall>i. write_error io i = None) \<and> flush_error io = None"

lemma create_private_file_calm:
  "calm_io io \<Longrightarrow> sd name \<noteq> Some Subdirectory \<Longrightarrow>
   create_private_file io name sd = (Inr (), sd(name \<mapsto> RegularFile []))"
  by (auto simp: create_private_file_def calm_io_def Let_def split: option.split dir_entry.split)

subsection \<open>A sample bundle\<close>

text \<open>A digest that is the identity and readable derived keys keep the evaluation small.\<close>

definition plain_crypto :: crypto_env where
  "plain_crypto = sample_crypto\<lparr>hkdf_expand := (\<lambda>ikm info n. Inr (ikm @ info)), digest_hex := (\<lambda>x. x)\<rparr>"

definition sample_ciphertext :: "nat \<Rightarrow> string \<Rightarrow> string \<Rightarrow> string" where
  "sample_ciphertext i iv p = projr (encrypt_shard plain_crypto (projr (derive_shard_key plain_crypto ''bk'' i)) p iv)"

definition sample_shard :: "nat \<Rightarrow> string \<Rightarrow> string \<Rightarrow> ShardDescriptor" where
  "sample_shard i iv p = \<lparr>shard_path = ''shard-'' @ show_nat i, shard_plaintext_sha256 = p,
     shard_ciphertext_sha256 = sample_ciphertext i iv p, iv_base64 = CHR ''b'' # iv,
     shard_size_bytes = length p, layer_index = i\<rparr>"

definition sample_manifest :: BundleManifest where
  "sample_manifest = \<lparr>bundle_id = ''m1'', model_name = ''m'', model_version = ''1'', created_at = 0,
     encryption_algorithm = ''AES-256-GCM'', key_derivation = ''HKDF-SHA256'', client_key_id = ''c'',
     shards = [sample_shard 0 ''nonce-nonce0'' ''aaaa'', sample_shard 1 ''nonce-nonce1'' ''bbbb''],
     total_plaintext_sha256 = ''aaaabbbb'',
     minimum_requirements = \<lparr>req_cordon_version = ''1'',
       req_tee = \<lparr>sgx_isv_svn_min = None, sev_snp_api_min = None\<rparr>,
       req_hardware = \<lparr>min_gpu_vram_gb = 0, min_ram_gb = 0, ecc_memory_required = False\<rparr>\<rparr>,
     policy_hash = [], vendor_signature = [], client_approval_signature = []\<rparr>"

definition sample_disk :: shard_disk where
  "sample_disk p = (if p = ''dir/shard-0'' then Some (Readable (sample_ciphertext 0 ''nonce-nonce0'' ''aaaa''))
     else if p = ''dir/shard-1'' then Some (Readable (sample_ciphertext 1 ''nonce-nonce1'' ''bbbb'')) else None)"

definition sample_corrupt_disk :: shard_disk where
  "sample_corrupt_disk p = (if p = ''dir/shard-1'' then Some (Readable ''overwritten'') else sample_disk p)"

definition sample_store :: ModelStore where
  "sample_store = \<lparr>store_dir = ''dir'', bundles = [(''m1'', fresh_entry sample_manifest ''dir'')], vendor_vk = None,
     verdict_ttl = secs 900\<rparr>"

definition sample_stage_io :: stage_io where
  "sample_stage_io = \<lparr>mkdir_error = None, unlink_error = None, planted = None, create_error = None,
     write_error = (\<lambda>_. None), flush_error = None\<rparr>"

lemma show_nat_small [simp]: "show_nat 0 = ''0''" "show_nat (Suc 0) = ''1''"
  by code_simp+

lemmas sample_bundle_defs = sample_store_def sample_manifest_def sample_shard_def sample_ciphertext_def
  sample_disk_def sample_corrupt_disk_def fresh_entry_def plain_crypto_def sample_crypto_def encrypt_shard_def
  derive_shard_key_def derive_32_byte_key_def derive_key_def join_path_def is_absolute_def read_shard_def
  open_shard_def decode_iv_def unmark_def decrypt_shard_def staging_order_def sample_stage_io_def wrap_u32_def
  shard_key_info_def SHARD_KEY_def hash_file_streaming_def

subsection \<open>Properties\<close>

text \<open>C8. A bundle that failed an integrity check is refused by the serving gate, at every
  later time and whatever the development override says, through any sequence of
  checks (passing ones too) and of operations on other bundles.\<close>

theorem tampered_bundle_withdrawn:
  assumes "run_integrity_check C J d st t bid = (Inr False, st1)"
    and "run_ok (store_step C J) (\<lambda>_. leaves_bundle bid) st1 es"
  shows "ensure_servable (run (store_step C J) st1 es) now bid allow = Inl (ModelIntegrityViolation bid)"
  using tampered_refused[OF tamper_sys.run_inv[OF failed_check_tampers[OF assms(1)] assms(2)]] .

theorem tampered_bundle_withdrawn_witness:
  "let st1 = snd (run_integrity_check plain_crypto (\<lambda>_. Inr []) sample_corrupt_disk sample_store 5 ''m1'')
   in fst (run_integrity_check plain_crypto (\<lambda>_. Inr []) sample_disk st1 6 ''m1'') = Inr True
    \<and> ensure_servable (run (store_step plain_crypto (\<lambda>_. Inr [])) st1 [CheckBundle sample_disk 6 ''m1'']) 7 ''m1'' True
        = Inl (ModelIntegrityViolation ''m1'')"
proof -
  let ?R = "run_integrity_check plain_crypto (\<lambda>_. Inr []) sample_corrupt_disk sample_store 5 ''m1''"
  have a: "?R = (Inr False, snd ?R)"
    by (simp add: prod_eq_iff run_integrity_check_def check_shards_def sample_bundle_defs)
  have b: "fst (run_integrity_check plain_crypto (\<lambda>_. Inr []) sample_disk (snd ?R) 6 ''m1'') = Inr True"
    by (simp add: run_integrity_check_def check_shards_def record_verdict_def update_entry_def sample_bundle_defs)
  show ?thesis
    using tampered_bundle_withdrawn[OF a, of "[CheckBundle sample_disk 6 ''m1'']" 7 True] b by (simp add: Let_def)
qed



text \<open>When staging fails at a shard, what was decrypted before it stays on disk: the
  error leaves the staged file in place, holding the plaintext of every earlier shard,
  and the bundle in its staging status.\<close>

theorem failed_staging_leaves_plaintext:
  assumes "map_of (bundles st) bid = Some e" "calm_io io" "sd (bid @ ''.staged'') \<noteq> Some Subdirectory"
    and "staging_order (manifest e) = xs @ (i, sh) # ys"
    and "plaintexts C d bid (bundle_dir e) bk xs = Inr ps"
    and "d (join_path (bundle_dir e) (shard_path sh)) = Some (Readable ct)" "open_shard C bid bk i sh ct = Inl err"
  shows "\<exists>st' sd'. stage_plaintext C io d st now bid bk sd = (Inl err, st', sd')
    \<and> sd' (bid @ ''.staged'') = Some (RegularFile (concat ps))
    \<and> map_option bundle_status (map_of (bundles st') bid) = Some Staging"
proof -
  have w: "\<And>i. write_error io i = None" and m: "mkdir_error io = None"
    using assms(2) by (simp_all add: calm_io_def)
  have "stage_shards C io d bid (bundle_dir e) bk (staging_order (manifest e)) [] = (Inl err, concat ps)"
    unfolding assms(4) stage_shards_append[OF assms(5) w] using assms(6,7) by (simp add: read_shard_def)
  then show ?thesis
    using assms(1) m create_private_file_calm[OF assms(2), of sd, OF assms(3)]
    by (simp add: stage_plaintext_def Let_def map_of_update_entry)
qed

theorem failed_staging_leaves_plaintext_witness:
  "\<exists>st' sd'. stage_plaintext plain_crypto sample_stage_io sample_corrupt_disk sample_store 5 ''m1'' ''bk'' Map.empty
       = (Inl (ModelIntegrityViolation ''m1''), st', sd') \<and> sd' ''m1.staged'' = Some (RegularFile ''aaaa'')"
proof -
  let ?e = "fresh_entry sample_manifest ''dir''"
  have h: "map_of (bundles sample_store) ''m1'' = Some ?e" "calm_io sample_stage_io" "Map.empty (''m1'' @ ''.staged'') \<noteq> Some Subdirectory"
    by (simp_all add: sample_store_def calm_io_def sample_stage_io_def)
  have o: "staging_order (manifest ?e) = [(0, sample_shard 0 ''nonce-nonce0'' ''aaaa'')] @ (1, sample_shard 1 ''nonce-nonce1'' ''bbbb'') # []"
    by (simp add: sample_bundle_defs)
  have p: "plaintexts plain_crypto sample_corrupt_disk ''m1'' (bundle_dir ?e) ''bk'' [(0, sample_shard 0 ''nonce-nonce0'' ''aaaa'')] = Inr [''aaaa'']"
    by (simp add: sample_bundle_defs)
  have d: "sample_corrupt_disk (join_path (bundle_dir ?e) (shard_path (sample_shard 1 ''nonce-nonce1'' ''bbbb''))) = Some (Readable ''overwritten'')"
    by (simp add: sample_bundle_defs)
  have f: "open_shard plain_crypto ''m1'' ''bk'' 1 (sample_shard 1 ''nonce-nonce1'' ''bbbb'') ''overwritten'' = Inl (ModelIntegrityViolation ''m1'')"
    by (simp add: sample_bundle_defs)
  show ?thesis
    using failed_staging_leaves_plaintext[OF h o p d f, of 5] by auto
qed

subsection \<open>Every bundle in the store is well formed\<close>

definition entry_valid :: "crypto_env \<Rightarrow> string \<times> BundleEntry \<Rightarrow> bool" where
  "entry_valid C be \<longleftrightarrow> fst be = bundle_id (manifest (snd be)) \<and> validate_structure C (manifest (snd be)) = Inr ()"

definition store_valid :: "crypto_env \<Rightarrow> ModelStore \<Rightarrow> bool" where
  "store_valid C st \<longleftrightarrow> list_all (entry_valid C) (bundles st)"

lemma list_all_update: "list_all P al \<Longrightarrow> P (k, v) \<Longrightarrow> list_all P (AList.update k v al)"
  by (induction al) auto

lemma list_all_delete: "list_all P al \<Longrightarrow> list_all P (AList.delete k al)"
  by (induction al) (auto simp: AList.delete_eq)

lemma store_valid_insert:
  "store_valid C st \<Longrightarrow> validate_structure C m = Inr () \<Longrightarrow>
   store_valid C (st\<lparr>bundles := AList.update (bundle_id m) (fresh_entry m dir) (bundles st)\<rparr>)"
  by (simp add: store_valid_def list_all_update entry_valid_def fresh_entry_def)

lemma store_valid_update_entry:
  assumes "store_valid C st" "\<And>e. manifest (f e) = manifest e"
  shows "store_valid C (update_entry b f st)"
proof (cases "map_of (bundles st) b")
  case (Some e)
  then have "entry_valid C (b, f e)"
    using assms map_of_SomeD[OF Some] by (auto simp: store_valid_def entry_valid_def list_all_iff)
  then show ?thesis
    using assms(1) Some by (simp add: update_entry_def store_valid_def list_all_update)
qed (use assms in \<open>simp add: update_entry_def\<close>)

lemma store_valid_verdict: "store_valid C st \<Longrightarrow> store_valid C (record_verdict st now b ok)"
  unfolding record_verdict_def by (rule store_valid_update_entry) (simp_all add: Let_def)

lemma store_valid_stage: "store_valid C st \<Longrightarrow> store_valid C (fst (snd (stage_plaintext C io d st now b bk sd)))"
  by (auto simp: stage_plaintext_def Let_def intro!: store_valid_update_entry store_valid_verdict
      split: option.split prod.split sum.split)

lemma store_step_valid: "store_valid C st \<Longrightarrow> store_valid C (store_step C J st e)"
proof (cases e)
  case (CheckBundle d now b)
  then show "store_valid C st \<Longrightarrow> ?thesis"
    by (simp add: run_integrity_check_def store_valid_verdict split: option.split sum.split)
next
  case (RegisterBundle m dir vk)
  then show "store_valid C st \<Longrightarrow> ?thesis"
    by (simp add: register_bundle_def store_valid_insert split: sum.split)
next
  case (RemoveBundle b)
  then show "store_valid C st \<Longrightarrow> ?thesis"
    by (simp add: remove_bundle_def store_valid_def list_all_delete split: option.split)
next
  case (StageBundle io d now b bk sd)
  then show "store_valid C st \<Longrightarrow> ?thesis"
    by (simp add: store_valid_stage)
qed

interpretation valid_sys: invariant_system "store_step C J" "\<lambda>_ _. True" "store_valid C" for C J
  by unfold_locales (rule store_step_valid)

lemma scan_valid: "store_valid C st \<Longrightarrow> store_valid C (scan_existing_bundles C of_json ds st)"
  by (induction C of_json ds st rule: scan_existing_bundles.induct)
    (auto simp: store_valid_insert split: sum.splits)

text \<open>What a validated manifest guarantees of its shards.\<close>

definition shard_sound :: "ShardDescriptor \<Rightarrow> bool" where
  "shard_sound sh \<longleftrightarrow> \<not> is_absolute (shard_path sh) \<and> list_all is_normal (path_components (shard_path sh))
     \<and> to_lower (shard_plaintext_sha256 sh) \<noteq> to_lower (shard_ciphertext_sha256 sh)"

lemma validate_shards_sound: "validate_shards C bid idx shs = Inr () \<Longrightarrow> list_all shard_sound shs"
  by (induction shs arbitrary: idx)
    (auto simp: validate_shard_def validate_relative_path_def shard_sound_def eq_ignore_ascii_case_def
      split: sum.splits if_splits)

lemma validate_nonces_distinct:
  "validate_nonces bid idx seen shs = Inr () \<Longrightarrow> distinct (map iv_base64 shs) \<and> set (map iv_base64 shs) \<inter> set seen = {}"
  by (induction shs arbitrary: idx seen) (force split: if_splits)+

lemma validate_structure_sound:
  "validate_structure C m = Inr () \<Longrightarrow> is_safe_bundle_id (bundle_id m) \<and> shards m \<noteq> []
     \<and> list_all shard_sound (shards m) \<and> distinct (map iv_base64 (shards m))"
  by (auto simp: validate_structure_def Let_def dest: validate_shards_sound validate_nonces_distinct
      split: if_splits sum.splits)



text \<open>
  Validation accepts digests in either case, but the computed digest is lower-case and the
  comparison is of bytes: a shard whose manifest digest has an upper-case digit fails
  every check, whatever its content.
\<close>

lemma upper_case_digest_never_passes:
  assumes "hex_digest (digest_hex C)" "sh \<in> set shs" "\<not> list_all hex_digit (shard_ciphertext_sha256 sh)"
  shows "check_shard_files C d dir shs \<noteq> Inr True"
  using assms(2)
proof (induction shs)
  case (Cons x shs)
  have "digest_hex C y \<noteq> shard_ciphertext_sha256 sh" for y
    using assms(1,3) by (metis hex_digest_def)
  then show ?case
    using Cons by (auto simp: Let_def hash_file_streaming_def
        split: option.splits sum.splits shard_file.splits if_splits)
qed simp

end
