(* ===== verification/OutputFilter.thy ===== *)
theory OutputFilter
  imports Errors
begin

text \<open>
  The content filter of \<^verbatim>\<open>cordon-core/src/output_filter.rs\<close>, whole-response and streaming.

  Text is a list of Unicode code points, so a character is an element and a byte offset
  is the UTF-8 length of a prefix.  The \<^verbatim>\<open>regex\<close> crate is a parameter: a compiled
  expression is the record \<open>regex\<close> of the three calls the filter makes, and \<open>compile\<close>
  is the compiler.  Unicode lower-casing (a table of the standard library) is the
  parameter \<open>lower\<close>.
\<close>

type_synonym utext = "nat list"

definition utf8_width :: "nat \<Rightarrow> nat" where
  "utf8_width c = (if c < 128 then 1 else if c < 2048 then 2 else if c < 65536 then 3 else 4)"

definition utf8_length :: "utext \<Rightarrow> nat" where
  "utf8_length s = sum_list (map utf8_width s)"

definition utext_of :: "string \<Rightarrow> utext" where
  "utext_of s = map of_char s"

subsection \<open>Policies\<close>

datatype PolicyAction = ReturnError | Redact | Truncate | LogAndContinue

datatype PiiType = Email | PhoneNumber | Ssn | CreditCard | IpAddress | PostalCode

datatype PolicyRuleType =
  TokenBlocklist "utext list"
| PatternFilter utext "utext option"
| TopicFilter "utext list" nat
| PiiDetector "PiiType list" bool
| MaxLength nat

record PolicyRule =
  rule_id :: string
  description :: string
  rule_type :: PolicyRuleType
  rule_action :: PolicyAction
  rule_enabled :: bool

record ContentPolicy =
  policy_version :: string
  rules :: "PolicyRule list"
  policy_client_id :: string

definition default_permissive :: "string \<Rightarrow> ContentPolicy" where
  "default_permissive client_id = \<lparr>policy_version = ''1.0'', rules = [\<lparr>rule_id = ''pii-default'',
     description = ''Flag personally identifying information in output'',
     rule_type = PiiDetector [Email, PhoneNumber, CreditCard] False,
     rule_action = LogAndContinue, rule_enabled = True\<rparr>], policy_client_id = client_id\<rparr>"

text \<open>The patterns, with a tilde standing for the backslash.\<close>

definition raw_pattern :: "string \<Rightarrow> utext" where
  "raw_pattern s = utext_of (map (\<lambda>c. if c = CHR ''~'' then CHR 0x5C else c) s)"

definition pii_pattern :: "PiiType \<Rightarrow> utext" where
  "pii_pattern t = raw_pattern (case t of
     Email \<Rightarrow> ''[a-zA-Z0-9._%+~-]+@[a-zA-Z0-9.~-]+~.[a-zA-Z]{2,}''
   | PhoneNumber \<Rightarrow> ''~b(~+~d{1,3}[-.~s]?)?~(?~d{3}~)?[-.~s]?~d{3}[-.~s]?~d{4}~b''
   | Ssn \<Rightarrow> ''~b~d{3}-~d{2}-~d{4}~b''
   | CreditCard \<Rightarrow> ''~b(?:~d{4}[-~s]?){3}~d{4}~b''
   | IpAddress \<Rightarrow> ''~b(?:~d{1,3}~.){3}~d{1,3}~b''
   | PostalCode \<Rightarrow> ''~b~d{5}(?:-~d{4})?~b'')"

record regex =
  re_find :: "utext \<Rightarrow> nat option"
  re_count :: "utext \<Rightarrow> nat"
  re_replace_all :: "utext \<Rightarrow> utext \<Rightarrow> utext"

record CompiledRule =
  compiled :: PolicyRule
  pattern :: "regex option"

type_synonym OutputFilter = "CompiledRule list"

fun join_bar :: "utext list \<Rightarrow> utext" where
  "join_bar [] = []"
| "join_bar [x] = x"
| "join_bar (x # y # ys) = x @ utext_of ''|'' @ join_bar (y # ys)"

definition compile_rule :: "(utext \<Rightarrow> string + regex) \<Rightarrow> PolicyRule \<Rightarrow> CompiledRule CordonResult" where
  "compile_rule compile rule = (case rule_type rule of
     PatternFilter p _ \<Rightarrow> (case compile p of
        Inl e \<Rightarrow> Inl (ConfigError (''rule '' @ [CHR 0x27] @ rule_id rule @ [CHR 0x27]
                   @ '' has an invalid regular expression: '' @ e))
      | Inr r \<Rightarrow> Inr \<lparr>compiled = rule, pattern = Some r\<rparr>)
   | PiiDetector ts _ \<Rightarrow>
       if ts = [] then Inr \<lparr>compiled = rule, pattern = None\<rparr>
       else (case compile (join_bar (map pii_pattern ts)) of
               Inl e \<Rightarrow> Inl (ConfigError (''PII pattern error: '' @ e))
             | Inr r \<Rightarrow> Inr \<lparr>compiled = rule, pattern = Some r\<rparr>)
   | _ \<Rightarrow> Inr \<lparr>compiled = rule, pattern = None\<rparr>)"

definition filter_new :: "(utext \<Rightarrow> string + regex) \<Rightarrow> ContentPolicy \<Rightarrow> OutputFilter CordonResult" where
  "filter_new compile policy = try_each (compile_rule compile) (List.filter rule_enabled (rules policy))"

definition rule_count :: "OutputFilter \<Rightarrow> nat" where
  "rule_count f = length f"

subsection \<open>Applying a policy\<close>

record PolicyMatch =
  match_rule :: string
  match_action :: PolicyAction
  match_offset :: "nat option"
  match_summary :: string

record FilterResult =
  filtered :: utext
  triggered :: bool
  matches :: "PolicyMatch list"
  blocked :: bool

text \<open>\<^verbatim>\<open>str::find\<close> and \<^verbatim>\<open>str::replace\<close> for a non-empty needle.\<close>

definition begins :: "utext \<Rightarrow> utext \<Rightarrow> bool" where
  "begins tok s \<longleftrightarrow> take (length tok) s = tok"

fun find_sub :: "utext \<Rightarrow> utext \<Rightarrow> nat option" where
  "find_sub tok [] = (if tok = [] then Some 0 else None)"
| "find_sub tok (c # cs) = (if begins tok (c # cs) then Some 0 else map_option Suc (find_sub tok cs))"

function replace_sub :: "utext \<Rightarrow> utext \<Rightarrow> utext \<Rightarrow> utext" where
  "replace_sub tok rep s =
     (if tok = [] then s
      else (case s of
              [] \<Rightarrow> []
            | c # cs \<Rightarrow> if begins tok s then rep @ replace_sub tok rep (drop (length tok) s)
                        else c # replace_sub tok rep cs))"
  by pat_completeness auto
termination
  by (relation "measure (\<lambda>(tok, rep, s). length s)") auto

declare replace_sub.simps [simp del]

definition REDACTED :: utext where
  "REDACTED = utext_of ''[REDACTED]''"

definition truncate_to_chars :: "utext \<Rightarrow> nat \<Rightarrow> utext" where
  "truncate_to_chars s n = take n s"

text \<open>The running state of \<^verbatim>\<open>filter\<close>: the text, the matches so far and the verdict.\<close>

type_synonym filter_state = "utext \<times> PolicyMatch list \<times> bool"

definition apply_max_length :: "PolicyRule \<Rightarrow> nat \<Rightarrow> filter_state \<Rightarrow> filter_state" where
  "apply_max_length rule max_chars st = (case st of (s, ms, b) \<Rightarrow>
     if length s > max_chars
     then (if rule_action rule = Truncate then truncate_to_chars s max_chars else s,
           ms @ [\<lparr>match_rule = rule_id rule, match_action = rule_action rule, match_offset = Some max_chars,
                  match_summary = ''output exceeded '' @ show_nat max_chars @ '' characters''\<rparr>],
           rule_action rule = ReturnError \<or> b)
     else (s, ms, b))"

fun apply_blocklist :: "PolicyRule \<Rightarrow> utext list \<Rightarrow> filter_state \<Rightarrow> filter_state" where
  "apply_blocklist rule [] st = st"
| "apply_blocklist rule (tok # toks) (s, ms, b) =
     (if tok = [] then apply_blocklist rule toks (s, ms, b)
      else (case find_sub tok s of
              None \<Rightarrow> apply_blocklist rule toks (s, ms, b)
            | Some position \<Rightarrow>
                (let ms' = ms @ [\<lparr>match_rule = rule_id rule, match_action = rule_action rule,
                       match_offset = Some (utf8_length (take position s)),
                       match_summary = ''blocked token present''\<rparr>]
                 in (case rule_action rule of
                       Redact \<Rightarrow> apply_blocklist rule toks (replace_sub tok REDACTED s, ms', b)
                     | ReturnError \<Rightarrow> (s, ms', True)
                     | Truncate \<Rightarrow> (take position s, ms', b)
                     | LogAndContinue \<Rightarrow> apply_blocklist rule toks (s, ms', b)))))"

definition contains_sub :: "utext \<Rightarrow> utext \<Rightarrow> bool" where
  "contains_sub tok s \<longleftrightarrow> find_sub tok s \<noteq> None"

definition apply_topic ::
  "(utext \<Rightarrow> utext) \<Rightarrow> PolicyRule \<Rightarrow> utext list \<Rightarrow> nat \<Rightarrow> filter_state \<Rightarrow> filter_state" where
  "apply_topic lower rule keywords min_matches st = (case st of (s, ms, b) \<Rightarrow>
     (let hits = length (List.filter (\<lambda>k. k \<noteq> [] \<and> contains_sub (lower k) (lower s)) keywords)
      in if hits \<ge> min_matches \<and> min_matches > 0
         then (if rule_action rule = Truncate then [] else s,
               ms @ [\<lparr>match_rule = rule_id rule, match_action = rule_action rule, match_offset = None,
                      match_summary = show_nat hits @ '' topic keywords matched''\<rparr>],
               rule_action rule = ReturnError \<or> b)
         else (s, ms, b)))"

definition apply_regex :: "PolicyRule \<Rightarrow> regex option \<Rightarrow> filter_state \<Rightarrow> filter_state" where
  "apply_regex rule pat st = (case st of (s, ms, b) \<Rightarrow>
     (case pat of None \<Rightarrow> (s, ms, b)
      | Some r \<Rightarrow> (case re_find r s of
          None \<Rightarrow> (s, ms, b)
        | Some start \<Rightarrow>
            (let ms' = ms @ [\<lparr>match_rule = rule_id rule, match_action = rule_action rule,
                   match_offset = Some (utf8_length (take start s)),
                   match_summary = show_nat (re_count r s) @ '' pattern matches''\<rparr>];
                 replacement = (case rule_type rule of PatternFilter _ (Some t) \<Rightarrow> t | _ \<Rightarrow> REDACTED)
             in (case rule_action rule of
                   Redact \<Rightarrow> (re_replace_all r s replacement, ms', b)
                 | ReturnError \<Rightarrow> (s, ms', True)
                 | Truncate \<Rightarrow> (take start s, ms', b)
                 | LogAndContinue \<Rightarrow> (s, ms', b))))))"

definition apply_rule :: "(utext \<Rightarrow> utext) \<Rightarrow> CompiledRule \<Rightarrow> filter_state \<Rightarrow> filter_state" where
  "apply_rule lower cr st = (case rule_type (compiled cr) of
     MaxLength n \<Rightarrow> apply_max_length (compiled cr) n st
   | TokenBlocklist toks \<Rightarrow> apply_blocklist (compiled cr) toks st
   | TopicFilter ks n \<Rightarrow> apply_topic lower (compiled cr) ks n st
   | PatternFilter _ _ \<Rightarrow> apply_regex (compiled cr) (pattern cr) st
   | PiiDetector _ _ \<Rightarrow> apply_regex (compiled cr) (pattern cr) st)"

fun apply_rules :: "(utext \<Rightarrow> utext) \<Rightarrow> OutputFilter \<Rightarrow> filter_state \<Rightarrow> filter_state" where
  "apply_rules lower [] st = st"
| "apply_rules lower (cr # crs) st =
     (let st' = apply_rule lower cr st in if snd (snd st') then st' else apply_rules lower crs st')"

definition filter_text :: "(utext \<Rightarrow> utext) \<Rightarrow> OutputFilter \<Rightarrow> utext \<Rightarrow> FilterResult" where
  "filter_text lower f s = (case apply_rules lower f (s, [], False) of
     (s', ms, b) \<Rightarrow> \<lparr>filtered = s', triggered = (ms \<noteq> []), matches = ms, blocked = b\<rparr>)"

text \<open>\<^verbatim>\<open>floor_char_boundary\<close> on byte offsets: boundaries are the UTF-8 lengths of prefixes.\<close>

definition is_char_boundary :: "utext \<Rightarrow> nat \<Rightarrow> bool" where
  "is_char_boundary s i \<longleftrightarrow> (\<exists>k \<in> set [0..<Suc (length s)]. utf8_length (take k s) = i)"

fun floor_loop :: "utext \<Rightarrow> nat \<Rightarrow> nat" where
  "floor_loop s 0 = 0"
| "floor_loop s (Suc i) = (if is_char_boundary s (Suc i) then Suc i else floor_loop s i)"

definition floor_char_boundary :: "utext \<Rightarrow> nat \<Rightarrow> nat" where
  "floor_char_boundary s index = (if index \<ge> utf8_length s then utf8_length s else floor_loop s index)"

subsection \<open>Streaming\<close>

definition DEFAULT_STREAM_HOLDBACK_CHARS :: nat where "DEFAULT_STREAM_HOLDBACK_CHARS = 128"
definition MIN_REFILTER_STRIDE_CHARS :: nat where "MIN_REFILTER_STRIDE_CHARS = 16"
definition REFILTER_STRIDE_DIVISOR :: nat where "REFILTER_STRIDE_DIVISOR = 64"

record StreamingFilter =
  sf_filter :: OutputFilter
  raw :: utext
  scanned_chars :: nat
  raw_chars :: nat
  released_chars :: nat
  holdback :: nat
  released :: utext
  sf_matches :: "PolicyMatch list"

definition with_holdback :: "OutputFilter \<Rightarrow> nat \<Rightarrow> StreamingFilter" where
  "with_holdback f h = \<lparr>sf_filter = f, raw = [], scanned_chars = 0, raw_chars = 0, released_chars = 0,
     holdback = h, released = [], sf_matches = []\<rparr>"

definition streaming_new :: "OutputFilter \<Rightarrow> StreamingFilter" where
  "streaming_new f = with_holdback f DEFAULT_STREAM_HOLDBACK_CHARS"

definition scan_is_due :: "StreamingFilter \<Rightarrow> bool" where
  "scan_is_due sf = (if raw_chars sf \<le> holdback sf then False
     else raw_chars sf - scanned_chars sf \<ge> max MIN_REFILTER_STRIDE_CHARS (scanned_chars sf div REFILTER_STRIDE_DIVISOR))"

definition violation_of :: "FilterResult \<Rightarrow> CordonError" where
  "violation_of r = ContentPolicyViolation (case matches r of [] \<Rightarrow> [] | m # _ \<Rightarrow> match_rule m)"

definition push ::
  "(utext \<Rightarrow> utext) \<Rightarrow> StreamingFilter \<Rightarrow> utext \<Rightarrow> utext CordonResult \<times> StreamingFilter" where
  "push lower sf delta =
     (let sf1 = sf\<lparr>raw := raw sf @ delta, raw_chars := raw_chars sf + length delta\<rparr>
      in if \<not> scan_is_due sf1 then (Inr [], sf1)
         else
           let result = filter_text lower (sf_filter sf1) (raw sf1);
               sf2 = sf1\<lparr>scanned_chars := raw_chars sf1\<rparr>
           in if blocked result then (Inl (violation_of result), sf2)
              else
                let sf3 = sf2\<lparr>sf_matches := matches result\<rparr>;
                    releasable = length (filtered result) - holdback sf3
                in if releasable \<le> released_chars sf3 then (Inr [], sf3)
                   else
                     let chunk = take (releasable - released_chars sf3) (drop (released_chars sf3) (filtered result))
                     in (Inr chunk, sf3\<lparr>released_chars := releasable, released := released sf3 @ chunk\<rparr>))"

definition finish ::
  "(utext \<Rightarrow> utext) \<Rightarrow> StreamingFilter \<Rightarrow> (utext \<times> FilterResult) CordonResult \<times> StreamingFilter" where
  "finish lower sf =
     (let result = filter_text lower (sf_filter sf) (raw sf);
          sf1 = sf\<lparr>raw := [], scanned_chars := raw_chars sf\<rparr>
      in if blocked result then (Inl (violation_of result), sf1)
         else
           let tail = drop (released_chars sf1) (filtered result)
           in (Inr (tail, result),
               sf1\<lparr>released_chars := length (filtered result), released := released sf1 @ tail\<rparr>))"

text \<open>A stream: the deltas of a generation, then the end of it.\<close>

fun push_all ::
  "(utext \<Rightarrow> utext) \<Rightarrow> StreamingFilter \<Rightarrow> utext list \<Rightarrow> utext list CordonResult \<times> StreamingFilter" where
  "push_all lower sf [] = (Inr [], sf)"
| "push_all lower sf (d # ds) =
     (case push lower sf d of
        (Inl e, sf1) \<Rightarrow> (Inl e, sf1)
      | (Inr c, sf1) \<Rightarrow> (case push_all lower sf1 ds of
            (Inl e, sf2) \<Rightarrow> (Inl e, sf2) | (Inr cs, sf2) \<Rightarrow> (Inr (c # cs), sf2)))"

subsection \<open>A stream is what the caller received\<close>

text \<open>
  What has been released is always the concatenation of the chunks returned, and the
  count of released characters is its length.  A policy is \<open>stream_stable\<close> for a
  holdback when text beyond the holdback does not change as more input arrives.
\<close>

definition whole :: "(utext \<Rightarrow> utext) \<Rightarrow> OutputFilter \<Rightarrow> utext \<Rightarrow> utext" where
  "whole lower f s = filtered (filter_text lower f s)"

definition stream_stable :: "(utext \<Rightarrow> utext) \<Rightarrow> OutputFilter \<Rightarrow> nat \<Rightarrow> bool" where
  "stream_stable lower f h \<longleftrightarrow> (\<forall>s d.
     \<not> blocked (filter_text lower f s) \<longrightarrow> \<not> blocked (filter_text lower f (s @ d)) \<longrightarrow>
     take (length (whole lower f s) - h) (whole lower f (s @ d)) = take (length (whole lower f s) - h) (whole lower f s))"

text \<open>The state between two calls: released is what a stable policy would still release.\<close>

definition stream_inv :: "(utext \<Rightarrow> utext) \<Rightarrow> StreamingFilter \<Rightarrow> bool" where
  "stream_inv lower sf \<longleftrightarrow> released_chars sf = length (released sf) \<and> raw_chars sf = length (raw sf)
     \<and> (\<forall>d. \<not> blocked (filter_text lower (sf_filter sf) (raw sf @ d)) \<longrightarrow>
            take (length (released sf)) (whole lower (sf_filter sf) (raw sf @ d)) = released sf)"

lemma with_holdback_inv: "stream_inv lower (with_holdback f h)"
  by (simp add: stream_inv_def with_holdback_def)

lemma push_frame:
  assumes "push lower sf d = (r, sf')"
  shows "sf_filter sf' = sf_filter sf" and "holdback sf' = holdback sf" and "raw sf' = raw sf @ d"
    and "r = Inr c \<Longrightarrow> released sf' = released sf @ c"
  using assms by (auto simp: push_def Let_def split: if_splits)

lemma take_extend:
  assumes "take (length x) y = x" "length x \<le> n" "n \<le> length y"
  shows "x @ take (n - length x) (drop (length x) y) = take n y"
proof -
  have "take n y = take (length x + (n - length x)) y"
    using assms(2) by simp
  also have "\<dots> = take (length x) y @ take (n - length x) (drop (length x) y)"
    by (rule take_add)
  finally show ?thesis
    using assms(1) by simp
qed

lemma push_inv:
  assumes stable: "stream_stable lower (sf_filter sf) (holdback sf)" and inv: "stream_inv lower sf"
    and p: "push lower sf d = (Inr c, sf')"
  shows "stream_inv lower sf'"
proof -
  let ?f = "sf_filter sf" and ?s = "raw sf @ d"
  let ?F = "whole lower ?f ?s"
  let ?n = "length ?F - holdback sf"
  have pre: "take (length (released sf)) (whole lower ?f (?s @ e)) = released sf"
    if "\<not> blocked (filter_text lower ?f (?s @ e))" for e
    using inv that by (simp add: stream_inv_def)
  show ?thesis
  proof (cases "length (released sf) < ?n \<and> released sf' \<noteq> released sf")
    case True
    have c: "released sf' = released sf @ take (?n - length (released sf)) (drop (length (released sf)) ?F)"
      and n: "released_chars sf' = ?n" and rc: "raw_chars sf' = length ?s"
      and ok: "\<not> blocked (filter_text lower ?f ?s)"
      using p inv True by (auto simp: push_def Let_def whole_def stream_inv_def split: if_splits)
    have eq: "released sf' = take ?n ?F"
      unfolding c using pre[of "[]"] True ok by (intro take_extend) auto
    have "take ?n (whole lower ?f (?s @ e)) = take ?n ?F"
      if "\<not> blocked (filter_text lower ?f (?s @ e))" for e
      using stable ok that by (simp add: stream_stable_def del: append_assoc)
    then show ?thesis
      using eq n rc push_frame[OF p] by (simp add: stream_inv_def)
  next
    case False
    have "released sf' = released sf \<and> released_chars sf' = length (released sf) \<and> raw_chars sf' = length ?s"
      using p inv False by (auto simp: push_def Let_def whole_def stream_inv_def split: if_splits)
    then show ?thesis
      using pre push_frame[OF p] by (simp add: stream_inv_def)
  qed
qed

lemma push_all_inv:
  assumes "push_all lower sf ds = (Inr cs, sf')" "stream_stable lower (sf_filter sf) (holdback sf)"
    "stream_inv lower sf"
  shows "stream_inv lower sf' \<and> sf_filter sf' = sf_filter sf \<and> raw sf' = raw sf @ concat ds
    \<and> released sf' = released sf @ concat cs"
  using assms
proof (induction ds arbitrary: sf cs)
  case (Cons d ds)
  obtain c sf1 cs' where p: "push lower sf d = (Inr c, sf1)"
    and ps: "push_all lower sf1 ds = (Inr cs', sf')" and cs: "cs = c # cs'"
    using Cons.prems(1) by (auto split: prod.splits sum.splits)
  note fr = push_frame[OF p]
  show ?case
    using Cons.IH[OF ps] push_inv[OF Cons.prems(2,3) p] Cons.prems(2) fr cs by simp
qed simp

lemma stream_equals_whole:
  assumes "stream_stable lower f h" "push_all lower (with_holdback f h) ds = (Inr cs, sf)"
    "finish lower sf = (Inr (tail, r), sf')"
  shows "concat cs @ tail = whole lower f (concat ds)" and "r = filter_text lower f (concat ds)"
    and "released sf' = whole lower f (concat ds)"
proof -
  have inv: "stream_inv lower sf" and ff: "sf_filter sf = f" and rw: "raw sf = concat ds"
    and rl: "released sf = concat cs"
    using push_all_inv[OF assms(2)] assms(1) with_holdback_inv[of lower f h] by (simp_all add: with_holdback_def)
  have fin: "tail = drop (length (released sf)) (whole lower f (concat ds))"
    "r = filter_text lower f (concat ds)" "released sf' = released sf @ tail"
    and ok: "\<not> blocked (filter_text lower f (concat ds))"
    using assms(3) inv ff rw by (auto simp: finish_def Let_def whole_def stream_inv_def split: if_splits)
  have "take (length (released sf)) (whole lower f (concat ds)) = released sf"
    using inv ff rw ok unfolding stream_inv_def by (metis append_Nil2)
  then have "released sf @ tail = whole lower f (concat ds)"
    using fin(1) by (metis append_take_drop_id)
  then show "concat cs @ tail = whole lower f (concat ds)" "released sf' = whole lower f (concat ds)"
    "r = filter_text lower f (concat ds)"
    using rl fin by simp_all
qed

subsection \<open>Policies that are stable\<close>

definition rule_text :: "(utext \<Rightarrow> utext) \<Rightarrow> CompiledRule \<Rightarrow> utext \<Rightarrow> utext" where
  "rule_text lower cr s = fst (apply_rule lower cr (s, [], False))"

lemma apply_blocklist_text: "fst (apply_blocklist rule toks (s, ms, b)) = fst (apply_blocklist rule toks (s, ms', b'))"
  by (induction toks arbitrary: s ms ms' b b')
    (auto simp: Let_def split: option.splits PolicyAction.splits)

lemma apply_rule_text: "fst (apply_rule lower cr (s, ms, b)) = rule_text lower cr s"
  unfolding rule_text_def apply_rule_def
  by (auto simp: apply_max_length_def apply_topic_def apply_regex_def Let_def
      split: PolicyRuleType.splits option.splits PolicyAction.splits intro: apply_blocklist_text)

lemma apply_rules_text:
  "\<not> snd (snd (apply_rules lower f st)) \<Longrightarrow> fst (apply_rules lower f st) = fold (rule_text lower) f (fst st)"
proof (induction f arbitrary: st)
  case (Cons cr f)
  then show ?case
    by (cases st) (auto simp: Let_def apply_rule_text split: if_splits)
qed simp

lemma whole_unblocked:
  "\<not> blocked (filter_text lower f s) \<Longrightarrow> whole lower f s = fold (rule_text lower) f s"
  using apply_rules_text[of lower f "(s, [], False)"] by (auto simp: whole_def filter_text_def split: prod.splits)

text \<open>
  A rule is transparent when it never alters text it does not refuse.  Beside those, a
  length limit and a cut at one blocked token keep common prefixes up to a margin.
\<close>

fun transparent :: "CompiledRule \<Rightarrow> bool" where
  "transparent cr = (case rule_action (compiled cr) of
     LogAndContinue \<Rightarrow> True
   | ReturnError \<Rightarrow> True
   | Redact \<Rightarrow> (case rule_type (compiled cr) of MaxLength _ \<Rightarrow> True | TopicFilter _ _ \<Rightarrow> True | _ \<Rightarrow> False)
   | Truncate \<Rightarrow> False)"

fun rule_margin :: "CompiledRule \<Rightarrow> nat option" where
  "rule_margin cr =
     (if transparent cr then Some 0
      else if rule_action (compiled cr) = Truncate
      then (case rule_type (compiled cr) of
              MaxLength _ \<Rightarrow> Some 0 | TokenBlocklist [tok] \<Rightarrow> Some (length tok - 1) | _ \<Rightarrow> None)
      else None)"

fun policy_margin :: "OutputFilter \<Rightarrow> nat option" where
  "policy_margin [] = Some 0"
| "policy_margin (cr # f) = (case (rule_margin cr, policy_margin f) of
     (Some m, Some n) \<Rightarrow> Some (m + n) | _ \<Rightarrow> None)"

lemma apply_blocklist_keeps:
  "rule_action rule \<in> {LogAndContinue, ReturnError} \<Longrightarrow> fst (apply_blocklist rule toks (s, ms, b)) = s"
  by (induction toks arbitrary: ms b) (auto simp: Let_def split: option.splits)

lemma transparent_text:
  assumes "transparent cr"
  shows "rule_text lower cr s = s"
proof (cases "rule_action (compiled cr) \<in> {LogAndContinue, ReturnError}")
  case True
  then show ?thesis
    unfolding rule_text_def apply_rule_def
    by (auto simp: apply_max_length_def apply_topic_def apply_regex_def Let_def apply_blocklist_keeps
        split: PolicyRuleType.splits option.splits)
next
  case False
  then show ?thesis
    using assms unfolding rule_text_def apply_rule_def
    by (auto simp: apply_max_length_def apply_topic_def Let_def split: PolicyAction.splits PolicyRuleType.splits)
qed

subsubsection \<open>The first occurrence of a token\<close>

lemma begins_append: "length tok \<le> length s \<Longrightarrow> begins tok (s @ d) = begins tok s"
  by (simp add: begins_def)

lemma begins_length: "begins tok s \<Longrightarrow> length tok \<le> length s"
  unfolding begins_def by (metis length_take min.cobounded1 nat_le_linear)

lemma find_sub_Some_iff:
  "tok \<noteq> [] \<Longrightarrow> find_sub tok s = Some p \<longleftrightarrow> begins tok (drop p s) \<and> (\<forall>q < p. \<not> begins tok (drop q s))"
proof (induction tok s arbitrary: p rule: find_sub.induct)
  case (1 tok)
  then show ?case by (simp add: begins_def)
next
  case (2 tok c cs)
  show ?case
  proof (cases p)
    case 0
    then show ?thesis by auto
  next
    case (Suc p')
    then show ?thesis
      using 2 by (auto simp: All_less_Suc2)
  qed
qed

lemma begins_shared:
  assumes "take k x = take k y" "q + length tok \<le> k" "begins tok (drop q x)"
  shows "begins tok (drop q y)"
proof -
  have "take (length tok) (drop q x) = drop q (take (q + length tok) (take k x))"
    using assms(2) by (simp add: take_drop min_absorb1 add.commute)
  also have "\<dots> = take (length tok) (drop q y)"
    unfolding assms(1) using assms(2) by (simp add: take_drop min_absorb1 add.commute)
  finally show ?thesis
    using assms(3) by (simp add: begins_def)
qed

text \<open>Texts with a common prefix have the same first occurrence, or none well inside the prefix.\<close>

lemma find_sub_shared:
  assumes t: "tok \<noteq> []" and eq: "take k x = take k y" and f: "find_sub tok x = Some p" and p: "p + length tok \<le> k"
  shows "find_sub tok y = Some p"
proof -
  have "begins tok (drop p x)" and no: "\<And>q. q < p \<Longrightarrow> \<not> begins tok (drop q x)"
    using f t by (simp_all add: find_sub_Some_iff)
  then have "begins tok (drop p y)"
    using begins_shared[OF eq p] by blast
  moreover have "\<not> begins tok (drop q y)" if "q < p" for q
    using begins_shared[OF eq[symmetric], of q tok] no[OF that] that p by auto
  ultimately show ?thesis
    using t by (simp add: find_sub_Some_iff)
qed

definition cut_at :: "utext \<Rightarrow> utext \<Rightarrow> utext" where
  "cut_at tok s = (case find_sub tok s of None \<Rightarrow> s | Some p \<Rightarrow> take p s)"

lemma cut_at_near:
  assumes t: "tok \<noteq> []" and eq: "take k x = take k y"
  shows "take (k - (length tok - 1)) (cut_at tok x) = take (k - (length tok - 1)) (cut_at tok y)"
    (is "take ?j _ = take ?j _")
proof -
  have j: "take ?j x = take ?j y"
    using eq by (metis diff_le_self min.absorb1 take_take)
  have far: "take ?j (cut_at tok z) = take ?j z" if "\<And>p. find_sub tok z = Some p \<Longrightarrow> k < p + length tok" for z
    using that t by (cases "find_sub tok z") (auto simp: cut_at_def min_def Suc_le_eq)
  show ?thesis
  proof (cases "\<exists>p. find_sub tok x = Some p \<and> p + length tok \<le> k")
    case True
    then obtain p where p: "find_sub tok x = Some p" "p + length tok \<le> k" by blast
    have "find_sub tok y = Some p"
      by (rule find_sub_shared[OF t eq p])
    moreover have "take p x = take p y"
      using eq p(2) by (metis add_leD1 min.absorb1 take_take)
    ultimately show ?thesis
      using p(1) by (simp add: cut_at_def)
  next
    case False
    have "\<not> p + length tok \<le> k" if "find_sub tok y = Some p" for p
      using find_sub_shared[OF t eq[symmetric] that] False by blast
    then show ?thesis
      using far[of x] far[of y] False j by (metis linorder_not_le)
  qed
qed

lemma rule_margin_near:
  assumes m: "rule_margin cr = Some m" and eq: "take k x = take k y"
  shows "take (k - m) (rule_text lower cr x) = take (k - m) (rule_text lower cr y)
    \<and> length (rule_text lower cr x) \<le> length x"
proof -
  consider (tr) "transparent cr" "m = 0"
    | (ml) n where "rule_type (compiled cr) = MaxLength n" "rule_action (compiled cr) = Truncate" "m = 0"
    | (tb) tok where "rule_type (compiled cr) = TokenBlocklist [tok]" "rule_action (compiled cr) = Truncate"
        "m = length tok - 1"
    using m by (auto split: if_splits PolicyRuleType.splits list.splits simp del: transparent.simps)
  then show ?thesis
  proof cases
    case tr
    then show ?thesis
      using eq by (simp add: transparent_text del: transparent.simps)
  next
    case ml
    then have "rule_text lower cr z = take n z" for z
      by (auto simp: rule_text_def apply_rule_def apply_max_length_def truncate_to_chars_def)
    moreover have "take k (take n x) = take k (take n y)"
      using eq by (metis min.commute take_take)
    ultimately show ?thesis
      using ml by simp
  next
    case tb
    have txt_eq: "rule_text lower cr z = (if tok = [] then z else cut_at tok z)" for z
      using tb by (auto simp: rule_text_def apply_rule_def cut_at_def Let_def split: option.splits)
    have "length (cut_at tok x) \<le> length x"
      by (simp add: cut_at_def split: option.split)
    then show ?thesis
      using tb txt_eq eq cut_at_near[of tok k x y] by auto
  qed
qed

lemma policy_margin_near:
  "policy_margin f = Some m \<Longrightarrow> take k x = take k y \<Longrightarrow>
   take (k - m) (fold (rule_text lower) f x) = take (k - m) (fold (rule_text lower) f y)
   \<and> length (fold (rule_text lower) f x) \<le> length x"
proof (induction f arbitrary: k x y m)
  case (Cons cr f)
  obtain a b where ab: "rule_margin cr = Some a" "policy_margin f = Some b" "m = a + b"
    using Cons.prems(1) by (auto split: option.splits simp del: rule_margin.simps)
  show ?case
    using Cons.IH[OF ab(2) conjunct1[OF rule_margin_near[OF ab(1) Cons.prems(2), of lower]]]
      rule_margin_near[OF ab(1) Cons.prems(2), of lower] ab(3) by (auto simp: diff_diff_eq)
qed simp

lemma policy_margin_stable:
  assumes "policy_margin f = Some m" "m \<le> h"
  shows "stream_stable lower f h"
  unfolding stream_stable_def
proof (intro allI impI)
  fix s d assume ok: "\<not> blocked (filter_text lower f s)" "\<not> blocked (filter_text lower f (s @ d))"
  let ?x = "fold (rule_text lower) f s" and ?y = "fold (rule_text lower) f (s @ d)"
  have near: "take (length s - m) ?x = take (length s - m) ?y" and len: "length ?x \<le> length s"
    using policy_margin_near[OF assms(1), of "length s" s "s @ d" lower] by simp_all
  have "length ?x - h \<le> length s - m"
    using len assms(2) by simp
  then have "take (length ?x - h) ?y = take (length ?x - h) ?x"
    using near by (metis min.absorb1 take_take)
  then show "take (length (whole lower f s) - h) (whole lower f (s @ d))
      = take (length (whole lower f s) - h) (whole lower f s)"
    using ok by (simp add: whole_unblocked)
qed

subsubsection \<open>Redaction of one token\<close>

lemma replace_sub_empty [simp]: "replace_sub tok rep [] = []"
  by (simp add: replace_sub.simps)

lemma replace_sub_hit:
  "tok \<noteq> [] \<Longrightarrow> begins tok s \<Longrightarrow> replace_sub tok rep s = rep @ replace_sub tok rep (drop (length tok) s)"
  by (subst replace_sub.simps) (auto simp: begins_def split: list.split)

lemma replace_sub_miss:
  "tok \<noteq> [] \<Longrightarrow> \<not> begins tok (c # cs) \<Longrightarrow> replace_sub tok rep (c # cs) = c # replace_sub tok rep cs"
  by (subst replace_sub.simps) simp

lemma replace_sub_short: "length s < length tok \<Longrightarrow> replace_sub tok rep s = s"
proof (induction s)
  case (Cons c cs)
  then have "\<not> begins tok (c # cs)"
    using begins_length by fastforce
  then show ?case
    using Cons by (cases tok) (auto simp: replace_sub_miss)
qed simp

text \<open>Only an unmatched remainder shorter than the token depends on what follows.\<close>

lemma replace_sub_append:
  assumes "tok \<noteq> []"
  shows "\<exists>P rest. replace_sub tok rep s = P @ rest \<and> length rest < length tok
    \<and> (\<forall>d. replace_sub tok rep (s @ d) = P @ replace_sub tok rep (rest @ d))"
  using assms
proof (induction "length s" arbitrary: s rule: less_induct)
  case less
  show ?case
  proof (cases "length s < length tok")
    case True
    then have "replace_sub tok rep s = [] @ s \<and> length s < length tok
        \<and> (\<forall>d. replace_sub tok rep (s @ d) = [] @ replace_sub tok rep (s @ d))"
      by (simp add: replace_sub_short)
    then show ?thesis by blast
  next
    case long: False
    show ?thesis
    proof (cases "begins tok s")
      case True
      have "length (drop (length tok) s) < length s"
        using long less.prems by (cases s) auto
      from less.hyps[OF this less.prems] obtain P rest where
        IH: "replace_sub tok rep (drop (length tok) s) = P @ rest" "length rest < length tok"
        "\<And>d. replace_sub tok rep (drop (length tok) s @ d) = P @ replace_sub tok rep (rest @ d)" by blast
      have "replace_sub tok rep (s @ d) = rep @ replace_sub tok rep (drop (length tok) s @ d)" for d
        using True long less.prems by (subst replace_sub_hit) (simp_all add: begins_append)
      then have "replace_sub tok rep s = (rep @ P) @ rest \<and> length rest < length tok
          \<and> (\<forall>d. replace_sub tok rep (s @ d) = (rep @ P) @ replace_sub tok rep (rest @ d))"
        using IH True less.prems by (simp add: replace_sub_hit)
      then show ?thesis by blast
    next
      case False
      obtain c cs where s: "s = c # cs"
        using long less.prems by (cases s) auto
      have "length cs < length s" by (simp add: s)
      from less.hyps[OF this less.prems] obtain P rest where
        IH: "replace_sub tok rep cs = P @ rest" "length rest < length tok"
        "\<And>d. replace_sub tok rep (cs @ d) = P @ replace_sub tok rep (rest @ d)" by blast
      have "\<not> begins tok (c # cs @ d)" for d
        using False long s begins_append[of tok "c # cs" d] by simp
      then have "replace_sub tok rep s = (c # P) @ rest \<and> length rest < length tok
          \<and> (\<forall>d. replace_sub tok rep (s @ d) = (c # P) @ replace_sub tok rep (rest @ d))"
        using IH False less.prems s by (simp add: replace_sub_miss)
      then show ?thesis by blast
    qed
  qed
qed

lemma replace_sub_near:
  assumes "tok \<noteq> []" "length tok \<le> Suc h"
  shows "take (length (replace_sub tok rep s) - h) (replace_sub tok rep (s @ d))
    = take (length (replace_sub tok rep s) - h) (replace_sub tok rep s)"
proof -
  obtain P rest where "replace_sub tok rep s = P @ rest" "length rest < length tok"
    "replace_sub tok rep (s @ d) = P @ replace_sub tok rep (rest @ d)"
    using replace_sub_append[OF assms(1)] by blast
  then show ?thesis
    using assms(2) by simp
qed

lemma replace_sub_absent: "tok \<noteq> [] \<Longrightarrow> find_sub tok s = None \<Longrightarrow> replace_sub tok rep s = s"
  by (induction tok s rule: find_sub.induct) (auto simp: replace_sub_miss split: if_splits)

definition redacts :: "CompiledRule \<Rightarrow> utext \<Rightarrow> bool" where
  "redacts cr tok \<longleftrightarrow> rule_type (compiled cr) = TokenBlocklist [tok] \<and> rule_action (compiled cr) = Redact"

lemma redacts_text: "redacts cr tok \<Longrightarrow> tok \<noteq> [] \<Longrightarrow> rule_text lower cr s = replace_sub tok REDACTED s"
  by (auto simp: redacts_def rule_text_def apply_rule_def Let_def replace_sub_absent split: option.split)

lemma transparent_fold: "list_all transparent f \<Longrightarrow> fold (rule_text lower) f s = s"
  by (induction f) (simp_all add: transparent_text del: transparent.simps)

lemma redact_stable:
  assumes "list_all transparent (pre @ post)" "redacts cr tok" "tok \<noteq> []" "length tok \<le> Suc h"
  shows "stream_stable lower (pre @ cr # post) h"
proof -
  have "whole lower (pre @ cr # post) s = replace_sub tok REDACTED s"
    if "\<not> blocked (filter_text lower (pre @ cr # post) s)" for s
    using whole_unblocked[OF that] assms by (simp add: transparent_fold redacts_text)
  then show ?thesis
    using replace_sub_near[OF assms(3,4)] by (simp add: stream_stable_def)
qed

subsection \<open>Verdicts\<close>

definition verdict_ok :: "filter_state \<Rightarrow> bool" where
  "verdict_ok st \<longleftrightarrow> (case st of (s, ms, b) \<Rightarrow> b = (\<exists>m \<in> set ms. match_action m = ReturnError))"

lemma verdict_ok_iff: "verdict_ok (s, ms, b) \<longleftrightarrow> b = (\<exists>m \<in> set ms. match_action m = ReturnError)"
  by (simp add: verdict_ok_def)

lemma apply_blocklist_verdict: "verdict_ok (s, ms, b) \<Longrightarrow> verdict_ok (apply_blocklist rule toks (s, ms, b))"
proof (induction toks arbitrary: s ms b)
  case (Cons tok toks)
  then show ?case
    by (auto simp: Let_def verdict_ok_iff[of _ _ "True"] verdict_ok_iff[of "take _ _"] split: option.split PolicyAction.split
        intro!: Cons.IH) (auto simp: verdict_ok_iff)
qed simp

lemma apply_rule_verdict: "verdict_ok st \<Longrightarrow> verdict_ok (apply_rule lower cr st)"
  unfolding apply_rule_def
  by (cases st) (auto simp: apply_max_length_def apply_topic_def apply_regex_def Let_def apply_blocklist_verdict
      verdict_ok_iff split: PolicyRuleType.split option.split PolicyAction.split)

lemma apply_rules_verdict: "verdict_ok st \<Longrightarrow> verdict_ok (apply_rules lower f st)"
  by (induction f arbitrary: st) (auto simp: Let_def apply_rule_verdict)

subsection \<open>Properties\<close>

lemma Inr_pair: "fst x = Inr y \<Longrightarrow> x = (Inr y, snd x)"
  by (cases x) simp

lemma Inr_pair_parts:
  "\<not> isl (fst x) \<Longrightarrow> x = (Inr (fst (projr (fst x)), snd (projr (fst x))), snd x)"
  by (cases x) (auto split: sum.splits)

definition sample_rule :: "PolicyRuleType \<Rightarrow> PolicyAction \<Rightarrow> CompiledRule" where
  "sample_rule t a = \<lparr>compiled = \<lparr>rule_id = ''r1'', description = [], rule_type = t, rule_action = a,
     rule_enabled = True\<rparr>, pattern = None\<rparr>"

text \<open>C10. Streaming a response under a policy of logging rules, refusing rules, length
  limits and cuts at a blocked token whose lengths fit the holdback releases, chunk by
  chunk and with the withheld tail, exactly the text the whole-response filter
  produces, and finishing reports the whole-response verdict.\<close>

theorem streaming_equals_whole_filter:
  assumes "policy_margin f = Some m" "m \<le> h"
    and "push_all lower (with_holdback f h) ds = (Inr cs, sf)" and "finish lower sf = (Inr (tail, r), sf')"
  shows "concat cs @ tail = filtered (filter_text lower f (concat ds))
    \<and> r = filter_text lower f (concat ds) \<and> released sf' = concat cs @ tail"
  using stream_equals_whole[OF policy_margin_stable[OF assms(1,2)] assms(3,4)] by (simp add: whole_def)

definition sample_policy :: OutputFilter where
  "sample_policy = [sample_rule (MaxLength 30) Truncate, sample_rule (TokenBlocklist [utext_of ''key'']) Truncate]"

definition sample_deltas :: "utext list" where
  "sample_deltas = [utext_of ''the quick brown fox and the ke'', utext_of ''y is 42'']"

theorem streaming_equals_whole_filter_witness:
  "let out = push_all id (with_holdback sample_policy 2) sample_deltas; fin = finish id (snd out)
   in fst out = Inr [utext_of ''the quick brown fox and the '', []]
      \<and> concat (projr (fst out)) @ fst (projr (fst fin)) = filtered (filter_text id sample_policy (concat sample_deltas))"
proof -
  let ?out = "push_all id (with_holdback sample_policy 2) sample_deltas"
  have o': "fst ?out = Inr [utext_of ''the quick brown fox and the '', []]"
    by code_simp
  note o = Inr_pair[OF this]
  have f: "finish id (snd ?out) =
      (Inr (fst (projr (fst (finish id (snd ?out)))), snd (projr (fst (finish id (snd ?out))))), snd (finish id (snd ?out)))"
    by (rule Inr_pair_parts) code_simp
  have m: "policy_margin sample_policy = Some 2" "(2::nat) \<le> 2"
    by code_simp+
  show ?thesis
    using streaming_equals_whole_filter[OF m o f] unfolding Let_def o' by simp
qed

text \<open>C23. Redacting one blocked token no longer than the holdback plus one, among rules
  that only log or refuse, streams exactly the redacted whole response: no part of the
  token leaves before it is complete.\<close>

theorem streaming_redaction_complete:
  assumes "list_all transparent (pre @ post)" "redacts cr tok" "tok \<noteq> []" "length tok \<le> Suc h"
    and "push_all lower (with_holdback (pre @ cr # post) h) ds = (Inr cs, sf)"
    and "finish lower sf = (Inr (tail, r), sf')"
  shows "concat cs @ tail = replace_sub tok REDACTED (concat ds) \<and> released sf' = concat cs @ tail"
proof -
  note eq = stream_equals_whole[OF redact_stable[OF assms(1-4)] assms(5,6)]
  have "\<not> blocked r"
    using assms(6) by (auto simp: finish_def Let_def split: if_splits)
  then have "whole lower (pre @ cr # post) (concat ds) = replace_sub tok REDACTED (concat ds)"
    using eq(2) whole_unblocked[of lower "pre @ cr # post" "concat ds"] assms(1-3)
    by (simp add: transparent_fold redacts_text)
  then show ?thesis
    using eq by simp
qed

theorem streaming_redaction_complete_witness:
  "let f = [sample_rule (TokenBlocklist [utext_of ''42'']) Redact];
       out = push_all id (with_holdback f 2) [utext_of ''the answer to it is 4'', utext_of ''2 indeed'']
   in concat (projr (fst out)) @ fst (projr (fst (finish id (snd out)))) = utext_of ''the answer to it is [REDACTED] indeed''"
proof -
  let ?cr = "sample_rule (TokenBlocklist [utext_of ''42'']) Redact"
  let ?ds = "[utext_of ''the answer to it is 4'', utext_of ''2 indeed'']"
  let ?out = "push_all id (with_holdback ([] @ ?cr # []) 2) ?ds"
  have h: "list_all transparent ([] @ [])" "redacts ?cr (utext_of ''42'')" "utext_of ''42'' \<noteq> []"
    "length (utext_of ''42'') \<le> Suc 2"
    by code_simp+
  have o': "fst ?out = Inr [utext_of ''the answer to it is'', []]"
    by code_simp
  note o = Inr_pair[OF this]
  have f: "finish id (snd ?out) =
      (Inr (fst (projr (fst (finish id (snd ?out)))), snd (projr (fst (finish id (snd ?out))))), snd (finish id (snd ?out)))"
    by (rule Inr_pair_parts) code_simp
  have r: "replace_sub (utext_of ''42'') REDACTED (concat ?ds) = utext_of ''the answer to it is [REDACTED] indeed''"
    by code_simp
  show ?thesis
    using streaming_redaction_complete[OF h o f] o' unfolding Let_def r by simp
qed

text \<open>The holdback is the limit of that guarantee: for a blocked token more than
  sixteen characters longer than the holdback, a stream releases a prefix of the token
  although the whole-response filter replaces all of it.\<close>

theorem long_token_prefix_leaks:
  assumes "redacts cr tok" "h + MIN_REFILTER_STRIDE_CHARS \<le> n" "n < length tok"
  shows "fst (push lower (with_holdback [cr] h) (take n tok)) = Inr (take (n - h) tok)
    \<and> filtered (filter_text lower [cr] tok) = REDACTED"
proof -
  have t: "tok \<noteq> []" using assms(3) by auto
  have unb: "\<not> blocked (filter_text lower [cr] s)" for s
    using assms(1) by (auto simp: redacts_def filter_text_def apply_rule_def Let_def split: option.splits if_splits prod.splits)
  have w: "whole lower [cr] s = replace_sub tok REDACTED s" for s
    using whole_unblocked[OF unb] redacts_text[OF assms(1) t] by simp
  have "scan_is_due ((with_holdback [cr] h)\<lparr>raw := take n tok, raw_chars := n\<rparr>)"
    using assms(2) by (simp add: scan_is_due_def with_holdback_def MIN_REFILTER_STRIDE_CHARS_def)
  moreover have "filtered (filter_text lower [cr] (take n tok)) = take n tok"
    using w[of "take n tok"] assms(3) by (simp add: whole_def replace_sub_short)
  moreover have "filtered (filter_text lower [cr] tok) = REDACTED"
    using w[of tok] t replace_sub_hit[of tok tok REDACTED] by (simp add: whole_def begins_def)
  ultimately show ?thesis
    using assms(2,3) unb[of "take n tok"]
    by (simp add: push_def with_holdback_def Let_def MIN_REFILTER_STRIDE_CHARS_def)
qed

theorem long_token_prefix_leaks_witness:
  "fst (push id (with_holdback [sample_rule (TokenBlocklist [replicate 300 65]) Redact] 128) (replicate 200 65))
     = Inr (replicate 72 65)"
  using long_token_prefix_leaks[of "sample_rule (TokenBlocklist [replicate 300 65]) Redact" "replicate 300 65" 128 200 id]
  by (simp add: redacts_def sample_rule_def MIN_REFILTER_STRIDE_CHARS_def)

text \<open>A blocklist that truncates stops at the first listed token it finds, wherever
  that token stands: a later listed token occurring earlier in the text is released.\<close>

theorem truncation_spares_earlier_tokens:
  assumes "rule_type (compiled cr) = TokenBlocklist (a # toks)" "rule_action (compiled cr) = Truncate"
    and "a \<noteq> []" "find_sub a s = Some p" "b \<in> set toks" "contains_sub b (take p s)"
  shows "contains_sub b (filtered (filter_text lower [cr] s))"
  using assms by (simp add: filter_text_def apply_rule_def Let_def)

theorem truncation_spares_earlier_tokens_witness:
  "contains_sub (utext_of ''beta'') (filtered (filter_text id
     [sample_rule (TokenBlocklist [utext_of ''alpha'', utext_of ''beta'']) Truncate] (utext_of ''beta then alpha'')))"
  by (rule truncation_spares_earlier_tokens[of _ "utext_of ''alpha''" "[utext_of ''beta'']" _ 10])
    (code_simp+)

text \<open>C33. A response is refused exactly when a rule whose action is to return an error
  fired, and it is reported as triggered exactly when some rule fired.\<close>

theorem refused_iff_error_rule_fired:
  "blocked (filter_text lower f s) = list_ex (\<lambda>m. match_action m = ReturnError) (matches (filter_text lower f s))
   \<and> triggered (filter_text lower f s) = (matches (filter_text lower f s) \<noteq> [])"
  using apply_rules_verdict[of "(s, [], False)" lower f]
  by (auto simp: filter_text_def verdict_ok_def list_ex_iff split: prod.splits)

end
