(* ===== verification/Utf8.thy ===== *)
theory Utf8
  imports OutputFilter
begin

text \<open>
  UTF-8, the encoding of every Rust string: the bytes of a list of code points and the
  characters of a byte string.  The filter works on characters, everything else on bytes.
\<close>

definition utf8_char :: "nat \<Rightarrow> nat list" where
  "utf8_char c = (if c < 128 then [c]
     else if c < 2048 then [192 + c div 64, 128 + c mod 64]
     else if c < 65536 then [224 + c div 4096, 128 + c div 64 mod 64, 128 + c mod 64]
     else [240 + c div 262144, 128 + c div 4096 mod 64, 128 + c div 64 mod 64, 128 + c mod 64])"

fun utf8_chars :: "nat list \<Rightarrow> nat list" where
  "utf8_chars [] = []"
| "utf8_chars (b # bs) =
     (if b < 192 then b # utf8_chars bs
      else if b < 224 then (case bs of b1 # r \<Rightarrow> ((b - 192) * 64 + (b1 - 128)) # utf8_chars r | _ \<Rightarrow> [])
      else if b < 240 then (case bs of b1 # b2 # r \<Rightarrow>
             ((b - 224) * 4096 + (b1 - 128) * 64 + (b2 - 128)) # utf8_chars r | _ \<Rightarrow> [])
      else (case bs of b1 # b2 # b3 # r \<Rightarrow>
             ((b - 240) * 262144 + (b1 - 128) * 4096 + (b2 - 128) * 64 + (b3 - 128)) # utf8_chars r | _ \<Rightarrow> []))"

definition to_bytes :: "utext \<Rightarrow> string" where
  "to_bytes s = map char_of (concat (map utf8_char s))"

definition to_chars :: "string \<Rightarrow> utext" where
  "to_chars s = utf8_chars (map of_char s)"

definition unicode :: "utext \<Rightarrow> bool" where
  "unicode s \<longleftrightarrow> list_all (\<lambda>c. c < 1114112) s"

lemma split64: "c div 64 * 64 + c mod 64 = (c::nat)"
  by simp

lemma split4096: "c div 4096 * 4096 + c div 64 mod 64 * 64 + c mod 64 = (c::nat)"
proof -
  have "c div 4096 = c div 64 div 64" by (simp add: div_mult2_eq)
  then have "c div 4096 * 64 + c div 64 mod 64 = c div 64" by simp
  then show ?thesis using split64[of c] by linarith
qed

lemma split262144: "c div 262144 * 262144 + c div 4096 mod 64 * 4096 + c div 64 mod 64 * 64 + c mod 64 = (c::nat)"
proof -
  have "c div 262144 = c div 4096 div 64" by (simp add: div_mult2_eq)
  then have "c div 262144 * 64 + c div 4096 mod 64 = c div 4096" by simp
  then show ?thesis using split4096[of c] by linarith
qed

lemma utf8_chars_char: "c < 1114112 \<Longrightarrow> utf8_chars (utf8_char c @ rest) = c # utf8_chars rest"
  using split64[of c] split4096[of c] split262144[of c] less_mult_imp_div_less[of c 32 64]
    less_mult_imp_div_less[of c 16 4096] less_mult_imp_div_less[of c 5 262144]
  by (auto simp: utf8_char_def)

lemma utf8_char_byte: "c < 1114112 \<Longrightarrow> b \<in> set (utf8_char c) \<Longrightarrow> b < 256"
  by (auto simp: utf8_char_def split: if_splits)

lemma utf8_chars_concat: "unicode s \<Longrightarrow> utf8_chars (concat (map utf8_char s)) = s"
  by (induction s) (simp_all add: unicode_def utf8_chars_char)

text \<open>Characters written as bytes and read back are the same characters.\<close>

lemma to_chars_to_bytes: "unicode s \<Longrightarrow> to_chars (to_bytes s) = s"
proof -
  assume u: "unicode s"
  have "of_char (char_of b :: char) = b" if "b \<in> set (concat (map utf8_char s))" for b :: nat
    using that u utf8_char_byte by (fastforce simp: unicode_def list_all_iff)
  then have "map of_char (to_bytes s) = concat (map utf8_char s)"
    unfolding to_bytes_def map_map by (intro map_idI) simp
  then show ?thesis
    using utf8_chars_concat[OF u] by (simp add: to_chars_def)
qed

text \<open>The width used by the filter's byte offsets is the length of the encoding.\<close>

lemma length_to_bytes: "length (to_bytes s) = utf8_length s"
  by (induction s) (auto simp: to_bytes_def utf8_length_def utf8_width_def utf8_char_def)

end
