(* ===== verification/Parsing.thy ===== *)
theory Parsing
  imports Crypto
begin

text \<open>
  What the byte-level parsers share: sequencing of fallible steps (the \<^verbatim>\<open>?\<close> operator), the
  strict UTF-8 check of \<^verbatim>\<open>str::from_utf8\<close>, the number formats of their messages, and the
  contract of a reader that consumes a prefix of its input.
\<close>

subsection \<open>Sequencing\<close>

fun and_then :: "'e + 'a \<Rightarrow> ('a \<Rightarrow> 'e + 'b) \<Rightarrow> 'e + 'b" where
  "and_then (Inl e) f = Inl e"
| "and_then (Inr x) f = f x"

lemma and_then_cong [fundef_cong]:
  "m = m' \<Longrightarrow> (\<And>x. m' = Inr x \<Longrightarrow> f x = f' x) \<Longrightarrow> and_then m f = and_then m' f'"
  by (cases m') auto

lemma and_then_Inr_iff [simp]: "and_then m f = Inr y \<longleftrightarrow> (\<exists>x. m = Inr x \<and> f x = Inr y)"
  by (cases m) auto

lemma and_then_if: "and_then (if b then x else y) f = (if b then and_then x f else and_then y f)"
  by simp

text \<open>A check that only fails.\<close>

definition ensure :: "bool \<Rightarrow> 'e \<Rightarrow> 'e + unit" where
  "ensure b e = (if b then Inr () else Inl e)"

lemma ensure_Inr [simp]: "ensure b e = Inr u \<longleftrightarrow> b"
  by (simp add: ensure_def)

subsection \<open>Formats\<close>

definition show_int :: "int \<Rightarrow> string" where
  "show_int i = (if i < 0 then ''-'' @ show_nat (nat (- i)) else show_nat (nat i))"

text \<open>\<^verbatim>\<open>{:04X}\<close> and \<^verbatim>\<open>{:08X}\<close>: the width is that of the type formatted.\<close>

fun show_hex :: "nat \<Rightarrow> nat \<Rightarrow> string" where
  "show_hex 0 v = []"
| "show_hex (Suc k) v = show_hex k (v div 16) @ [''0123456789ABCDEF'' ! (v mod 16)]"

subsection \<open>UTF-8\<close>

definition continuation :: "nat \<Rightarrow> bool" where
  "continuation b \<longleftrightarrow> 128 \<le> b \<and> b < 192"

text \<open>The second byte after a lead byte that overlong forms, surrogates or the last plane restrict.\<close>

definition second_byte :: "nat \<Rightarrow> nat \<Rightarrow> bool" where
  "second_byte lead b \<longleftrightarrow> continuation b \<and> (lead = 224 \<longrightarrow> 160 \<le> b) \<and> (lead = 237 \<longrightarrow> b < 160)
     \<and> (lead = 240 \<longrightarrow> 144 \<le> b) \<and> (lead = 244 \<longrightarrow> b < 144)"

fun valid_utf8 :: "nat list \<Rightarrow> bool" where
  "valid_utf8 [] = True"
| "valid_utf8 (b # bs) =
     (if b < 128 then valid_utf8 bs
      else if 194 \<le> b \<and> b < 224 then (case bs of b1 # r \<Rightarrow> continuation b1 \<and> valid_utf8 r | _ \<Rightarrow> False)
      else if 224 \<le> b \<and> b < 240 then (case bs of b1 # b2 # r \<Rightarrow> second_byte b b1 \<and> continuation b2 \<and> valid_utf8 r | _ \<Rightarrow> False)
      else if 240 \<le> b \<and> b < 245 then (case bs of b1 # b2 # b3 # r \<Rightarrow>
        second_byte b b1 \<and> continuation b2 \<and> continuation b3 \<and> valid_utf8 r | _ \<Rightarrow> False)
      else False)"

definition from_utf8 :: "bytes \<Rightarrow> string option" where
  "from_utf8 bs = (if valid_utf8 (map unat bs) then Some (string_of_bytes bs) else None)"

subsection \<open>Readers\<close>

text \<open>
  A reader takes what is left of the input and returns a value with what is left after it.
  The contract: it consumes a prefix, and what it returns does not depend on what follows.
\<close>

locale prefix_reader =
  fixes rd :: "bytes \<Rightarrow> 'e + ('a \<times> bytes)"
  assumes consumes: "rd bs = Inr (x, rest) \<Longrightarrow> \<exists>used. bs = used @ rest"
    and local: "rd (used @ rest) = Inr (x, rest) \<Longrightarrow> rd (used @ rest') = Inr (x, rest')"
begin

lemma shrinks: "rd bs = Inr (x, rest) \<Longrightarrow> length rest \<le> length bs"
  using consumes by fastforce

lemma extend: "rd bs = Inr (x, rest) \<Longrightarrow> rd (bs @ tail) = Inr (x, rest @ tail)"
  using consumes local by (metis append_assoc)

end

end
