(* ===== verification/Bundle.thy ===== *)
theory Bundle
  imports ModelStore Utf8 Parsing
begin

text \<open>
  Sealing weights into a bundle and checking one, \<^verbatim>\<open>cordon-core/src/bundle.rs\<close>.

  The file system is explicit: a weight file is what its reads return, an output directory is
  the list of the files in it, and every step that can fail has its outcome in \<open>bundle_io\<close>.
  Random nonces, the generated identifier, the clock and serde are parameters as well.
\<close>

definition DEFAULT_SHARD_SIZE :: nat where "DEFAULT_SHARD_SIZE = 256 * 1024 * 1024"
definition WEIGHT_EXTENSIONS :: "string list" where
  "WEIGHT_EXTENSIONS = [''gguf'', ''safetensors'', ''bin'', ''pt'', ''pth'']"
definition READ_CHUNK :: nat where "READ_CHUNK = 8 * 1024 * 1024"

record SealRequest =
  sr_weights :: string
  sr_master :: string
  sr_principal :: string
  sr_bundle_id :: "string option"
  sr_model_name :: string
  sr_model_version :: string
  sr_output :: string
  sr_shard_size :: nat

datatype BundleEvent =
  Started string nat nat
| Progress nat nat
| Shard nat string nat nat "string option"

record VerifyReport =
  vr_bundle_id :: string
  vr_shards :: nat
  vr_decrypted :: bool
  vr_failures :: "string list"

definition report_passed :: "VerifyReport \<Rightarrow> bool" where
  "report_passed r \<longleftrightarrow> vr_failures r = []"

definition invalid :: "string \<Rightarrow> CordonError" where
  "invalid message = ValidationFailed message"

definition io_error :: "string \<Rightarrow> string \<Rightarrow> string \<Rightarrow> CordonError" where
  "io_error verb path e = Internal (''cannot '' @ verb @ '' '' @ path @ '': '' @ e)"

subsection \<open>Names\<close>

text \<open>Characters, not bytes, are mapped and counted.\<close>

definition name_char :: "nat \<Rightarrow> char" where
  "name_char c = (if c < 128 \<and> (is_ascii_alphanumeric (char_of c) \<or> char_of c \<in> {CHR ''-'', CHR ''_'', CHR ''.''}) then char_of c else CHR ''_'')"

definition sanitize :: "string \<Rightarrow> string" where
  "sanitize name = (let cleaned = take 64 (map name_char (to_chars name)) in if cleaned = [] then ''shard'' else cleaned)"

definition slug_step :: "string \<Rightarrow> nat \<Rightarrow> string" where
  "slug_step slug c = (if c < 128 \<and> (is_ascii_alphanumeric (char_of c) \<or> char_of c = CHR ''.'') then slug @ [to_lower_char (char_of c)]
     else if slug = [] \<or> last slug \<noteq> CHR ''-'' then slug @ ''-'' else slug)"

definition dash_or_dot :: "char \<Rightarrow> bool" where
  "dash_or_dot c \<longleftrightarrow> c = CHR ''-'' \<or> c = CHR ''.''"

definition trim_end_matches :: "(char \<Rightarrow> bool) \<Rightarrow> string \<Rightarrow> string" where
  "trim_end_matches p s = rev (dropWhile p (rev s))"

definition suggest_bundle_id :: "string \<Rightarrow> string \<Rightarrow> string" where
  "suggest_bundle_id simple_uuid model =
     (let slug = take 48 (trim_end_matches dash_or_dot (dropWhile dash_or_dot (foldl slug_step [] (to_chars (trim model)))));
          suffix = take 8 simple_uuid in
      if slug = [] then ''bundle-'' @ suffix else trim_end_matches dash_or_dot slug @ ''-'' @ suffix)"

text \<open>\<^verbatim>\<open>{:05}\<close>.\<close>

definition pad5 :: "nat \<Rightarrow> string" where
  "pad5 n = replicate (5 - length (show_nat n)) (CHR ''0'') @ show_nat n"

definition shard_file_name :: "nat \<Rightarrow> string \<Rightarrow> string" where
  "shard_file_name index name = pad5 index @ ''-'' @ sanitize name @ ''.enc''"

text \<open>A weight file's stem or a directory's name, as the path has it.\<close>

definition model_name_from_path :: "bool \<Rightarrow> string option \<Rightarrow> string option \<Rightarrow> string" where
  "model_name_from_path is_dir file_name file_stem =
     (case if is_dir then file_name else file_stem of
        None \<Rightarrow> ''model'' | Some s \<Rightarrow> if trim s = [] then ''model'' else s)"

definition decode_nonce :: "crypto_env \<Rightarrow> string \<Rightarrow> string + string" where
  "decode_nonce C s = (case b64_decode C s of
     Inl _ \<Rightarrow> Inl ''the nonce is not valid base64''
   | Inr b \<Rightarrow> if length b \<noteq> 12 then Inl (''the nonce must be 12 bytes, not '' @ show_nat (length b)) else Inr b)"

subsection \<open>The weights\<close>

text \<open>
  A weight file: its size as the directory tells it, whether it opens, its bytes, how many
  bytes each read is willing to return, and where a read fails if one does.
\<close>

record weight_file =
  wf_path :: string
  wf_name :: string
  wf_len :: nat
  wf_open :: "string option"
  wf_data :: string
  wf_grants :: "nat list"
  wf_fail :: "(nat \<times> string) option"

text \<open>A directory entry of the source: a path, whether it is a file, and its extension.\<close>

record source_entry =
  se_file :: weight_file
  se_is_file :: bool
  se_extension :: "string option"

definition is_weight :: "source_entry \<Rightarrow> bool" where
  "is_weight e \<longleftrightarrow> se_is_file e \<and> (case se_extension e of None \<Rightarrow> False | Some x \<Rightarrow> to_lower x \<in> set WEIGHT_EXTENSIONS)"

datatype weight_source = SingleFile weight_file | WeightDir "string + source_entry list"

fun insert_by_path :: "weight_file \<Rightarrow> weight_file list \<Rightarrow> weight_file list" where
  "insert_by_path f [] = [f]"
| "insert_by_path f (g # gs) = (if lexordp_eq (codes (wf_path f)) (codes (wf_path g)) then f # g # gs else g # insert_by_path f gs)"

definition collect_weight_files :: "string \<Rightarrow> weight_source \<Rightarrow> weight_file list CordonResult" where
  "collect_weight_files source s = (case s of
     SingleFile f \<Rightarrow> Inr [f]
   | WeightDir (Inl e) \<Rightarrow> Inl (io_error ''read'' source e)
   | WeightDir (Inr es) \<Rightarrow> Inr (foldr insert_by_path (map se_file (filter is_weight es)) []))"

subsection \<open>Sealing\<close>

text \<open>
  A write that fails says with what message and what it left in the file, if it made one;
  removing a directory may fail and keep some of its files.
\<close>

record bundle_io =
  bi_now :: datetime
  bi_uuid :: string
  bi_pkg_version :: string
  bi_cancel :: "nat \<Rightarrow> bool"
  bi_nonce :: "nat \<Rightarrow> string"
  bi_create_output :: "string option"
  bi_create_shards :: "string option"
  bi_write_shard :: "nat \<Rightarrow> (string \<times> string option) option"
  bi_to_json :: "BundleManifest \<Rightarrow> string + string"
  bi_write_manifest :: "(string \<times> string option) option"
  bi_rename_manifest :: "string option"
  bi_remove_output :: "(string \<Rightarrow> bool) option"

type_synonym dir_files = "(string \<times> string) list"

text \<open>What a seal has done so far: polls of the cancel flag, bytes read, events, shards,
  bytes hashed, the next shard's index, and the files written.\<close>

record seal_state =
  ss_polls :: nat
  ss_done :: nat
  ss_events :: "BundleEvent list"
  ss_shards :: "ShardDescriptor list"
  ss_hashed :: string
  ss_index :: nat
  ss_files :: dir_files

record reader =
  rd_rest :: string
  rd_grants :: "nat list"
  rd_fail :: "(nat \<times> string) option"

text \<open>One \<^verbatim>\<open>read\<close>: at least one byte unless the file is at its end, at most what is asked.\<close>

definition read_some :: "nat \<Rightarrow> reader \<Rightarrow> string + (string \<times> reader)" where
  "read_some want r = (case rd_fail r of
     Some (0, e) \<Rightarrow> Inl e
   | f \<Rightarrow> let g = (case rd_grants r of [] \<Rightarrow> want | g # _ \<Rightarrow> max 1 g);
            n = min (min want g) (case f of Some (k, _) \<Rightarrow> k | None \<Rightarrow> want) in
       Inr (take n (rd_rest r), \<lparr>rd_rest = drop n (rd_rest r), rd_grants = drop 1 (rd_grants r),
         rd_fail = map_option (\<lambda>(k, e). (k - n, e)) f\<rparr>))"

function fill :: "bundle_io \<Rightarrow> nat \<Rightarrow> nat \<Rightarrow> string \<Rightarrow> string \<Rightarrow> reader \<Rightarrow> seal_state \<Rightarrow> (string \<times> reader) CordonResult \<times> seal_state" where
  "fill io tot sz path buf r s =
     (if length buf < sz
      then if bi_cancel io (ss_polls s) then (Inl (Internal ''cancelled''), s\<lparr>ss_polls := Suc (ss_polls s)\<rparr>)
        else let s1 = s\<lparr>ss_polls := Suc (ss_polls s)\<rparr>; stop = min (length buf + READ_CHUNK) sz in
        (case read_some (stop - length buf) r of
           Inl e \<Rightarrow> (Inl (io_error ''read'' path e), s1)
         | Inr (chunk, r1) \<Rightarrow>
             if chunk = [] then (Inr (buf, r1), s1)
             else let d = ss_done s1 + length chunk in
               fill io tot sz path (buf @ chunk) r1 (s1\<lparr>ss_done := d, ss_events := ss_events s1 @ [Progress d tot]\<rparr>))
      else (Inr (buf, r), s))"
  by pat_completeness auto

termination
  by (relation "measure (\<lambda>(io, tot, sz, path, buf, r, s). sz - length buf)") (auto intro!: diff_less_mono2)

declare fill.simps [simp del]

definition leave :: "string \<Rightarrow> string option \<Rightarrow> dir_files \<Rightarrow> dir_files" where
  "leave path left fs = (case left of None \<Rightarrow> fs | Some bs \<Rightarrow> AList.update path bs fs)"

definition seal_shard :: "crypto_env \<Rightarrow> bundle_io \<Rightarrow> string \<Rightarrow> string \<Rightarrow> string \<Rightarrow> string \<Rightarrow> seal_state \<Rightarrow> unit CordonResult \<times> seal_state" where
  "seal_shard C io output bundle_key name plaintext s =
     (let s1 = s\<lparr>ss_hashed := ss_hashed s @ plaintext\<rparr>; i = ss_index s in
      case derive_shard_key C bundle_key i of
        Inl e \<Rightarrow> (Inl (KeyError (crypto_error_to_string e)), s1)
      | Inr key \<Rightarrow>
        let nonce = bi_nonce io i in
        (case encrypt_shard C key plaintext nonce of
           Inl e \<Rightarrow> (Inl (Internal (''encryption failed: '' @ crypto_error_to_string e)), s1)
         | Inr ct \<Rightarrow>
           let relative = ''shards/'' @ shard_file_name i name in
           (case bi_write_shard io i of
              Some (e, left) \<Rightarrow> (Inl (io_error ''write'' (output @ ''/'' @ relative) e), s1\<lparr>ss_files := leave relative left (ss_files s1)\<rparr>)
            | None \<Rightarrow>
              let sh = \<lparr>shard_path = relative, shard_plaintext_sha256 = digest_hex C plaintext, shard_ciphertext_sha256 = digest_hex C ct,
                    iv_base64 = b64_encode C nonce, shard_size_bytes = length plaintext, layer_index = i\<rparr>
              in (Inr (), s1\<lparr>ss_shards := ss_shards s1 @ [sh], ss_index := wrap_u32 (Suc i),
                   ss_files := AList.update relative ct (ss_files s1),
                   ss_events := ss_events s1 @ [Shard i relative (length plaintext) (length ct) None]\<rparr>))))"

lemma read_some_consumes:
  "read_some want r = Inr (chunk, r1) \<Longrightarrow> rd_rest r = chunk @ rd_rest r1"
  by (auto simp: read_some_def Let_def split: option.splits prod.splits nat.splits)

lemma fill_consumes:
  "fill io tot sz path buf r s = (Inr (pt, r1), s1) \<Longrightarrow> buf @ rd_rest r = pt @ rd_rest r1"
proof (induction io tot sz path buf r s rule: fill.induct)
  case (1 io tot sz path buf r s)
  from "1.prems" show ?case
    by (subst (asm) fill.simps) (auto simp: Let_def read_some_consumes dest!: "1.IH" split: if_splits sum.splits)
qed

function seal_file :: "crypto_env \<Rightarrow> bundle_io \<Rightarrow> string \<Rightarrow> string \<Rightarrow> nat \<Rightarrow> nat \<Rightarrow> string \<Rightarrow> string \<Rightarrow> reader \<Rightarrow> seal_state
   \<Rightarrow> unit CordonResult \<times> seal_state" where
  "seal_file C io output bk tot sz path name r s =
     (case fill io tot sz path [] r s of
        (Inl e, s1) \<Rightarrow> (Inl e, s1)
      | (Inr (pt, r1), s1) \<Rightarrow>
        if pt = [] then (Inr (), s1)
        else (case seal_shard C io output bk name pt s1 of
          (Inl e, s2) \<Rightarrow> (Inl e, s2)
        | (Inr _, s2) \<Rightarrow> if length pt < sz then (Inr (), s2) else seal_file C io output bk tot sz path name r1 s2))"
  by pat_completeness auto

termination
proof (relation "measure (\<lambda>(C, io, output, bk, tot, sz, path, name, r, s). length (rd_rest r))", goal_cases)
  case (2 C io out_dir bk tot sz path name r s res s1 pr pt r1 out s2 u)
  then have "rd_rest r = pt @ rd_rest r1" using fill_consumes[of io tot sz path "[]" r s pt r1 s1] by simp
  then show ?case using 2 by simp
qed simp

declare seal_file.simps [simp del]

fun seal_files :: "crypto_env \<Rightarrow> bundle_io \<Rightarrow> string \<Rightarrow> string \<Rightarrow> nat \<Rightarrow> nat \<Rightarrow> weight_file list \<Rightarrow> seal_state
   \<Rightarrow> unit CordonResult \<times> seal_state" where
  "seal_files C io output bk tot sz [] s = (Inr (), s)"
| "seal_files C io output bk tot sz (f # fs) s = (case wf_open f of
     Some e \<Rightarrow> (Inl (io_error ''open'' (wf_path f) e), s)
   | None \<Rightarrow> (case seal_file C io output bk tot sz (wf_path f) (wf_name f)
         \<lparr>rd_rest = wf_data f, rd_grants = wf_grants f, rd_fail = wf_fail f\<rparr> s of
       (Inl e, s1) \<Rightarrow> (Inl e, s1)
     | (Inr _, s1) \<Rightarrow> seal_files C io output bk tot sz fs s1))"

definition seal_manifest :: "crypto_env \<Rightarrow> bundle_io \<Rightarrow> SealRequest \<Rightarrow> string \<Rightarrow> string \<Rightarrow> string \<Rightarrow> seal_state \<Rightarrow> BundleManifest" where
  "seal_manifest C io rq bid princ name s = \<lparr>bundle_id = bid, model_name = name, model_version = trim (sr_model_version rq),
     created_at = bi_now io, encryption_algorithm = REQUIRED_ENCRYPTION_ALGORITHM, key_derivation = REQUIRED_KEY_DERIVATION,
     client_key_id = princ, shards = ss_shards s, total_plaintext_sha256 = digest_hex C (ss_hashed s),
     minimum_requirements = \<lparr>req_cordon_version = bi_pkg_version io,
       req_tee = \<lparr>sgx_isv_svn_min = None, sev_snp_api_min = None\<rparr>,
       req_hardware = \<lparr>min_gpu_vram_gb = 0, min_ram_gb = 4, ecc_memory_required = False\<rparr>\<rparr>,
     policy_hash = digest_hex C ''cordon-default-policy-v1'', vendor_signature = [], client_approval_signature = []\<rparr>"

definition write_synced_error :: "string \<Rightarrow> string \<Rightarrow> string option \<Rightarrow> CordonError" where
  "write_synced_error path e left = (case left of None \<Rightarrow> io_error ''create'' path e | Some _ \<Rightarrow> io_error ''write'' path e)"

definition write_manifest :: "bundle_io \<Rightarrow> string \<Rightarrow> BundleManifest \<Rightarrow> seal_state \<Rightarrow> BundleManifest CordonResult \<times> seal_state" where
  "write_manifest io output m s = (case bi_to_json io m of
     Inl e \<Rightarrow> (Inl (Internal (''cannot serialise the manifest: '' @ e)), s)
   | Inr bs \<Rightarrow> (case bi_write_manifest io of
       Some (e, left) \<Rightarrow> (Inl (write_synced_error (output @ ''/manifest.json.tmp'') e left),
         s\<lparr>ss_files := leave ''manifest.json.tmp'' left (ss_files s)\<rparr>)
     | None \<Rightarrow> let s1 = s\<lparr>ss_files := AList.update ''manifest.json.tmp'' bs (ss_files s)\<rparr> in
       (case bi_rename_manifest io of
          Some e \<Rightarrow> (Inl (io_error ''write'' (output @ ''/manifest.json'') e), s1)
        | None \<Rightarrow> (Inr m, s1\<lparr>ss_files := AList.update ''manifest.json'' bs (AList.delete ''manifest.json.tmp'' (ss_files s1))\<rparr>))))"

definition seal_bundle_id :: "bundle_io \<Rightarrow> SealRequest \<Rightarrow> string" where
  "seal_bundle_id io rq = (case sr_bundle_id rq of
     None \<Rightarrow> bi_uuid io | Some b \<Rightarrow> if trim b = [] then bi_uuid io else trim b)"

definition seal_start :: seal_state where
  "seal_start = \<lparr>ss_polls = 0, ss_done = 0, ss_events = [], ss_shards = [], ss_hashed = [], ss_index = 0, ss_files = []\<rparr>"

definition seal_into :: "crypto_env \<Rightarrow> bundle_io \<Rightarrow> SealRequest \<Rightarrow> string \<Rightarrow> string \<Rightarrow> weight_file list \<Rightarrow> nat
   \<Rightarrow> BundleManifest CordonResult \<times> seal_state" where
  "seal_into C io rq princ name files tot =
     (let bid = seal_bundle_id io rq; output = sr_output rq in
      if \<not> is_safe_bundle_id bid
      then (Inl (invalid (''a bundle ID may contain only letters, digits, '' @ quoted ''.'' @ '', '' @ quoted ''-'' @ '' and '' @ quoted ''_'')), seal_start)
      else (case derive_bundle_key C (sr_master rq) bid princ of
        Inl e \<Rightarrow> (Inl (KeyError (crypto_error_to_string e)), seal_start)
      | Inr bk \<Rightarrow> (case bi_create_shards io of
          Some e \<Rightarrow> (Inl (io_error ''create'' (output @ ''/shards'') e), seal_start)
        | None \<Rightarrow> (case seal_files C io output bk tot (sr_shard_size rq) files
              (seal_start\<lparr>ss_events := [Started bid tot (length files)]\<rparr>) of
            (Inl e, s) \<Rightarrow> (Inl e, s)
          | (Inr _, s) \<Rightarrow> let m = seal_manifest C io rq bid princ name s in
              (case validate_structure C m of
                 Inl e \<Rightarrow> (Inl e, s)
               | Inr _ \<Rightarrow> write_manifest io output m s)))))"

text \<open>The output directory before a seal: unreadable, absent, or there with some entries.\<close>

datatype output_dir = OutputUnreadable string | OutputAbsent | OutputPresent dir_files

definition prepare_output :: "bundle_io \<Rightarrow> string \<Rightarrow> output_dir \<Rightarrow> bool CordonResult" where
  "prepare_output io output d = (case d of
     OutputPresent fs \<Rightarrow> if fs \<noteq> [] then Inl (invalid (output @ '' already exists and is not empty; choose a new folder'')) else Inr False
   | OutputAbsent \<Rightarrow> (case bi_create_output io of Some e \<Rightarrow> Inl (io_error ''create'' output e) | None \<Rightarrow> Inr True)
   | OutputUnreadable e \<Rightarrow> Inl (io_error ''read'' output e))"

fun join_comma_space :: "string list \<Rightarrow> string" where
  "join_comma_space [] = []"
| "join_comma_space [s] = s"
| "join_comma_space (s # ss) = s @ '', '' @ join_comma_space ss"

definition remove_output :: "bundle_io \<Rightarrow> dir_files \<Rightarrow> output_dir" where
  "remove_output io fs = (case bi_remove_output io of None \<Rightarrow> OutputAbsent | Some kept \<Rightarrow> OutputPresent (filter (\<lambda>(p, _). kept p) fs))"

definition seal :: "crypto_env \<Rightarrow> bundle_io \<Rightarrow> SealRequest \<Rightarrow> weight_source \<Rightarrow> output_dir \<Rightarrow> BundleManifest CordonResult \<times> output_dir" where
  "seal C io rq src d =
     (let princ = trim (sr_principal rq); name = trim (sr_model_name rq) in
      if sr_shard_size rq = 0 then (Inl (invalid ''shard size must be greater than zero''), d)
      else if princ = [] then (Inl (invalid ''the key principal must not be empty''), d)
      else if name = [] then (Inl (invalid ''the model name must not be empty''), d)
      else (case collect_weight_files (sr_weights rq) src of
        Inl e \<Rightarrow> (Inl e, d)
      | Inr files \<Rightarrow>
        if files = [] then (Inl (invalid (''no weight files found in '' @ sr_weights rq @ ''. Expected one of: '' @ join_comma_space WEIGHT_EXTENSIONS)), d)
        else (case prepare_output io (sr_output rq) d of
          Inl e \<Rightarrow> (Inl e, d)
        | Inr created \<Rightarrow> (case seal_into C io rq princ name files (sum_list (map wf_len files)) of
            (Inr m, s) \<Rightarrow> (Inr m, OutputPresent (ss_files s))
          | (Inl e, s) \<Rightarrow> (Inl e, if created then remove_output io (ss_files s) else OutputPresent (ss_files s))))))"

subsection \<open>Checking\<close>

definition read_manifest :: "(string \<Rightarrow> string + BundleManifest) \<Rightarrow> string \<Rightarrow> shard_disk \<Rightarrow> BundleManifest CordonResult" where
  "read_manifest of_json dir disk = (let path = join_path dir ''manifest.json'' in case disk path of
     None \<Rightarrow> Inl (io_error ''read'' path ''No such file or directory (os error 2)'')
   | Some (Unreadable e) \<Rightarrow> Inl (io_error ''read'' path e)
   | Some (Readable c) \<Rightarrow> if \<not> valid_utf8 (codes c) then Inl (io_error ''read'' path ''stream did not contain valid UTF-8'')
     else (case of_json c of
       Inl e \<Rightarrow> Inl (ValidationFailed (path @ '' is not a bundle manifest: '' @ e)) | Inr m \<Rightarrow> Inr m))"

definition check_shard :: "crypto_env \<Rightarrow> shard_disk \<Rightarrow> string \<Rightarrow> nat \<Rightarrow> ShardDescriptor \<Rightarrow> string option \<Rightarrow> string + string option" where
  "check_shard C disk dir index sh key = (case disk (join_path dir (shard_path sh)) of
     None \<Rightarrow> Inl ''missing''
   | Some (Unreadable e) \<Rightarrow> Inl (''unreadable: '' @ e)
   | Some (Readable ct) \<Rightarrow>
     if digest_hex C ct \<noteq> shard_ciphertext_sha256 sh then Inl ''ciphertext does not match the manifest''
     else (case key of None \<Rightarrow> Inr None
       | Some bk \<Rightarrow> (case derive_shard_key C bk index of
           Inl e \<Rightarrow> Inl (crypto_error_to_string e)
         | Inr k \<Rightarrow> (case decode_nonce C (iv_base64 sh) of
             Inl e \<Rightarrow> Inl e
           | Inr nonce \<Rightarrow> (case decrypt_shard C k ct nonce of
               Inl _ \<Rightarrow> Inl ''cannot be decrypted: wrong key or principal, or tampered''
             | Inr pt \<Rightarrow> if digest_hex C pt \<noteq> shard_plaintext_sha256 sh then Inl ''plaintext does not match the manifest''
                 else Inr (Some pt))))))"

text \<open>The loop over shards: what failed, what was decrypted, and the events.\<close>

fun verify_shards :: "crypto_env \<Rightarrow> (nat \<Rightarrow> bool) \<Rightarrow> shard_disk \<Rightarrow> string \<Rightarrow> string option \<Rightarrow> nat \<Rightarrow> nat \<Rightarrow> nat \<Rightarrow> ShardDescriptor list
   \<Rightarrow> string list \<Rightarrow> string \<Rightarrow> BundleEvent list \<Rightarrow> (string list \<times> string) CordonResult \<times> BundleEvent list" where
  "verify_shards C cancel disk dir key tot dn i [] fails acc ev = (Inr (fails, acc), ev)"
| "verify_shards C cancel disk dir key tot dn i (sh # shs) fails acc ev =
     (if cancel i then (Inl (Internal ''cancelled''), ev)
      else let r = check_shard C disk dir (wrap_u32 i) sh key;
        problem = (case r of Inl p \<Rightarrow> Some p | Inr _ \<Rightarrow> None);
        acc1 = (case r of Inr (Some pt) \<Rightarrow> acc @ pt | _ \<Rightarrow> acc);
        fails1 = (case problem of Some p \<Rightarrow> fails @ [''shard '' @ show_nat i @ '' ('' @ shard_path sh @ ''): '' @ p] | None \<Rightarrow> fails);
        dn1 = wrap_u64 (dn + shard_size_bytes sh);
        ev1 = ev @ [Shard (wrap_u32 i) (shard_path sh) (shard_size_bytes sh) (wrap_u64 (shard_size_bytes sh + 16)) problem, Progress dn1 tot] in
      verify_shards C cancel disk dir key tot dn1 (Suc i) shs fails1 acc1 ev1)"

definition verify_bundle :: "crypto_env \<Rightarrow> (string \<Rightarrow> string + BundleManifest) \<Rightarrow> (nat \<Rightarrow> bool) \<Rightarrow> shard_disk \<Rightarrow> string
   \<Rightarrow> (string \<times> string) option \<Rightarrow> VerifyReport CordonResult \<times> BundleEvent list" where
  "verify_bundle C of_json cancel disk dir key = (case read_manifest of_json dir disk of
     Inl e \<Rightarrow> (Inl e, [])
   | Inr m \<Rightarrow> (case validate_structure C m of
       Inl e \<Rightarrow> (Inl e, [])
     | Inr _ \<Rightarrow> (case (case key of None \<Rightarrow> Inr None
           | Some (master, princ) \<Rightarrow> (case derive_bundle_key C master (bundle_id m) princ of Inl e \<Rightarrow> Inl e | Inr k \<Rightarrow> Inr (Some k))) of
         Inl e \<Rightarrow> (Inl (KeyError (crypto_error_to_string e)), [])
       | Inr bk \<Rightarrow>
         let tot = wrap_u64 (sum_list (map shard_size_bytes (shards m))) in
         (case verify_shards C cancel disk dir bk tot 0 0 (shards m) [] [] [Started (bundle_id m) tot (length (shards m))] of
            (Inl e, ev) \<Rightarrow> (Inl e, ev)
          | (Inr (fails, plain), ev) \<Rightarrow>
            (Inr \<lparr>vr_bundle_id = bundle_id m, vr_shards = length (shards m), vr_decrypted = (bk \<noteq> None),
               vr_failures = (if bk \<noteq> None \<and> fails = [] \<and> digest_hex C plain \<noteq> total_plaintext_sha256 m
                 then [''the whole-model digest does not match the manifest''] else fails)\<rparr>, ev)))))"
subsection \<open>Shard names are distinct\<close>

definition decimal :: "string \<Rightarrow> nat" where
  "decimal s = foldl (\<lambda>acc c. acc * 10 + (of_char c - 48)) 0 s"

lemma decimal_show_nat: "decimal (show_nat n) = n"
proof (induction n rule: show_nat.induct)
  case (1 n)
  have d: "of_char (char_of (48 + k) :: char) - 48 = k" if "k < 10" for k :: nat
    using that by (simp add: of_char_mod_256)
  show ?case
    using 1 d[of n] d[of "n mod 10"] by (subst show_nat.simps) (auto simp: decimal_def)
qed

lemma decimal_zeros: "decimal (replicate k (CHR ''0'') @ s) = decimal s"
  by (induction k) (simp_all add: decimal_def)

lemma show_nat_no_dash: "CHR ''-'' \<notin> set (show_nat n)"
proof (induction n rule: show_nat.induct)
  case (1 n)
  have d: "CHR ''-'' \<noteq> char_of (48 + k)" if "k < 10" for k :: nat
  proof
    assume "CHR ''-'' = char_of (48 + k)"
    then have "(of_char (CHR ''-'') :: nat) = of_char (char_of (48 + k) :: char)" by simp
    then show False using that by (simp add: of_char_mod_256)
  qed
  show ?case using 1 d[of n] d[of "n mod 10"] by (subst show_nat.simps) auto
qed

lemma pad5_inj: "pad5 m = pad5 n \<Longrightarrow> m = n"
  using decimal_zeros decimal_show_nat unfolding pad5_def by metis

lemma pad5_no_dash: "CHR ''-'' \<notin> set (pad5 n)"
  using show_nat_no_dash by (simp add: pad5_def)

lemma shard_file_name_inj:
  assumes "shard_file_name m a = shard_file_name n b"
  shows "m = n"
proof -
  have t: "takeWhile (\<lambda>c. c \<noteq> CHR ''-'') (shard_file_name k c) = pad5 k" for k c
    using pad5_no_dash[of k] unfolding shard_file_name_def
    by (subst takeWhile_append2) (auto simp: takeWhile_eq_all_conv)
  show ?thesis using t[of m a] t[of n b] assms pad5_inj by simp
qed

subsection \<open>What a seal writes\<close>

text \<open>The state's fields that reading leaves alone.\<close>

lemma fill_frame:
  "fill io tot sz path buf r s = (res, s1) \<Longrightarrow>
   ss_shards s1 = ss_shards s \<and> ss_hashed s1 = ss_hashed s \<and> ss_index s1 = ss_index s \<and> ss_files s1 = ss_files s"
proof (induction io tot sz path buf r s rule: fill.induct)
  case (1 io tot sz path buf r s)
  from "1.prems" show ?case
    by (subst (asm) fill.simps) (auto simp: Let_def dest!: "1.IH" split: if_splits sum.splits)
qed

lemma read_some_empty: "read_some want r = Inr ([], r1) \<Longrightarrow> 0 < want \<Longrightarrow> rd_rest r = []"
  by (auto simp: read_some_def Let_def split: option.splits prod.splits nat.splits list.splits)

text \<open>A short shard is the end of its file.\<close>

lemma fill_short:
  "fill io tot sz path buf r s = (Inr (pt, r1), s1) \<Longrightarrow> length pt < sz \<Longrightarrow> rd_rest r1 = []"
proof (induction io tot sz path buf r s rule: fill.induct)
  case (1 io tot sz path buf r s)
  show ?case
  proof (cases "length buf < sz")
    case False
    then show ?thesis using "1.prems" by (simp add: fill.simps[of io tot sz path buf])
  next
    case True
    then have nc: "\<not> bi_cancel io (ss_polls s)" using "1.prems"(1) by (auto simp: fill.simps[of io tot sz path buf])
    let ?want = "min (length buf + READ_CHUNK) sz - length buf"
    have w: "0 < ?want" using True by (simp add: READ_CHUNK_def)
    obtain chunk r2 where rd: "read_some ?want r = Inr (chunk, r2)"
      using "1.prems"(1) True nc by (auto simp: fill.simps[of io tot sz path buf] Let_def split: sum.splits)
    show ?thesis
    proof (cases "chunk = []")
      case True
      then have "r2 = r1" using "1.prems"(1) rd nc \<open>length buf < sz\<close> by (simp add: fill.simps[of io tot sz path buf])
      then show ?thesis using True read_some_empty[of ?want r r2] read_some_consumes[OF rd] rd w by simp
    next
      case False
      show ?thesis
        using "1.IH"[OF True nc refl refl rd refl False refl] "1.prems" rd nc True False
        by (simp add: fill.simps[of io tot sz path buf] Let_def)
    qed
  qed
qed

definition shard_sealed :: "crypto_env \<Rightarrow> bundle_io \<Rightarrow> string \<Rightarrow> dir_files \<Rightarrow> nat \<Rightarrow> ShardDescriptor \<Rightarrow> string \<Rightarrow> bool" where
  "shard_sealed C io bk fs i sh pt \<longleftrightarrow> (\<exists>ct key nm. map_of fs (shard_path sh) = Some ct
     \<and> shard_path sh = ''shards/'' @ shard_file_name i nm \<and> derive_shard_key C bk i = Inr key
     \<and> encrypt_shard C key pt (bi_nonce io i) = Inr ct \<and> shard_plaintext_sha256 sh = digest_hex C pt
     \<and> shard_ciphertext_sha256 sh = digest_hex C ct \<and> iv_base64 sh = b64_encode C (bi_nonce io i))"

text \<open>Every shard so far can be recovered, and together they are what was hashed.\<close>

definition sealed_so_far :: "crypto_env \<Rightarrow> bundle_io \<Rightarrow> string \<Rightarrow> seal_state \<Rightarrow> bool" where
  "sealed_so_far C io bk s \<longleftrightarrow> (length (ss_shards s) < 4294967296 \<longrightarrow> ss_index s = length (ss_shards s) \<and>
     (\<exists>pts. length pts = length (ss_shards s) \<and> concat pts = ss_hashed s \<and>
       (\<forall>i < length pts. shard_sealed C io bk (ss_files s) i (ss_shards s ! i) (pts ! i))))
   \<and> list_all (\<lambda>(p, _). take 7 p = ''shards/'') (ss_files s)"

lemma seal_shard_step:
  assumes "seal_shard C io out bk name pt s = (Inr (), s1)" "sealed_so_far C io bk s"
  shows "sealed_so_far C io bk s1 \<and> ss_hashed s1 = ss_hashed s @ pt"
proof -
  obtain key ct where k: "derive_shard_key C bk (ss_index s) = Inr key"
    and e: "encrypt_shard C key pt (bi_nonce io (ss_index s)) = Inr ct"
    and s1: "s1 = s\<lparr>ss_hashed := ss_hashed s @ pt, ss_shards := ss_shards s @
         [\<lparr>shard_path = ''shards/'' @ shard_file_name (ss_index s) name, shard_plaintext_sha256 = digest_hex C pt,
           shard_ciphertext_sha256 = digest_hex C ct, iv_base64 = b64_encode C (bi_nonce io (ss_index s)),
           shard_size_bytes = length pt, layer_index = ss_index s\<rparr>],
       ss_index := wrap_u32 (Suc (ss_index s)),
       ss_files := AList.update (''shards/'' @ shard_file_name (ss_index s) name) ct (ss_files s),
       ss_events := ss_events s @ [Shard (ss_index s) (''shards/'' @ shard_file_name (ss_index s) name) (length pt) (length ct) None]\<rparr>"
    using assms(1) by (auto simp: seal_shard_def Let_def split: sum.splits option.splits)
  let ?n = "length (ss_shards s)"
  have paths: "list_all (\<lambda>(p, _). take 7 p = ''shards/'') (ss_files s1)"
    using assms(2) s1 by (auto simp: sealed_so_far_def intro!: list_all_update)
  moreover have "ss_index s1 = length (ss_shards s1) \<and> (\<exists>pts. length pts = length (ss_shards s1) \<and> concat pts = ss_hashed s1 \<and>
      (\<forall>i < length pts. shard_sealed C io bk (ss_files s1) i (ss_shards s1 ! i) (pts ! i)))"
    if l: "length (ss_shards s1) < 4294967296"
  proof -
    have n: "Suc ?n < 4294967296" using l s1 by simp
    then obtain pts where p: "ss_index s = ?n" "length pts = ?n" "concat pts = ss_hashed s"
      "\<forall>i < length pts. shard_sealed C io bk (ss_files s) i (ss_shards s ! i) (pts ! i)"
      using assms(2) by (auto simp: sealed_so_far_def)
    have old: "shard_sealed C io bk (ss_files s1) i (ss_shards s ! i) (pts ! i)" if "i < ?n" for i
    proof -
      from p(2,4) that obtain c kk nm where o: "map_of (ss_files s) (shard_path (ss_shards s ! i)) = Some c"
        "shard_path (ss_shards s ! i) = ''shards/'' @ shard_file_name i nm"
        "derive_shard_key C bk i = Inr kk" "encrypt_shard C kk (pts ! i) (bi_nonce io i) = Inr c"
        "shard_plaintext_sha256 (ss_shards s ! i) = digest_hex C (pts ! i)"
        "shard_ciphertext_sha256 (ss_shards s ! i) = digest_hex C c" "iv_base64 (ss_shards s ! i) = b64_encode C (bi_nonce io i)"
        by (auto simp: shard_sealed_def)
      have "''shards/'' @ shard_file_name (ss_index s) name \<noteq> shard_path (ss_shards s ! i)"
        using o(2) shard_file_name_inj that p(1) by auto
      then have "map_of (ss_files s1) (shard_path (ss_shards s ! i)) = Some c"
        using o(1) s1 by (simp add: update_conv')
      then show ?thesis using o unfolding shard_sealed_def by blast
    qed
    have new: "shard_sealed C io bk (ss_files s1) ?n (ss_shards s1 ! ?n) pt"
      unfolding shard_sealed_def by (intro exI[of _ ct] exI[of _ key] exI[of _ name]) (use k e p(1) s1 in \<open>simp add: nth_append update_conv'\<close>)
    have "shard_sealed C io bk (ss_files s1) i (ss_shards s1 ! i) ((pts @ [pt]) ! i)" if "i < Suc ?n" for i
      using that old new p(2) s1 by (cases "i = ?n") (auto simp: nth_append)
    then show ?thesis
      using p n s1 by (intro conjI exI[of _ "pts @ [pt]"]) simp_all
  qed
  ultimately show ?thesis using s1 by (simp add: sealed_so_far_def)
qed
lemma sealed_so_far_frame:
  "ss_shards s1 = ss_shards s \<and> ss_hashed s1 = ss_hashed s \<and> ss_index s1 = ss_index s \<and> ss_files s1 = ss_files s \<Longrightarrow>
   sealed_so_far C io bk s1 = sealed_so_far C io bk s"
  by (simp add: sealed_so_far_def)

lemma seal_file_step:
  assumes "seal_file C io out bk tot sz path name r s = (Inr (), s1)" "sealed_so_far C io bk s" "0 < sz"
  shows "sealed_so_far C io bk s1 \<and> ss_hashed s1 = ss_hashed s @ rd_rest r"
  using assms
proof (induction C io out bk tot sz path name r s rule: seal_file.induct)
  case (1 C io out bk tot sz path name r s)
  obtain pt r1 s2 where f: "fill io tot sz path [] r s = (Inr (pt, r1), s2)"
    using "1.prems"(1) by (auto simp: seal_file.simps[of C io out] split: prod.splits sum.splits)
  note fr = fill_frame[OF f] and c = fill_consumes[OF f, unfolded append_Nil]
  have inv: "sealed_so_far C io bk s2" using "1.prems"(2) sealed_so_far_frame[OF fr] by simp
  show ?case
  proof (cases "pt = []")
    case True
    then have "s1 = s2" using "1.prems"(1) f by (simp add: seal_file.simps[of C io out])
    then show ?thesis using fill_short[OF f] True c inv fr "1.prems"(3) by simp
  next
    case False
    then obtain s3 where sh: "seal_shard C io out bk name pt s2 = (Inr (), s3)"
      using "1.prems"(1) f by (auto simp: seal_file.simps[of C io out] split: prod.splits sum.splits)
    note st = seal_shard_step[OF sh inv]
    show ?thesis
    proof (cases "length pt < sz")
      case True
      then have "s1 = s3" using "1.prems"(1) f sh False by (simp add: seal_file.simps[of C io out])
      then show ?thesis using st fill_short[OF f True] c fr by simp
    next
      case nl: False
      have "seal_file C io out bk tot sz path name r1 s3 = (Inr (), s1)"
        using "1.prems"(1) f sh False nl by (simp add: seal_file.simps[of C io out bk tot sz path name r])
      from "1.IH"[OF f[symmetric] refl refl False sh[symmetric] refl nl this] st "1.prems"(3) show ?thesis using c fr by simp
    qed
  qed
qed

lemma seal_files_step:
  "seal_files C io out bk tot sz fs s = (Inr (), s1) \<Longrightarrow> sealed_so_far C io bk s \<Longrightarrow> 0 < sz \<Longrightarrow>
   sealed_so_far C io bk s1 \<and> ss_hashed s1 = ss_hashed s @ concat (map wf_data fs)"
proof (induction fs arbitrary: s)
  case (Cons f fs)
  obtain s2 where f: "seal_file C io out bk tot sz (wf_path f) (wf_name f)
      \<lparr>rd_rest = wf_data f, rd_grants = wf_grants f, rd_fail = wf_fail f\<rparr> s = (Inr (), s2)"
    "seal_files C io out bk tot sz fs s2 = (Inr (), s1)"
    using Cons.prems(1) by (auto split: option.splits prod.splits sum.splits)
  then show ?case using Cons.IH[OF f(2)] seal_file_step[OF f(1)] Cons.prems(2,3) by simp
qed simp

lemma seal_start_sealed: "sealed_so_far C io bk (seal_start\<lparr>ss_events := ev\<rparr>)"
  by (simp add: sealed_so_far_def seal_start_def)
subsection \<open>A sealed bundle opens again\<close>

text \<open>The files of a bundle directory as the checker finds them.\<close>

definition disk_of :: "string \<Rightarrow> dir_files \<Rightarrow> shard_disk" where
  "disk_of dir fs path = (if take (length dir + 1) path = dir @ ''/'' then map_option Readable (map_of fs (drop (length dir + 1) path)) else None)"

lemma disk_of_join: "\<not> is_absolute p \<Longrightarrow> disk_of dir fs (join_path dir p) = map_option Readable (map_of fs p)"
  by (simp add: disk_of_def join_path_def)

lemma check_shard_sealed:
  assumes "shard_sealed C io bk fs i sh pt" "crypto_ok C" "\<And>i. length (bi_nonce io i) = 12"
  shows "check_shard C (disk_of dir fs) dir i sh (Some bk) = Inr (Some pt)"
proof -
  obtain ct key nm where h: "map_of fs (shard_path sh) = Some ct" "shard_path sh = ''shards/'' @ shard_file_name i nm"
    "derive_shard_key C bk i = Inr key" "encrypt_shard C key pt (bi_nonce io i) = Inr ct"
    "shard_plaintext_sha256 sh = digest_hex C pt" "shard_ciphertext_sha256 sh = digest_hex C ct"
    "iv_base64 sh = b64_encode C (bi_nonce io i)"
    using assms(1) by (auto simp: shard_sealed_def)
  have d: "disk_of dir fs (join_path dir (shard_path sh)) = Some (Readable ct)"
    using h(1) disk_of_join[of "shard_path sh" dir fs] h(2) by (simp add: is_absolute_def)
  have g: "gcm_encrypt C key (bi_nonce io i) pt = Inr ct" using h(4) by (simp add: encrypt_shard_def split: sum.splits)
  then have "decrypt_shard C key ct (bi_nonce io i) = Inr pt" using assms(2) by (simp add: crypto_ok_def decrypt_shard_def)
  moreover have "decode_nonce C (iv_base64 sh) = Inr (bi_nonce io i)" using h(7) assms(2,3) by (simp add: decode_nonce_def crypto_ok_def)
  ultimately show ?thesis using d h by (simp add: check_shard_def)
qed

lemma verify_shards_sealed:
  assumes "\<And>j. j < length shs \<Longrightarrow> check_shard C disk dir (i + j) (shs ! j) (Some bk) = Inr (Some (pts ! j))"
    and "length pts = length shs" "i + length shs < 4294967296"
  shows "fst (verify_shards C (\<lambda>_. False) disk dir (Some bk) tot dn i shs [] acc ev) = Inr ([], acc @ concat pts)"
  using assms
proof (induction shs arbitrary: i pts acc dn ev)
  case (Cons sh shs)
  obtain p ps where pts: "pts = p # ps" using Cons.prems(2) by (cases pts) auto
  have c: "check_shard C disk dir (wrap_u32 i) sh (Some bk) = Inr (Some p)"
    using Cons.prems(1)[of 0] Cons.prems(3) pts by simp
  have "\<And>j. j < length shs \<Longrightarrow> check_shard C disk dir (Suc i + j) (shs ! j) (Some bk) = Inr (Some (ps ! j))"
    using Cons.prems(1)[of "Suc _"] pts by simp
  from Cons.IH[OF this] show ?case using Cons.prems(2,3) pts c by (simp add: Let_def)
qed simp

lemma write_manifest_Inr:
  assumes "write_manifest io out m s = (Inr m', s1)"
  shows "m' = m \<and> (\<exists>js. bi_to_json io m = Inr js \<and> map_of (ss_files s1) ''manifest.json'' = Some js)
    \<and> (\<forall>p. p \<noteq> ''manifest.json'' \<longrightarrow> p \<noteq> ''manifest.json.tmp'' \<longrightarrow> map_of (ss_files s1) p = map_of (ss_files s) p)"
  using assms by (auto simp: write_manifest_def Let_def update_conv' delete_conv' split: sum.splits option.splits prod.splits)

lemma seal_into_Inr:
  assumes "seal_into C io rq princ name files tot = (Inr m, s2)"
  shows "\<exists>bk s. derive_bundle_key C (sr_master rq) (bundle_id m) princ = Inr bk
    \<and> seal_files C io (sr_output rq) bk tot (sr_shard_size rq) files
        (seal_start\<lparr>ss_events := [Started (bundle_id m) tot (length files)]\<rparr>) = (Inr (), s)
    \<and> m = seal_manifest C io rq (bundle_id m) princ name s \<and> validate_structure C m = Inr () \<and> write_manifest io (sr_output rq) m s = (Inr m, s2)"
proof -
  let ?b = "seal_bundle_id io rq"
  obtain bk s where k: "derive_bundle_key C (sr_master rq) ?b princ = Inr bk"
    "seal_files C io (sr_output rq) bk tot (sr_shard_size rq) files (seal_start\<lparr>ss_events := [Started ?b tot (length files)]\<rparr>) = (Inr (), s)"
    "validate_structure C (seal_manifest C io rq ?b princ name s) = Inr ()"
    "write_manifest io (sr_output rq) (seal_manifest C io rq ?b princ name s) s = (Inr m, s2)"
    using assms by (auto simp: seal_into_def Let_def split: if_splits sum.splits option.splits prod.splits)
  then have "m = seal_manifest C io rq ?b princ name s" using write_manifest_Inr by blast
  moreover from this have "bundle_id m = ?b" by (simp add: seal_manifest_def)
  ultimately show ?thesis using k by auto
qed

lemma seal_Inr:
  assumes "seal C io rq src d = (Inr m, d')"
  shows "\<exists>files s2. collect_weight_files (sr_weights rq) src = Inr files \<and> 0 < sr_shard_size rq
    \<and> seal_into C io rq (trim (sr_principal rq)) (trim (sr_model_name rq)) files (sum_list (map wf_len files)) = (Inr m, s2)
    \<and> d' = OutputPresent (ss_files s2)"
  using assms by (auto simp: seal_def Let_def split: if_splits sum.splits prod.splits)

text \<open>C13. What was sealed can be checked and opened again: the directory a successful seal
  leaves passes verification under the same master key and principal, shard by shard and as a
  whole, and the plaintexts of its shards, in order, are the bytes of the weight files in
  order, however the file system split the reads.\<close>

theorem sealed_bundle_verifies:
  assumes "seal C io rq src d = (Inr m, OutputPresent fs)" "collect_weight_files (sr_weights rq) src = Inr files"
    and "crypto_ok C" "\<And>i. length (bi_nonce io i) = 12" "\<And>m js. bi_to_json io m = Inr js \<Longrightarrow> of_json js = Inr m \<and> valid_utf8 (codes js)"
    and "length (shards m) < 4294967296"
  shows "fst (verify_bundle C of_json (\<lambda>_. False) (disk_of dir fs) dir (Some (sr_master rq, trim (sr_principal rq))))
      = Inr \<lparr>vr_bundle_id = bundle_id m, vr_shards = length (shards m), vr_decrypted = True, vr_failures = []\<rparr>
    \<and> total_plaintext_sha256 m = digest_hex C (concat (map wf_data files))
    \<and> (\<exists>bk pts. derive_bundle_key C (sr_master rq) (bundle_id m) (trim (sr_principal rq)) = Inr bk \<and> length pts = length (shards m)
        \<and> concat pts = concat (map wf_data files)
        \<and> (\<forall>i < length pts. check_shard C (disk_of dir fs) dir i (shards m ! i) (Some bk) = Inr (Some (pts ! i))))"
proof -
  obtain s2 where z: "0 < sr_shard_size rq"
    "seal_into C io rq (trim (sr_principal rq)) (trim (sr_model_name rq)) files (sum_list (map wf_len files)) = (Inr m, s2)"
    "fs = ss_files s2"
    using seal_Inr[OF assms(1)] assms(2) by auto
  from seal_into_Inr[OF z(2)] obtain bk s where
    bk: "derive_bundle_key C (sr_master rq) (bundle_id m) (trim (sr_principal rq)) = Inr bk"
    and sf: "seal_files C io (sr_output rq) bk (sum_list (map wf_len files)) (sr_shard_size rq) files
        (seal_start\<lparr>ss_events := [Started (bundle_id m) (sum_list (map wf_len files)) (length files)]\<rparr>) = (Inr (), s)"
    and m: "m = seal_manifest C io rq (bundle_id m) (trim (sr_principal rq)) (trim (sr_model_name rq)) s"
    and v: "validate_structure C m = Inr ()" and w: "write_manifest io (sr_output rq) m s = (Inr m, s2)"
    by blast
  note st = seal_files_step[OF sf seal_start_sealed z(1)] and wm = write_manifest_Inr[OF w]
  have sh: "shards m = ss_shards s" using arg_cong[OF m, of shards] by (simp add: seal_manifest_def)
  have hashed: "ss_hashed s = concat (map wf_data files)" using st by (simp add: seal_start_def)
  have tot: "total_plaintext_sha256 m = digest_hex C (concat (map wf_data files))"
    using arg_cong[OF m, of total_plaintext_sha256] hashed by (simp add: seal_manifest_def)
  obtain pts where p0: "length pts = length (ss_shards s)" "concat pts = ss_hashed s"
    "\<forall>i < length pts. shard_sealed C io bk (ss_files s) i (ss_shards s ! i) (pts ! i)"
    using st[THEN conjunct1, unfolded sealed_so_far_def] assms(6)[unfolded sh] by blast
  note p = p0[folded sh, unfolded hashed]
  have frame: "take 7 p = ''shards/'' \<Longrightarrow> map_of fs p = map_of (ss_files s) p" for p
    using wm[THEN conjunct2, THEN conjunct2, rule_format, of p] unfolding z(3) by fastforce
  have "shard_sealed C io bk fs i (shards m ! i) (pts ! i)" if "i < length pts" for i
  proof -
    have "shard_sealed C io bk (ss_files s) i (shards m ! i) (pts ! i)" using p(3) that by blast
    moreover from this have "map_of fs (shard_path (shards m ! i)) = map_of (ss_files s) (shard_path (shards m ! i))"
      using frame[of "shard_path (shards m ! i)"] by (fastforce simp: shard_sealed_def)
    ultimately show ?thesis by (simp add: shard_sealed_def)
  qed
  then have ck: "\<forall>i < length pts. check_shard C (disk_of dir fs) dir i (shards m ! i) (Some bk) = Inr (Some (pts ! i))"
    using check_shard_sealed[OF _ assms(3,4)] by blast
  have vs: "fst (verify_shards C (\<lambda>_. False) (disk_of dir fs) dir (Some bk) tt 0 0 (shards m) [] [] ev) = Inr ([], concat pts)" for tt ev
    using verify_shards_sealed[of "shards m" C "disk_of dir fs" dir 0 bk pts tt 0 "[]" ev] ck p(1) assms(6) by simp
  obtain js where js: "bi_to_json io m = Inr js" "map_of fs ''manifest.json'' = Some js" using wm z(3) by blast
  then have rm: "read_manifest of_json dir (disk_of dir fs) = Inr m"
    using disk_of_join[of "''manifest.json''" dir fs] assms(5)[OF js(1)] by (simp add: read_manifest_def is_absolute_def Let_def)
  have "fst (verify_bundle C of_json (\<lambda>_. False) (disk_of dir fs) dir (Some (sr_master rq, trim (sr_principal rq))))
      = Inr \<lparr>vr_bundle_id = bundle_id m, vr_shards = length (shards m), vr_decrypted = True, vr_failures = []\<rparr>"
    using vs[of "wrap_u64 (sum_list (map shard_size_bytes (shards m)))"
        "[Started (bundle_id m) (wrap_u64 (sum_list (map shard_size_bytes (shards m)))) (length (shards m))]"]
      rm v bk tot p(2) unfolding verify_bundle_def by (auto simp: Let_def split: prod.splits)
  then show ?thesis using tot bk p ck by blast
qed
subsection \<open>A failed seal never looks complete\<close>

definition only_shards :: "dir_files \<Rightarrow> bool" where
  "only_shards fs \<longleftrightarrow> list_all (\<lambda>(p, _). take 7 p = ''shards/'') fs"

lemma only_shards_update: "only_shards fs \<Longrightarrow> take 7 p = ''shards/'' \<Longrightarrow> only_shards (AList.update p c fs)"
  unfolding only_shards_def by (rule list_all_update) auto

lemma seal_shard_paths: "only_shards (ss_files s) \<Longrightarrow> only_shards (ss_files (snd (seal_shard C io out bk name pt s)))"
  by (auto simp: seal_shard_def Let_def leave_def intro!: only_shards_update split: sum.splits option.splits)

lemma seal_file_paths: "only_shards (ss_files s) \<Longrightarrow> only_shards (ss_files (snd (seal_file C io out bk tot sz path name r s)))"
proof (induction C io out bk tot sz path name r s rule: seal_file.induct)
  case (1 C io out bk tot sz path name r s)
  obtain x s1 where f: "fill io tot sz path [] r s = (x, s1)" by fastforce
  note fr = fill_frame[OF f]
  show ?case
  proof (cases x)
    case (Inl e)
    then show ?thesis using f fr "1.prems" by (simp add: seal_file.simps[of C io out])
  next
    case (Inr q)
    obtain pt r1 where q: "q = (pt, r1)" by fastforce
    obtain y s2 where sh: "seal_shard C io out bk name pt s1 = (y, s2)" by fastforce
    have o: "only_shards (ss_files s2)" using seal_shard_paths[of s1 C io out bk name pt] sh fr "1.prems" by simp
    show ?thesis
      using "1.IH"[OF f[symmetric] Inr q[symmetric] _ sh[symmetric] _ _ o] o f fr sh Inr q "1.prems"
      by (cases y) (auto simp: seal_file.simps[of C io out bk tot sz path name r])
  qed
qed

lemma seal_files_paths: "only_shards (ss_files s) \<Longrightarrow> only_shards (ss_files (snd (seal_files C io out bk tot sz fs s)))"
proof (induction fs arbitrary: s)
  case (Cons f fs)
  let ?r = "\<lparr>rd_rest = wf_data f, rd_grants = wf_grants f, rd_fail = wf_fail f\<rparr>"
  have "only_shards (ss_files (snd (seal_file C io out bk tot sz (wf_path f) (wf_name f) ?r s)))"
    by (rule seal_file_paths) (rule Cons.prems)
  then show ?case using Cons by (auto split: option.splits prod.splits sum.splits)
qed simp

lemma only_shards_no_manifest: "only_shards fs \<Longrightarrow> map_of fs ''manifest.json'' = None"
  by (induction fs) (auto simp: only_shards_def)

lemma failed_write_no_manifest:
  assumes "write_manifest io out m s = (Inl e, s1)" "map_of (ss_files s) ''manifest.json'' = None"
  shows "map_of (ss_files s1) ''manifest.json'' = None"
  using assms by (auto simp: write_manifest_def leave_def Let_def update_conv' split: sum.splits option.splits prod.splits)

lemma failed_seal_into_no_manifest:
  assumes "seal_into C io rq princ name files tot = (Inl e, s)"
  shows "map_of (ss_files s) ''manifest.json'' = None"
proof -
  have z: "only_shards (ss_files (seal_start\<lparr>ss_events := ev\<rparr>))" for ev by (simp add: seal_start_def only_shards_def)
  note p = only_shards_no_manifest[OF seal_files_paths[OF z]]
  show ?thesis
    using assms p failed_write_no_manifest
    by (auto simp: seal_into_def Let_def seal_start_def split: if_splits sum.splits option.splits prod.splits)
      (metis snd_conv)+
qed

lemma map_of_filter_None: "map_of fs p = None \<Longrightarrow> map_of (filter f fs) p = None"
  by (auto simp: map_of_eq_None_iff)

text \<open>C29. A half-finished bundle never looks complete.  A seal that fails, at whatever write,
  read or check and whatever a failed removal keeps, leaves the output directory as it was
  before, absent if it was absent, or else without a manifest, and it only wrote there if
  the directory was absent or empty.\<close>

theorem failed_seal_leaves_no_manifest:
  assumes "seal C io rq src d = (Inl e, d')"
  shows "d' = d
    \<or> (d = OutputAbsent \<or> d = OutputPresent []) \<and> (\<exists>fs. d' = OutputPresent fs \<and> map_of fs ''manifest.json'' = None)"
proof -
  let ?si = "\<lambda>files. seal_into C io rq (trim (sr_principal rq)) (trim (sr_model_name rq)) files (sum_list (map wf_len files))"
  consider "d' = d" | files created s where "prepare_output io (sr_output rq) d = Inr created" "?si files = (Inl e, s)"
      "d' = (if created then remove_output io (ss_files s) else OutputPresent (ss_files s))"
    using assms by (auto simp: seal_def Let_def split: if_splits sum.splits prod.splits)
  then show ?thesis
  proof cases
    case 2
    then have "map_of (ss_files s) ''manifest.json'' = None" using failed_seal_into_no_manifest by blast
    then show ?thesis
      using 2 by (auto simp: prepare_output_def remove_output_def map_of_filter_None split: output_dir.splits option.splits if_splits)
  qed simp
qed
subsection \<open>A concrete seal\<close>

definition bundle_crypto :: crypto_env where
  "bundle_crypto = sample_crypto\<lparr>hkdf_expand := (\<lambda>_ _ _. Inr ''k''),
     digest_hex := (\<lambda>s. replicate 63 (CHR ''0'') @ [sample_hex (length s)])\<rparr>"

definition bundle_weights :: weight_file where
  "bundle_weights = \<lparr>wf_path = ''w/a.gguf'', wf_name = ''a.gguf'', wf_len = 3, wf_open = None, wf_data = ''xyz'', wf_grants = [1], wf_fail = None\<rparr>"

definition bundle_request :: SealRequest where
  "bundle_request = \<lparr>sr_weights = ''w'', sr_master = ''cmk'', sr_principal = ''op'', sr_bundle_id = Some ''b1'', sr_model_name = ''m'',
     sr_model_version = ''1'', sr_output = ''out'', sr_shard_size = 2\<rparr>"

definition bundle_shard :: "nat \<Rightarrow> char \<Rightarrow> string \<Rightarrow> ShardDescriptor" where
  "bundle_shard i d pt = \<lparr>shard_path = ''shards/0000'' @ [d] @ ''-a.gguf.enc'', shard_plaintext_sha256 = digest_hex bundle_crypto pt,
     shard_ciphertext_sha256 = digest_hex bundle_crypto (''knonce-nonce'' @ [d] @ pt), iv_base64 = ''bnonce-nonce'' @ [d],
     shard_size_bytes = length pt, layer_index = i\<rparr>"

definition bundle_disk_io :: "(BundleManifest \<Rightarrow> string + string) \<Rightarrow> (string \<Rightarrow> bool) option \<Rightarrow> bundle_io" where
  "bundle_disk_io js kept = \<lparr>bi_now = 0, bi_uuid = ''u'', bi_pkg_version = ''1'', bi_cancel = (\<lambda>_. False),
     bi_nonce = (\<lambda>i. ''nonce-nonce'' @ [if i = 0 then CHR ''0'' else CHR ''1'']), bi_create_output = None, bi_create_shards = None,
     bi_write_shard = (\<lambda>_. None), bi_to_json = js, bi_write_manifest = None, bi_rename_manifest = None, bi_remove_output = kept\<rparr>"

lemma bundle_crypto_ok: "crypto_ok bundle_crypto"
  using sample_crypto_ok by (simp add: crypto_ok_def bundle_crypto_def)

lemmas bundle_fields = bundle_disk_io_def bundle_weights_def bundle_request_def bundle_shard_def

lemma bundle_crypto_ops:
  "derive_shard_key bundle_crypto bk i = Inr ''k''" "derive_bundle_key bundle_crypto m b p = Inr ''k''"
  "encrypt_shard bundle_crypto k pt n = Inr (k @ n @ pt)" "b64_encode bundle_crypto x = CHR ''b'' # x"
  by (simp_all add: derive_shard_key_def derive_bundle_key_def derive_32_byte_key_def derive_key_def encrypt_shard_def bundle_crypto_def sample_crypto_def)

lemma bundle_seal_files:
  "\<exists>s. seal_files bundle_crypto (bundle_disk_io js kept) ''out'' ''k'' 3 2 [bundle_weights] (seal_start\<lparr>ss_events := ev\<rparr>) = (Inr (), s)
    \<and> ss_shards s = [bundle_shard 0 (CHR ''0'') ''xy'', bundle_shard 1 (CHR ''1'') ''z''] \<and> ss_hashed s = ''xyz''"
proof -
  have n: "shard_file_name 0 ''a.gguf'' = ''00000-a.gguf.enc''" "shard_file_name 1 ''a.gguf'' = ''00001-a.gguf.enc''" by code_simp+
  show ?thesis
    by (simp add: seal_file.simps fill.simps read_some_def READ_CHUNK_def Let_def seal_shard_def seal_start_def bundle_fields n[simplified]
      bundle_crypto_ops)
qed
definition bundle_manifest :: BundleManifest where
  "bundle_manifest = seal_manifest bundle_crypto (bundle_disk_io (\<lambda>_. Inl []) None) bundle_request ''b1'' ''op'' ''m''
     (seal_start\<lparr>ss_shards := [bundle_shard 0 (CHR ''0'') ''xy'', bundle_shard 1 (CHR ''1'') ''z''], ss_hashed := ''xyz''\<rparr>)"

definition bundle_json :: "BundleManifest \<Rightarrow> string + string" where
  "bundle_json m = (if m = bundle_manifest then Inr ''{}'' else Inl ''unknown'')"

lemma bundle_disk_fields:
  "bi_to_json (bundle_disk_io js kept) = js" "bi_write_manifest (bundle_disk_io js kept) = None"
  "bi_rename_manifest (bundle_disk_io js kept) = None" "bi_remove_output (bundle_disk_io js kept) = kept"
  by (simp_all add: bundle_disk_io_def)

lemma bundle_nonce: "length (bi_nonce (bundle_disk_io js kept) i) = 12"
  by (simp add: bundle_disk_io_def)

lemma bundle_digest: "digest_hex bundle_crypto s = replicate 63 (CHR ''0'') @ [sample_hex (length s)]"
  by (simp add: bundle_crypto_def)

lemma bundle_digest_valid: "validate_digest (digest_hex bundle_crypto s) what = Inr ()"
proof -
  have "length s mod 16 < length ''0123456789abcdef''" by simp
  then have "sample_hex (length s) \<in> set ''0123456789abcdef''" unfolding sample_hex_def by (rule nth_mem)
  moreover have "\<forall>c \<in> set ''0123456789abcdef''. is_ascii_hexdigit c" by code_simp
  ultimately have "is_ascii_hexdigit (sample_hex (length s))" by blast
  then show ?thesis by (simp add: bundle_digest validate_digest_def is_ascii_hexdigit_def list_all_iff)
qed

lemma bundle_shard_valid:
  assumes "d \<in> {CHR ''0'', CHR ''1''}" "pt \<in> {''xy'', ''z''}"
  shows "validate_shard bundle_crypto b i (bundle_shard j d pt) = Inr ()"
proof -
  have p: "\<forall>d \<in> {CHR ''0'', CHR ''1''}. \<not> is_absolute (''shards/0000'' @ [d] @ ''-a.gguf.enc'')
      \<and> list_all is_normal (path_components (''shards/0000'' @ [d] @ ''-a.gguf.enc''))" by code_simp
  then have "validate_relative_path (''shards/0000'' @ [d] @ ''-a.gguf.enc'') b = Inr ()"
    using assms(1) unfolding validate_relative_path_def by auto
  moreover have "\<not> eq_ignore_ascii_case (digest_hex bundle_crypto pt) (digest_hex bundle_crypto (''knonce-nonce'' @ [d] @ pt))"
    using assms by (auto simp: bundle_digest eq_ignore_ascii_case_def to_lower_def sample_hex_def to_lower_char_def)
  moreover have "decode_iv bundle_crypto (''bnonce-nonce'' @ [d]) = Inr (''nonce-nonce'' @ [d])"
    by (simp add: decode_iv_def bundle_crypto_def sample_crypto_def unmark_def)
  ultimately show ?thesis by (simp add: validate_shard_def bundle_shard_def bundle_digest_valid)
qed

lemma bundle_manifest_valid: "validate_structure bundle_crypto bundle_manifest = Inr ()"
proof -
  have "is_safe_bundle_id ''b1''" "trim ''b1'' = ''b1''" by code_simp+
  then show ?thesis
    by (simp add: validate_structure_def bundle_manifest_def seal_manifest_def bundle_shard_valid bundle_digest_valid
        eq_ignore_ascii_case_def) (simp add: bundle_shard_def bundle_digest_valid)
qed

lemma bundle_shards: "bundle_id bundle_manifest = ''b1''" "length (shards bundle_manifest) = 2"
  by (simp_all add: bundle_manifest_def seal_manifest_def)

lemma bundle_json_back: "bundle_json m = Inr js \<Longrightarrow> Inr bundle_manifest = (Inr m :: string + BundleManifest) \<and> valid_utf8 (codes js)"
  by (auto simp: bundle_json_def codes_def split: if_splits)

lemma bundle_seal_into:
  "\<exists>s. seal_into bundle_crypto (bundle_disk_io js kept) bundle_request ''op'' ''m'' [bundle_weights] 3
     = write_manifest (bundle_disk_io js kept) ''out'' bundle_manifest s"
proof -
  obtain s where s: "seal_files bundle_crypto (bundle_disk_io js kept) ''out'' ''k'' 3 2 [bundle_weights]
      (seal_start\<lparr>ss_events := [Started ''b1'' 3 1]\<rparr>) = (Inr (), s)"
    "ss_shards s = [bundle_shard 0 (CHR ''0'') ''xy'', bundle_shard 1 (CHR ''1'') ''z'']" "ss_hashed s = ''xyz''"
    using bundle_seal_files by blast
  have "seal_manifest bundle_crypto (bundle_disk_io js kept) bundle_request ''b1'' ''op'' ''m'' s = bundle_manifest"
    using s(2,3) by (simp add: bundle_manifest_def seal_manifest_def bundle_disk_io_def)
  moreover have "is_safe_bundle_id ''b1''" "seal_bundle_id (bundle_disk_io js kept) bundle_request = ''b1''"
    by (code_simp, simp add: seal_bundle_id_def bundle_request_def, code_simp)
  moreover have "sr_output bundle_request = ''out''" "sr_shard_size bundle_request = 2" "bi_create_shards (bundle_disk_io js kept) = None"
    by (simp_all add: bundle_fields)
  ultimately have "seal_into bundle_crypto (bundle_disk_io js kept) bundle_request ''op'' ''m'' [bundle_weights] 3
     = write_manifest (bundle_disk_io js kept) ''out'' bundle_manifest s"
    using s(1) by (simp add: seal_into_def bundle_crypto_ops bundle_manifest_valid del: seal_files.simps)
  then show ?thesis by blast
qed

lemma bundle_seal:
  "seal bundle_crypto (bundle_disk_io js kept) bundle_request (SingleFile bundle_weights) OutputAbsent
   = (case seal_into bundle_crypto (bundle_disk_io js kept) bundle_request ''op'' ''m'' [bundle_weights] 3 of
        (Inr m, s) \<Rightarrow> (Inr m, OutputPresent (ss_files s))
      | (Inl e, s) \<Rightarrow> (Inl e, remove_output (bundle_disk_io js kept) (ss_files s)))"
proof -
  have "trim (sr_principal bundle_request) = ''op''" "trim (sr_model_name bundle_request) = ''m''" "sr_shard_size bundle_request = 2" by code_simp+
  moreover have "prepare_output (bundle_disk_io js kept) (sr_output bundle_request) OutputAbsent = Inr True" "wf_len bundle_weights = 3"
    by (simp_all add: prepare_output_def bundle_fields)
  ultimately show ?thesis by (simp add: seal_def collect_weight_files_def split: prod.split sum.split)
qed

theorem sealed_bundle_verifies_witness:
  "\<exists>fs. fst (verify_bundle bundle_crypto (\<lambda>_. Inr bundle_manifest) (\<lambda>_. False) (disk_of ''here'' fs) ''here'' (Some (''cmk'', ''op'')))
      = Inr \<lparr>vr_bundle_id = ''b1'', vr_shards = 2, vr_decrypted = True, vr_failures = []\<rparr>"
proof -
  let ?io = "bundle_disk_io bundle_json None"
  have p: "trim (sr_principal bundle_request) = ''op''" by code_simp
  obtain s where "seal_into bundle_crypto ?io bundle_request ''op'' ''m'' [bundle_weights] 3 = write_manifest ?io ''out'' bundle_manifest s"
    using bundle_seal_into by blast
  then obtain fs where "seal bundle_crypto ?io bundle_request (SingleFile bundle_weights) OutputAbsent = (Inr bundle_manifest, OutputPresent fs)"
    by (simp add: bundle_seal write_manifest_def bundle_disk_fields bundle_json_def Let_def)
  from sealed_bundle_verifies[OF this, of "[bundle_weights]" "\<lambda>_. Inr bundle_manifest" "''here''"] p
  have "fst (verify_bundle bundle_crypto (\<lambda>_. Inr bundle_manifest) (\<lambda>_. False) (disk_of ''here'' fs) ''here'' (Some (sr_master bundle_request, ''op'')))
      = Inr \<lparr>vr_bundle_id = bundle_id bundle_manifest, vr_shards = length (shards bundle_manifest), vr_decrypted = True, vr_failures = []\<rparr>"
    using bundle_crypto_ok
    by (simp add: collect_weight_files_def bundle_disk_fields bundle_nonce bundle_shards bundle_json_back)
  then show ?thesis by (auto simp: bundle_request_def bundle_shards)
qed

theorem failed_seal_leaves_no_manifest_witness:
  "let d = snd (seal bundle_crypto (bundle_disk_io (\<lambda>_. Inl ''full'') (Some (\<lambda>_. True))) bundle_request (SingleFile bundle_weights) OutputAbsent)
   in \<exists>fs. d = OutputPresent fs \<and> map_of fs ''manifest.json'' = None"
proof -
  let ?io = "bundle_disk_io (\<lambda>_. Inl ''full'') (Some (\<lambda>_. True))"
  obtain s where "seal_into bundle_crypto ?io bundle_request ''op'' ''m'' [bundle_weights] 3 = write_manifest ?io ''out'' bundle_manifest s"
    using bundle_seal_into by blast
  then obtain e fs where "seal bundle_crypto ?io bundle_request (SingleFile bundle_weights) OutputAbsent = (Inl e, OutputPresent fs)"
    by (simp add: bundle_seal write_manifest_def bundle_disk_fields remove_output_def)
  from failed_seal_leaves_no_manifest[OF this] this show ?thesis by simp
qed

end
