(* ===== verification/Timing.thy ===== *)
theory Timing
  imports Prelude
begin

text \<open>
  Response-time normalisation of \<^verbatim>\<open>cordon-core/src/timing.rs\<close>.  \<open>normalize_ms\<close> is the
  number of milliseconds slept for a request that has taken \<open>elapsed\<close> milliseconds;
  the arithmetic is that of \<^verbatim>\<open>u64\<close>, which wraps in a release build.
\<close>

datatype TimingMode = FixedFloor | Bucket | NoTiming

record TimingNormalizationConfig =
  tn_enabled :: bool
  tn_mode :: TimingMode
  tn_bucket_ms :: nat
  tn_fixed_floor_ms :: nat

definition next_bucket :: "nat \<Rightarrow> nat \<Rightarrow> nat" where
  "next_bucket bucket elapsed = wrap_u64 (wrap_u64 (elapsed div bucket + 1) * bucket)"

definition normalize_ms :: "TimingNormalizationConfig \<Rightarrow> nat \<Rightarrow> nat" where
  "normalize_ms c elapsed =
     (if \<not> tn_enabled c then 0
      else (case tn_mode c of
              NoTiming \<Rightarrow> 0
            | FixedFloor \<Rightarrow>
                if elapsed \<ge> tn_fixed_floor_ms c then 0 else tn_fixed_floor_ms c - elapsed
            | Bucket \<Rightarrow>
                if tn_bucket_ms c = 0 then 0
                else if elapsed \<ge> next_bucket (tn_bucket_ms c) elapsed then 0
                else next_bucket (tn_bucket_ms c) elapsed - elapsed))"

definition target_ms :: "TimingNormalizationConfig \<Rightarrow> nat \<Rightarrow> nat" where
  "target_ms c elapsed =
     (if \<not> tn_enabled c then elapsed
      else (case tn_mode c of
              NoTiming \<Rightarrow> elapsed
            | FixedFloor \<Rightarrow> max elapsed (tn_fixed_floor_ms c)
            | Bucket \<Rightarrow>
                if tn_bucket_ms c = 0 then elapsed else next_bucket (tn_bucket_ms c) elapsed))"

definition is_active :: "TimingNormalizationConfig \<Rightarrow> bool" where
  "is_active c \<longleftrightarrow> tn_enabled c \<and> tn_mode c \<noteq> NoTiming"

definition bucket_ms :: "TimingNormalizationConfig \<Rightarrow> nat option" where
  "bucket_ms c = (if \<not> tn_enabled c then None
     else (case tn_mode c of Bucket \<Rightarrow> Some (tn_bucket_ms c)
             | FixedFloor \<Rightarrow> Some (tn_fixed_floor_ms c) | NoTiming \<Rightarrow> None))"

lemma next_bucket_exact:
  assumes "0 < b" "e + b < 18446744073709551616"
  shows "next_bucket b e = (e div b + 1) * b"
proof -
  have le: "(e div b + 1) * b \<le> e + b" using div_mult_mod_eq [of e b] by (simp add: algebra_simps)
  moreover have "(e div b + 1) * 1 \<le> (e div b + 1) * b" using assms(1) by (intro mult_le_mono2) simp
  ultimately have "e div b + 1 < 18446744073709551616" "(e div b + 1) * b < 18446744073709551616"
    using assms(2) by (simp_all only: mult_1_right)
  then show ?thesis by (simp add: next_bucket_def)
qed

lemma next_bucket_after:
  assumes "0 < b" "e + b < 18446744073709551616"
  shows "e < next_bucket b e"
  using next_bucket_exact [OF assms] assms(1) dividend_less_div_times [of b e] by (simp add: algebra_simps)



lemma floored_response_time:
  assumes "tn_enabled c" "tn_mode c = FixedFloor"
  shows "e + normalize_ms c e = target_ms c e" "tn_fixed_floor_ms c \<le> e + normalize_ms c e"
  using assms by (auto simp: normalize_ms_def target_ms_def)

end
