(* ===== verification/F64.thy ===== *)
theory F64
  imports Prelude "HOL-Library.Log_Nat"
begin

text \<open>
  Rust's \<^verbatim>\<open>f64\<close> arithmetic, as far as the rate limiter and the filters use it: a
  finite number is the rational it denotes and every operation is the exact rational
  operation followed by \<open>f64_round\<close>, IEEE 754 rounding to nearest, ties to even, with
  a 53-bit significand and gradual underflow.  Overflow to infinity is out of scope:
  the quantities computed here stay far below the largest finite double.
\<close>

definition half_even :: "rat \<Rightarrow> int" where
  "half_even q = (let n = \<lfloor>q\<rfloor>; d = q - of_int n
     in if d < 1/2 then n else if d > 1/2 then n + 1 else if even n then n else n + 1)"

definition pow2 :: "int \<Rightarrow> rat" where
  "pow2 k = (if 0 \<le> k then 2 ^ nat k else 1 / 2 ^ nat (- k))"

text \<open>The exponent of the leading bit of a positive rational.\<close>

definition lead :: "rat \<Rightarrow> int" where
  "lead x = (let (n, d) = quotient_of x; k = bitlen n - bitlen d
     in if pow2 k \<le> x then k else k - 1)"

definition ulp_exp :: "rat \<Rightarrow> int" where
  "ulp_exp x = max (lead x - 52) (- 1074)"

definition f64_round :: "rat \<Rightarrow> rat" where
  "f64_round x = (if x = 0 then 0
     else let e = ulp_exp \<bar>x\<bar> in sgn x * (of_int (half_even (\<bar>x\<bar> / pow2 e)) * pow2 e))"

definition f64_add :: "rat \<Rightarrow> rat \<Rightarrow> rat" where "f64_add a b = f64_round (a + b)"
definition f64_sub :: "rat \<Rightarrow> rat \<Rightarrow> rat" where "f64_sub a b = f64_round (a - b)"
definition f64_mul :: "rat \<Rightarrow> rat \<Rightarrow> rat" where "f64_mul a b = f64_round (a * b)"
definition f64_div :: "rat \<Rightarrow> rat \<Rightarrow> rat" where "f64_div a b = f64_round (a / b)"

text \<open>The cast \<^verbatim>\<open>as u32\<close>: truncation towards zero, saturating.\<close>

definition f64_as_u32 :: "rat \<Rightarrow> nat" where
  "f64_as_u32 x = (if x \<le> 0 then 0 else min (nat \<lfloor>x\<rfloor>) 4294967295)"

subsection \<open>Rounding to an integer\<close>

lemma half_even_mono: "x \<le> y \<Longrightarrow> half_even x \<le> half_even y"
proof (cases "\<lfloor>x\<rfloor> = \<lfloor>y\<rfloor>")
  case False
  assume "x \<le> y"
  then have "\<lfloor>x\<rfloor> + 1 \<le> \<lfloor>y\<rfloor>" using False floor_mono [of x y] by linarith
  moreover have "half_even x \<le> \<lfloor>x\<rfloor> + 1" "\<lfloor>y\<rfloor> \<le> half_even y" by (auto simp: half_even_def Let_def)
  ultimately show ?thesis by linarith
qed (auto simp: half_even_def Let_def)

lemma half_even_int [simp]: "half_even (of_int n) = n"
  by (simp add: half_even_def)

subsection \<open>Powers of two\<close>

lemma pow2_pos [simp]: "0 < pow2 k" "0 \<le> pow2 k" "pow2 k \<noteq> 0"
  by (auto simp: pow2_def)

lemma pow2_powi: "pow2 k = 2 powi k"
  by (auto simp: pow2_def power_int_def inverse_eq_divide power_divide)

lemma pow2_add: "pow2 (a + b) = pow2 a * pow2 b"
  by (simp add: pow2_powi power_int_add)

lemma pow2_mono: "a \<le> b \<Longrightarrow> pow2 a \<le> pow2 b"
  by (simp add: pow2_powi power_int_increasing)

lemma pow2_nat: "0 \<le> k \<Longrightarrow> pow2 k = of_int (2 ^ nat k)"
  by (simp add: pow2_def)

lemma pow2_less_iff: "pow2 a < pow2 b \<longleftrightarrow> a < b"
  by (metis linorder_not_less pow2_mono pow2_powi power_int_strict_increasing one_less_numeral_iff semiring_norm(76))

lemma bitlen_pow2:
  assumes "0 < n"
  shows "pow2 (bitlen n - 1) \<le> of_int n" "of_int n < pow2 (bitlen n)"
proof -
  have b: "2 ^ nat (bitlen n - 1) \<le> n \<and> n < 2 ^ nat (bitlen n)"
    using bitlen_bounds [OF assms] .
  have pos: "0 \<le> bitlen n - 1" using assms by (simp add: bitlen_def floorlog_def)
  show "pow2 (bitlen n - 1) \<le> of_int n"
    using b pos by (simp only: pow2_nat of_int_le_iff)
  show "of_int n < pow2 (bitlen n)"
    using b bitlen_nonneg [of n] by (simp only: pow2_nat of_int_less_iff)
qed

text \<open>The leading exponent brackets its argument.\<close>

lemma lead_bracket:
  assumes "0 < x"
  shows "pow2 (lead x) \<le> x" "x < pow2 (lead x + 1)"
proof -
  obtain n d where q: "quotient_of x = (n, d)" by fastforce
  have d: "0 < d" and x: "x = of_int n / of_int d"
    using quotient_of_denom_pos [OF q] quotient_of_div [OF q] by auto
  have n: "0 < n" using assms d x by (simp add: zero_less_divide_iff)
  define k where "k = bitlen n - bitlen d"
  have "x < pow2 (k + 1)"
  proof -
    have "of_int n < pow2 (bitlen n)" by (rule bitlen_pow2(2) [OF n])
    also have "pow2 (bitlen n) = pow2 (k + 1) * pow2 (bitlen d - 1)" by (simp add: pow2_add [symmetric] k_def)
    also have "\<dots> \<le> pow2 (k + 1) * of_int d" using bitlen_pow2(1) [OF d] by (intro mult_left_mono) simp_all
    finally show ?thesis using d x by (simp add: divide_less_eq)
  qed
  moreover have "pow2 (k - 1) \<le> x"
  proof -
    have "pow2 (k - 1) * of_int d \<le> pow2 (k - 1) * pow2 (bitlen d)"
      using bitlen_pow2(2) [OF d] by (intro mult_left_mono) simp_all
    also have "\<dots> = pow2 (bitlen n - 1)" by (simp add: pow2_add [symmetric] k_def)
    also have "\<dots> \<le> of_int n" by (rule bitlen_pow2(1) [OF n])
    finally show ?thesis using d x by (simp add: le_divide_eq)
  qed
  ultimately show "pow2 (lead x) \<le> x" "x < pow2 (lead x + 1)"
    by (auto simp: lead_def q k_def Let_def)
qed

lemma lead_mono: "0 < x \<Longrightarrow> x \<le> y \<Longrightarrow> lead x \<le> lead y"
  using lead_bracket [of x] lead_bracket [of y] pow2_less_iff [of "lead x" "lead y + 1"] by auto

subsection \<open>Rounding is monotone and exact on integers\<close>

lemma f64_round_zero [simp]: "f64_round 0 = 0"
  by (simp add: f64_round_def)

lemma f64_round_pos: "0 < x \<Longrightarrow> f64_round x = of_int (half_even (x / pow2 (ulp_exp x))) * pow2 (ulp_exp x)"
  by (simp add: f64_round_def Let_def)

lemma f64_round_minus: "f64_round (- x) = - f64_round x"
  by (simp add: f64_round_def Let_def sgn_minus)

lemma f64_round_nonneg: "0 \<le> x \<Longrightarrow> 0 \<le> f64_round x"
proof (cases "x = 0")
  case False
  assume "0 \<le> x"
  then have x: "0 < x" using False by simp
  have "half_even 0 \<le> half_even (x / pow2 (ulp_exp x))" using x by (intro half_even_mono) simp
  then show ?thesis using half_even_int [of 0] by (simp add: f64_round_pos [OF x])
qed simp

lemma f64_round_mono_pos:
  assumes "0 < x" "x \<le> y"
  shows "f64_round x \<le> f64_round y"
proof -
  have y: "0 < y" using assms by simp
  have le: "ulp_exp x \<le> ulp_exp y" using lead_mono [OF assms] by (simp add: ulp_exp_def)
  show ?thesis
  proof (cases "ulp_exp x = ulp_exp y")
    case True
    have "half_even (x / pow2 (ulp_exp y)) \<le> half_even (y / pow2 (ulp_exp y))"
      using assms by (intro half_even_mono) (simp add: divide_right_mono)
    then show ?thesis using True assms(1) y by (simp add: f64_round_pos)
  next
    case False
    define b where "b = ulp_exp y + 52"
    have ly: "ulp_exp y = lead y - 52" using False le by (auto simp: ulp_exp_def split: if_splits)
    have "x < pow2 (lead x + 1)" using lead_bracket(2) [OF assms(1)] .
    also have "pow2 (lead x + 1) \<le> pow2 (ulp_exp x + 53)" by (intro pow2_mono) (simp add: ulp_exp_def)
    finally have "x / pow2 (ulp_exp x) \<le> pow2 53" by (simp add: divide_le_eq pow2_add mult.commute)
    then have "half_even (x / pow2 (ulp_exp x)) \<le> half_even (of_int (2 ^ 53))"
      by (intro half_even_mono) (simp add: pow2_def)
    then have "f64_round x \<le> of_int (2 ^ 53) * pow2 (ulp_exp x)"
      unfolding f64_round_pos [OF assms(1)] half_even_int by (intro mult_right_mono) (simp_all del: of_int_power)
    also have "\<dots> = pow2 (ulp_exp x + 53)" by (simp add: pow2_add) (simp add: pow2_nat)
    also have "\<dots> \<le> pow2 (ulp_exp y + 52)" using le False by (intro pow2_mono) simp
    also have "\<dots> = of_int (2 ^ 52) * pow2 (ulp_exp y)" by (simp add: pow2_add) (simp add: pow2_nat)
    also have "\<dots> \<le> f64_round y"
    proof -
      have "pow2 52 \<le> y / pow2 (ulp_exp y)"
        using lead_bracket(1) [OF y] ly by (simp add: le_divide_eq pow2_add [symmetric])
      then have "half_even (of_int (2 ^ 52)) \<le> half_even (y / pow2 (ulp_exp y))"
        by (intro half_even_mono) (simp add: pow2_def)
      then show ?thesis unfolding f64_round_pos [OF y] half_even_int by (intro mult_right_mono) (simp_all del: of_int_power)
    qed
    finally show ?thesis .
  qed
qed

lemma f64_round_mono: "x \<le> y \<Longrightarrow> f64_round x \<le> f64_round y"
proof -
  assume xy: "x \<le> y"
  consider "0 < x" | "x \<le> 0" "0 \<le> y" | "y < 0" by linarith
  then show ?thesis
  proof cases
    case 1
    then show ?thesis using f64_round_mono_pos xy by blast
  next
    case 2
    then show ?thesis using f64_round_nonneg [of y] f64_round_nonneg [of "- x"] by (simp add: f64_round_minus)
  next
    case 3
    then show ?thesis using f64_round_mono_pos [of "- y" "- x"] xy by (simp add: f64_round_minus)
  qed
qed

lemma f64_round_nat:
  assumes "n \<le> 2 ^ 53"
  shows "f64_round (of_nat n) = of_nat n"
proof (cases "n = 0")
  case False
  let ?x = "of_nat n :: rat"
  have x: "0 < ?x" using False by simp
  have "pow2 (lead ?x) \<le> of_nat n" by (rule lead_bracket(1) [OF x])
  also have "(of_nat n :: rat) \<le> 2 ^ 53" using assms by (metis of_nat_le_iff of_nat_numeral of_nat_power)
  also have "\<dots> = pow2 53" by (simp add: pow2_def)
  finally have le: "lead ?x \<le> 53" using pow2_less_iff [of 53 "lead ?x"] by auto
  have "\<exists>k. ?x / pow2 (ulp_exp ?x) = of_int k"
  proof (cases "lead ?x = 53")
    case True
    then have "pow2 53 \<le> ?x" using lead_bracket(1) [OF x] by simp
    then have "?x = 2 ^ 53" using \<open>(of_nat n :: rat) \<le> 2 ^ 53\<close> by (simp add: pow2_def)
    moreover have "ulp_exp ?x = 1" using True by (simp add: ulp_exp_def)
    ultimately show ?thesis by (intro exI [of _ "2 ^ 52"]) (simp add: pow2_def)
  next
    case False
    then have e: "ulp_exp ?x \<le> 0" using le by (simp add: ulp_exp_def)
    then have "?x / pow2 (ulp_exp ?x) = of_int (int n * 2 ^ nat (- ulp_exp ?x))"
      by (auto simp: pow2_def)
    then show ?thesis by blast
  qed
  then obtain k where "?x / pow2 (ulp_exp ?x) = of_int k" by blast
  then show ?thesis by (simp add: f64_round_pos [OF x] del: of_int_of_nat_eq) (metis nonzero_eq_divide_eq pow2_pos(3))
qed simp

text \<open>The two facts used everywhere: integers bound rounded results from either side.\<close>

lemma f64_round_le_nat: "x \<le> of_nat n \<Longrightarrow> n \<le> 2 ^ 53 \<Longrightarrow> f64_round x \<le> of_nat n"
  using f64_round_mono [of x "of_nat n"] f64_round_nat by simp

lemma f64_round_ge_nat: "of_nat n \<le> x \<Longrightarrow> n \<le> 2 ^ 53 \<Longrightarrow> of_nat n \<le> f64_round x"
  using f64_round_mono [of "of_nat n" x] f64_round_nat by simp

end
