(* ===== verification/AttackDetector.thy ===== *)
theory AttackDetector
  imports Prelude F64 "HOL-Library.AList"
begin

text \<open>
  The sustained-attack detector of \<^verbatim>\<open>cordon-core/src/attack_detector.rs\<close>: sliding-window
  counters, capacity-bounded tables of them, and the detector that blocks sources and
  suspends clients.  A \<^verbatim>\<open>HashMap\<close> is an association list with distinct keys, so that
  its size is a length.  The patterns an operation fires are part of its result; what
  listeners do with them is the node's business.
\<close>

record AttackDetectorConfig =
  auth_failure_threshold_per_minute :: nat
  global_failure_threshold_per_minute :: nat
  covert_channel_score_threshold :: rat
  replay_probe_threshold :: nat

datatype AttackPattern =
  AuthFailureFlood string nat
| GlobalAuthFailureFlood nat
| InvalidModelProbe string nat
| ReplayProbe string string nat
| CovertChannelSuspected string nat rat
| SessionFlood string nat
| EnclaveExceptionFlood nat rat

definition MAX_TRACKED_KEYS :: nat where "MAX_TRACKED_KEYS = 16384"

definition MAX_EVENTS_PER_COUNTER :: nat where "MAX_EVENTS_PER_COUNTER = 512"

definition SWEEP_INTERVAL_SECONDS :: int where "SWEEP_INTERVAL_SECONDS = 1"

subsection \<open>Window counters\<close>

record WindowCounter =
  events :: "datetime list"
  saturated_by :: nat
  window_seconds :: int

definition counter_new :: "int \<Rightarrow> WindowCounter" where
  "counter_new w = \<lparr>events = [], saturated_by = 0, window_seconds = w\<rparr>"

text \<open>\<^verbatim>\<open>partition_point\<close> on the ordered timestamps: the lapsed ones are a prefix.\<close>

definition counter_prune :: "WindowCounter \<Rightarrow> datetime \<Rightarrow> WindowCounter" where
  "counter_prune c now =
     (let cutoff = now - secs (window_seconds c);
          first_live = length (takeWhile (\<lambda>t. t \<le> cutoff) (events c))
      in if first_live > 0
         then (let rest = drop first_live (events c)
               in c\<lparr>events := rest, saturated_by := (if rest = [] then 0 else saturated_by c)\<rparr>)
         else c)"

definition counter_total :: "WindowCounter \<Rightarrow> nat" where
  "counter_total c = sat_add_u32 (length (events c) mod 4294967296) (saturated_by c)"

definition increment :: "WindowCounter \<Rightarrow> datetime \<Rightarrow> nat \<times> WindowCounter" where
  "increment c0 now =
     (let c = counter_prune c0 now;
          c' = (if length (events c) \<ge> MAX_EVENTS_PER_COUNTER
                then c\<lparr>saturated_by := sat_add_u32 (saturated_by c) 1\<rparr>
                else c\<lparr>events := events c @ [now]\<rparr>)
      in (counter_total c', c'))"

definition total_in_window :: "WindowCounter \<Rightarrow> datetime \<Rightarrow> nat \<times> WindowCounter" where
  "total_in_window c now = (let c' = counter_prune c now in (counter_total c', c'))"

definition is_lapsed :: "WindowCounter \<Rightarrow> datetime \<Rightarrow> bool \<times> WindowCounter" where
  "is_lapsed c now = (let c' = counter_prune c now in (events c' = [], c'))"

subsection \<open>Bounded tables of counters\<close>

record 'k BoundedCounters =
  counters :: "('k \<times> WindowCounter) list"
  table_window :: int
  last_sweep :: datetime

definition table_new :: "int \<Rightarrow> datetime \<Rightarrow> 'k BoundedCounters" where
  "table_new w now = \<lparr>counters = [], table_window = w, last_sweep = now\<rparr>"

text \<open>\<^verbatim>\<open>retain\<close> with \<^verbatim>\<open>is_lapsed\<close>, which prunes each counter as it looks at it.\<close>

definition retain_live :: "('k \<times> WindowCounter) list \<Rightarrow> datetime \<Rightarrow> ('k \<times> WindowCounter) list" where
  "retain_live cs now =
     map (\<lambda>(k, c). (k, snd (is_lapsed c now))) (filter (\<lambda>(k, c). \<not> fst (is_lapsed c now)) cs)"

definition prune_lapsed :: "'k BoundedCounters \<Rightarrow> datetime \<Rightarrow> 'k BoundedCounters" where
  "prune_lapsed t now = t\<lparr>counters := retain_live (counters t) now, last_sweep := now\<rparr>"

definition sweep_if_due :: "'k BoundedCounters \<Rightarrow> datetime \<Rightarrow> 'k BoundedCounters" where
  "sweep_if_due t now =
     (if num_seconds (now - last_sweep t) < SWEEP_INTERVAL_SECONDS then t else prune_lapsed t now)"

definition table_record :: "'k BoundedCounters \<Rightarrow> datetime \<Rightarrow> 'k \<Rightarrow> nat option \<times> 'k BoundedCounters" where
  "table_record t now key =
     (let full = (map_of (counters t) key = None \<and> length (counters t) \<ge> MAX_TRACKED_KEYS);
          t1 = (if full then sweep_if_due t now else t)
      in if full \<and> length (counters t1) \<ge> MAX_TRACKED_KEYS then (None, t1)
         else (let c = (case map_of (counters t1) key of Some c \<Rightarrow> c | None \<Rightarrow> counter_new (table_window t1));
                   (n, c') = increment c now
               in (Some n, t1\<lparr>counters := AList.update key c' (counters t1)\<rparr>)))"

subsection \<open>The detector\<close>

record DetectorState =
  auth_failures :: "string BoundedCounters"
  global_auth_failures :: WindowCounter
  invalid_model_probes :: "string BoundedCounters"
  replay_probes :: "(string \<times> string) BoundedCounters"
  covert_channel_events :: "(string \<times> (WindowCounter \<times> rat)) list"
  session_events :: "string BoundedCounters"
  enclave_exceptions :: WindowCounter
  enclave_exception_baseline :: rat
  suspended_clients :: "(string \<times> (datetime \<times> string)) list"
  blocked_ips :: "(string \<times> datetime) list"

definition detector_new :: "datetime \<Rightarrow> DetectorState" where
  "detector_new now = \<lparr>auth_failures = table_new 60 now, global_auth_failures = counter_new 60,
     invalid_model_probes = table_new 300 now, replay_probes = table_new 3600 now,
     covert_channel_events = [], session_events = table_new 60 now,
     enclave_exceptions = counter_new 60, enclave_exception_baseline = 1 / 2,
     suspended_clients = [], blocked_ips = []\<rparr>"

definition record_auth_failure ::
  "AttackDetectorConfig \<Rightarrow> DetectorState \<Rightarrow> datetime \<Rightarrow> string \<Rightarrow> AttackPattern option \<times> DetectorState" where
  "record_auth_failure cfg s now source =
     (let (r, t) = table_record (auth_failures s) now source;
          cnt = (case r of Some n \<Rightarrow> n | None \<Rightarrow> 0);
          (global, g) = increment (global_auth_failures s) now;
          s1 = s\<lparr>auth_failures := t, global_auth_failures := g\<rparr>
      in if cnt > 0 \<and> cnt \<ge> auth_failure_threshold_per_minute cfg
         then (Some (AuthFailureFlood source cnt),
               s1\<lparr>blocked_ips := AList.update source (now + secs 3600) (blocked_ips s1)\<rparr>)
         else if global \<ge> global_failure_threshold_per_minute cfg
         then (Some (GlobalAuthFailureFlood global), s1)
         else (None, s1))"

definition is_ip_blocked :: "DetectorState \<Rightarrow> datetime \<Rightarrow> string \<Rightarrow> bool \<times> DetectorState" where
  "is_ip_blocked s now source = (case map_of (blocked_ips s) source of
     Some until \<Rightarrow> if until > now then (True, s)
       else (False, s\<lparr>blocked_ips := AList.delete source (blocked_ips s)\<rparr>)
   | None \<Rightarrow> (False, s))"

definition record_invalid_model ::
  "DetectorState \<Rightarrow> datetime \<Rightarrow> string \<Rightarrow> AttackPattern option \<times> DetectorState" where
  "record_invalid_model s now client_id =
     (case table_record (invalid_model_probes s) now client_id of
        (None, t) \<Rightarrow> (None, s\<lparr>invalid_model_probes := t\<rparr>)
      | (Some cnt, t) \<Rightarrow>
          (let s1 = s\<lparr>invalid_model_probes := t\<rparr>
           in if cnt \<ge> 5
              then (Some (InvalidModelProbe client_id cnt),
                    s1\<lparr>suspended_clients := AList.update client_id
                         (now + secs 3600, ''Invalid model probe: '' @ show_nat cnt @ '' attempts'')
                         (suspended_clients s1)\<rparr>)
              else (None, s1)))"

definition record_input_hash ::
  "AttackDetectorConfig \<Rightarrow> DetectorState \<Rightarrow> datetime \<Rightarrow> string \<Rightarrow> string \<Rightarrow> bool \<times> AttackPattern option \<times> DetectorState"
  where
  "record_input_hash cfg s now client_id input_hash =
     (case table_record (replay_probes s) now (client_id, input_hash) of
        (None, t) \<Rightarrow> (False, None, s\<lparr>replay_probes := t\<rparr>)
      | (Some cnt, t) \<Rightarrow>
          if cnt \<ge> replay_probe_threshold cfg
          then (True, Some (ReplayProbe client_id input_hash cnt), s\<lparr>replay_probes := t\<rparr>)
          else (False, None, s\<lparr>replay_probes := t\<rparr>))"

text \<open>\<^verbatim>\<open>{:.2}\<close> of a non-negative float: two decimals, exact value rounded half to even.\<close>

definition show_fixed2 :: "rat \<Rightarrow> string" where
  "show_fixed2 x = (let n = nat (half_even (x * 100))
     in show_nat (n div 100) @ ''.'' @ show_nat (n mod 100 div 10) @ show_nat (n mod 10))"

definition record_covert_channel_score ::
  "AttackDetectorConfig \<Rightarrow> DetectorState \<Rightarrow> datetime \<Rightarrow> string \<Rightarrow> rat \<Rightarrow> bool \<times> AttackPattern option \<times> DetectorState"
  where
  "record_covert_channel_score cfg s now client_id score =
     (if score < covert_channel_score_threshold cfg then (False, None, s)
      else
        let (c0, m0) = (case map_of (covert_channel_events s) client_id of
               Some e \<Rightarrow> e | None \<Rightarrow> (counter_new 3600, 0));
            (_, c1) = increment c0 now;
            max_score = max m0 score;
            (cnt, c2) = total_in_window c1 now;
            s1 = s\<lparr>covert_channel_events := AList.update client_id (c2, max_score) (covert_channel_events s)\<rparr>
        in if cnt \<ge> 3
           then (True, Some (CovertChannelSuspected client_id cnt max_score),
                 s1\<lparr>suspended_clients := AList.update client_id
                      (now + secs 3600, ''Covert channel suspected: score '' @ show_fixed2 max_score
                         @ '', '' @ show_nat cnt @ '' events'')
                      (suspended_clients s1)\<rparr>)
           else (False, None, s1))"

definition record_session_event ::
  "DetectorState \<Rightarrow> datetime \<Rightarrow> string \<Rightarrow> AttackPattern option \<times> DetectorState" where
  "record_session_event s now client_id =
     (case table_record (session_events s) now client_id of
        (None, t) \<Rightarrow> (None, s\<lparr>session_events := t\<rparr>)
      | (Some cnt, t) \<Rightarrow>
          (if cnt \<ge> 100 then Some (SessionFlood client_id cnt) else None, s\<lparr>session_events := t\<rparr>))"

text \<open>The integer square root, for \<^verbatim>\<open>f64::sqrt\<close> to 120 binary places before rounding.\<close>

fun isqrt :: "nat \<Rightarrow> nat" where
  "isqrt n = (if n = 0 then 0 else let r = 2 * isqrt (n div 4) in if (r + 1) * (r + 1) \<le> n then r + 1 else r)"

declare isqrt.simps [simp del]

definition f64_sqrt :: "rat \<Rightarrow> rat" where
  "f64_sqrt x = (let (n, d) = quotient_of x
     in f64_round (of_nat (isqrt (nat (n * 2 ^ 240 div d))) / 2 ^ 120))"

definition record_enclave_exception ::
  "DetectorState \<Rightarrow> datetime \<Rightarrow> AttackPattern option \<times> DetectorState" where
  "record_enclave_exception s now =
     (let (cnt, c) = increment (enclave_exceptions s) now;
          baseline = enclave_exception_baseline s;
          z_score = (if baseline > 0 then f64_div (f64_sub (of_nat cnt) baseline) (f64_sqrt baseline)
                     else of_nat cnt)
      in (if z_score > 3 then Some (EnclaveExceptionFlood cnt baseline) else None,
          s\<lparr>enclave_exceptions := c\<rparr>))"

definition is_client_suspended :: "DetectorState \<Rightarrow> datetime \<Rightarrow> string \<Rightarrow> string option \<times> DetectorState" where
  "is_client_suspended s now client_id = (case map_of (suspended_clients s) client_id of
     Some (until, reason) \<Rightarrow> if until > now then (Some reason, s)
       else (None, s\<lparr>suspended_clients := AList.delete client_id (suspended_clients s)\<rparr>)
   | None \<Rightarrow> (None, s))"

definition cleanup :: "DetectorState \<Rightarrow> datetime \<Rightarrow> DetectorState" where
  "cleanup s now = s\<lparr>
     blocked_ips := filter (\<lambda>(_, until). until > now) (blocked_ips s),
     suspended_clients := filter (\<lambda>(_, until, _). until > now) (suspended_clients s),
     auth_failures := prune_lapsed (auth_failures s) now,
     invalid_model_probes := prune_lapsed (invalid_model_probes s) now,
     replay_probes := prune_lapsed (replay_probes s) now,
     session_events := prune_lapsed (session_events s) now,
     covert_channel_events :=
       map (\<lambda>(k, c, m). (k, snd (is_lapsed c now), m))
         (filter (\<lambda>(k, c, m). \<not> fst (is_lapsed c now)) (covert_channel_events s)),
     global_auth_failures := counter_prune (global_auth_failures s) now,
     enclave_exceptions := counter_prune (enclave_exceptions s) now\<rparr>"

definition tracked_keys :: "DetectorState \<Rightarrow> nat" where
  "tracked_keys s = length (counters (auth_failures s)) + length (counters (invalid_model_probes s))
     + length (counters (replay_probes s)) + length (counters (session_events s))
     + length (covert_channel_events s)"

subsection \<open>Runs of the detector\<close>

datatype detector_event =
  AuthFailure datetime string | IpQuery datetime string | InvalidModel datetime string
| InputHash datetime string string | CovertScore datetime string rat | SessionEvent datetime string
| EnclaveException datetime | SuspensionQuery datetime string | Cleanup datetime

fun detector_step :: "AttackDetectorConfig \<Rightarrow> DetectorState \<Rightarrow> detector_event \<Rightarrow> DetectorState" where
  "detector_step cfg s (AuthFailure now src) = snd (record_auth_failure cfg s now src)"
| "detector_step cfg s (IpQuery now src) = snd (is_ip_blocked s now src)"
| "detector_step cfg s (InvalidModel now c) = snd (record_invalid_model s now c)"
| "detector_step cfg s (InputHash now c h) = snd (snd (record_input_hash cfg s now c h))"
| "detector_step cfg s (CovertScore now c x) = snd (snd (record_covert_channel_score cfg s now c x))"
| "detector_step cfg s (SessionEvent now c) = snd (record_session_event s now c)"
| "detector_step cfg s (EnclaveException now) = snd (record_enclave_exception s now)"
| "detector_step cfg s (SuspensionQuery now c) = snd (is_client_suspended s now c)"
| "detector_step cfg s (Cleanup now) = cleanup s now"


text \<open>The bounds every part of the state keeps.\<close>

definition counter_ok :: "WindowCounter \<Rightarrow> bool" where
  "counter_ok c \<longleftrightarrow> length (events c) \<le> MAX_EVENTS_PER_COUNTER \<and> saturated_by c \<le> u32_max"

definition table_ok :: "'k BoundedCounters \<Rightarrow> bool" where
  "table_ok t \<longleftrightarrow> distinct (map fst (counters t)) \<and> length (counters t) \<le> MAX_TRACKED_KEYS \<and>
     (\<forall>(k, c) \<in> set (counters t). counter_ok c)"

definition detector_ok :: "DetectorState \<Rightarrow> bool" where
  "detector_ok s \<longleftrightarrow> table_ok (auth_failures s) \<and> table_ok (invalid_model_probes s) \<and>
     table_ok (replay_probes s) \<and> table_ok (session_events s) \<and>
     counter_ok (global_auth_failures s) \<and> counter_ok (enclave_exceptions s) \<and>
     distinct (map fst (covert_channel_events s)) \<and> (\<forall>(k, c, m) \<in> set (covert_channel_events s). counter_ok c)"

text \<open>The specification of a window counter: the instants seen that are inside the window.\<close>

definition live :: "int \<Rightarrow> datetime \<Rightarrow> datetime list \<Rightarrow> datetime list" where
  "live w now ts = filter (\<lambda>t. now - secs w < t) ts"

definition feed :: "WindowCounter \<Rightarrow> datetime list \<Rightarrow> WindowCounter" where
  "feed c ts = run (\<lambda>c t. snd (increment c t)) c ts"

subsection \<open>Counters\<close>

lemma counter_prune_window [simp]: "window_seconds (counter_prune c now) = window_seconds c"
  by (simp add: counter_prune_def Let_def)

lemma counter_prune_ok: "counter_ok c \<Longrightarrow> counter_ok (counter_prune c now)"
  by (auto simp: counter_prune_def Let_def counter_ok_def)

lemma increment_ok: "counter_ok c \<Longrightarrow> counter_ok (snd (increment c now))"
  using counter_prune_ok [of c now] by (auto simp: increment_def Let_def counter_ok_def)

lemma counter_new_ok [simp]: "counter_ok (counter_new w)"
  by (simp add: counter_ok_def counter_new_def)

lemma increment_window [simp]: "window_seconds (snd (increment c now)) = window_seconds c"
  by (simp add: increment_def Let_def)

lemma sorted_drop_takeWhile:
  "sorted xs \<Longrightarrow> dropWhile (\<lambda>t. t \<le> (x :: int)) xs = filter (\<lambda>t. x < t) xs"
proof (induction xs)
  case (Cons a xs)
  show ?case
  proof (cases "a \<le> x")
    case False
    then have "\<forall>t \<in> set xs. x < t" using Cons.prems by fastforce
    then have "filter (\<lambda>t. x < t) xs = xs" by (simp add: filter_id_conv)
    then show ?thesis using False by simp
  qed (use Cons in simp)
qed simp

text \<open>On ordered timestamps the binary search finds exactly the live ones.\<close>

lemma counter_prune_dropWhile:
  "events (counter_prune c now) = dropWhile (\<lambda>t. t \<le> now - secs (window_seconds c)) (events c)"
  by (simp add: counter_prune_def Let_def dropWhile_eq_drop)

lemma counter_prune_events:
  assumes "sorted (events c)"
  shows "events (counter_prune c now) = live (window_seconds c) now (events c)"
  using sorted_drop_takeWhile [OF assms] by (simp add: counter_prune_dropWhile live_def)

lemma live_live: "a \<le> b \<Longrightarrow> live w b (live w a ts) = live w b ts"
  by (auto simp: live_def intro!: filter_cong)

text \<open>While no window holds more than the cap, the counter is the specification.\<close>

lemma feed_live:
  assumes "sorted ts" "0 < w"
    and "\<And>us t vs. ts = us @ t # vs \<Longrightarrow> length (live w t (us @ [t])) \<le> MAX_EVENTS_PER_COUNTER"
  shows "events (feed (counter_new w) ts) = (if ts = [] then [] else live w (last ts) ts) \<and>
    saturated_by (feed (counter_new w) ts) = 0 \<and> window_seconds (feed (counter_new w) ts) = w"
  using assms(1,3)
proof (induction ts rule: rev_induct)
  case Nil
  then show ?case by (simp add: feed_def counter_new_def)
next
  case (snoc t ts)
  let ?c = "feed (counter_new w) ts"
  have IH: "events ?c = (if ts = [] then [] else live w (last ts) ts)" "saturated_by ?c = 0" "window_seconds ?c = w"
    using snoc.IH snoc.prems(1) snoc.prems(2) [of _ _ "_ @ [t]"] by (auto simp: sorted_append)
  have srt: "sorted (events ?c)" using IH(1) snoc.prems(1) by (auto simp: live_def sorted_append sorted_wrt_filter)
  have le: "ts \<noteq> [] \<Longrightarrow> last ts \<le> t" using snoc.prems(1) by (auto simp: sorted_append)
  have pe: "events (counter_prune ?c t) = live w t ts"
    using counter_prune_events [OF srt, of t] IH(1,3) live_live [OF le] by (auto simp: live_def)
  have ps: "saturated_by (counter_prune ?c t) = 0" using IH(2) by (simp add: counter_prune_def Let_def)
  have self: "live w t [t] = [t]" using assms(2) by (simp add: live_def secs_def)
  have "length (live w t ts @ [t]) \<le> MAX_EVENTS_PER_COUNTER"
    using snoc.prems(2) [of ts t "[]"] self by (simp add: live_def)
  then have small: "\<not> length (events (counter_prune ?c t)) \<ge> MAX_EVENTS_PER_COUNTER" using pe by simp
  have "feed (counter_new w) (ts @ [t]) = snd (increment ?c t)" by (simp add: feed_def)
  then show ?case using small pe ps self IH(3) by (simp add: increment_def Let_def live_def)
qed

lemma counter_total_exact:
  "saturated_by c = 0 \<Longrightarrow> length (events c) \<le> MAX_EVENTS_PER_COUNTER \<Longrightarrow> counter_total c = length (events c)"
  by (simp add: counter_total_def sat_add_u32_def MAX_EVENTS_PER_COUNTER_def)

lemma fst_increment: "fst (increment c t) = counter_total (snd (increment c t))"
  by (simp add: increment_def Let_def)

text \<open>C28. A window counter counts the window: fed with instants in order, of which no window
  ever holds more than the cap of 512, each increment returns exactly the number of
  instants inside the window that ends now.\<close>

theorem window_counter_refines_sliding_window:
  assumes "sorted (ts @ [now])" "0 < w"
    and "\<And>us t vs. ts @ [now] = us @ t # vs \<Longrightarrow> length (live w t (us @ [t])) \<le> MAX_EVENTS_PER_COUNTER"
  shows "fst (increment (feed (counter_new w) ts) now) = length (live w now (ts @ [now]))"
proof -
  have f: "feed (counter_new w) (ts @ [now]) = snd (increment (feed (counter_new w) ts) now)" by (simp add: feed_def)
  show ?thesis using feed_live [OF assms] assms(3) [of ts now "[]"] f
    by (simp add: fst_increment counter_total_exact)
qed

theorem window_counter_refines_sliding_window_witness:
  "fst (increment (feed (counter_new 60) [0, secs 30]) (secs 70)) = 2"
proof -
  have cap: "length (live 60 t (us @ [t])) \<le> MAX_EVENTS_PER_COUNTER"
    if "[0, secs 30] @ [secs 70] = us @ t # vs" for us t vs
  proof -
    have "length (us @ [t]) \<le> 3" using arg_cong [OF that, of length] by simp
    then show ?thesis using length_filter_le [of "\<lambda>x. t - secs 60 < x" "us @ [t]"]
      by (simp add: live_def MAX_EVENTS_PER_COUNTER_def)
  qed
  have "sorted ([0, secs 30] @ [secs 70])" "(0 :: int) < 60" by (simp_all add: secs_def)
  from window_counter_refines_sliding_window [OF this cap] show ?thesis by (simp add: live_def secs_def)
qed

subsection \<open>Tables\<close>

lemma retain_live_keys: "map fst (retain_live cs now) = map fst (filter (\<lambda>(k, c). \<not> fst (is_lapsed c now)) cs)"
  by (simp add: retain_live_def case_prod_beta comp_def)

lemma retain_live_length: "length (retain_live cs now) \<le> length cs"
  by (simp add: retain_live_def)

lemma is_lapsed_ok: "counter_ok c \<Longrightarrow> counter_ok (snd (is_lapsed c now))"
  by (simp add: is_lapsed_def Let_def counter_prune_ok)

lemma prune_lapsed_ok:
  assumes "table_ok t"
  shows "table_ok (prune_lapsed t now)"
proof -
  have "distinct (map fst (retain_live (counters t) now))"
    using assms by (simp add: retain_live_keys table_ok_def distinct_map_filter)
  moreover have "length (retain_live (counters t) now) \<le> MAX_TRACKED_KEYS"
    using assms retain_live_length [of "counters t" now] by (simp add: table_ok_def)
  moreover have "\<forall>(k, c) \<in> set (retain_live (counters t) now). counter_ok c"
    using assms is_lapsed_ok by (fastforce simp: retain_live_def table_ok_def)
  ultimately show ?thesis by (simp add: table_ok_def prune_lapsed_def)
qed

lemma sweep_ok: "table_ok t \<Longrightarrow> table_ok (sweep_if_due t now)"
  by (simp add: sweep_if_due_def prune_lapsed_ok)

lemma length_update:
  "length (AList.update k v al) = (if k \<in> fst ` set al then length al else Suc (length al))"
  by (induction al) auto

lemma update_values: "x \<in> set (AList.update k v al) \<Longrightarrow> x = (k, v) \<or> x \<in> set al"
  by (induction al) (auto split: if_splits)

lemma table_update_ok:
  assumes "table_ok t" "counter_ok c" "map_of (counters t) k \<noteq> None \<or> length (counters t) < MAX_TRACKED_KEYS"
  shows "table_ok (t\<lparr>counters := AList.update k c (counters t)\<rparr>)"
proof -
  have "length (AList.update k c (counters t)) \<le> MAX_TRACKED_KEYS"
    using assms(1,3) by (auto simp: length_update table_ok_def map_of_eq_None_iff)
  then show ?thesis using assms(1,2) update_values [of _ k c "counters t"]
    by (fastforce simp: table_ok_def distinct_update)
qed

lemma table_record_ok:
  assumes "table_ok t"
  shows "table_ok (snd (table_record t now k))"
proof -
  have upd: "table_ok (t'\<lparr>counters := AList.update k (snd (increment
      (case map_of (counters t') k of Some c \<Rightarrow> c | None \<Rightarrow> counter_new (table_window t')) now)) (counters t')\<rparr>)"
    if "table_ok t'" "map_of (counters t') k \<noteq> None \<or> length (counters t') < MAX_TRACKED_KEYS" for t'
  proof (rule table_update_ok [OF that(1) _ that(2)])
    show "counter_ok (snd (increment (case map_of (counters t') k of Some c \<Rightarrow> c
        | None \<Rightarrow> counter_new (table_window t')) now))"
      using that(1) by (intro increment_ok) (auto simp: table_ok_def split: option.splits dest: map_of_SomeD)
  qed
  show ?thesis using assms sweep_ok [OF assms, of now] upd [of t] upd [of "sweep_if_due t now"]
    by (auto simp: table_record_def Let_def case_prod_beta not_le)
qed


subsection \<open>The detector keeps its bounds\<close>

lemma covert_update_ok:
  assumes "distinct (map fst es)" "\<forall>(k, c, m) \<in> set es. counter_ok c" "counter_ok c'"
  shows "distinct (map fst (AList.update k (c', m') es))"
    "\<forall>(k, c, m) \<in> set (AList.update k (c', m') es). counter_ok c"
  using assms update_values [of _ k "(c', m')" es] by (fastforce simp: distinct_update)+

lemma covert_score_ok:
  assumes "detector_ok s"
  shows "detector_ok (snd (snd (record_covert_channel_score cfg s now c x)))"
proof -
  obtain c0 m0 where e: "(case map_of (covert_channel_events s) c of Some e \<Rightarrow> e | None \<Rightarrow> (counter_new 3600, 0)) = (c0, m0)"
    by fastforce
  have "counter_ok c0" using e assms
    by (auto simp: detector_ok_def split: option.splits dest: map_of_SomeD) (metis counter_new_ok)?
  then have "counter_ok (counter_prune (snd (increment c0 now)) now)"
    by (intro counter_prune_ok increment_ok)
  then show ?thesis
    using assms e covert_update_ok [of "covert_channel_events s"]
    by (auto simp: record_covert_channel_score_def Let_def case_prod_beta detector_ok_def total_in_window_def)
qed

lemma cleanup_ok:
  assumes "detector_ok s"
  shows "detector_ok (cleanup s now)"
proof -
  have "distinct (map fst (map (\<lambda>(k, c, m). (k, snd (is_lapsed c now), m))
      (filter (\<lambda>(k, c, m). \<not> fst (is_lapsed c now)) (covert_channel_events s))))"
    using assms by (simp add: detector_ok_def case_prod_beta comp_def distinct_map_filter)
  moreover have "\<forall>(k, c, m) \<in> set (map (\<lambda>(k, c, m). (k, snd (is_lapsed c now), m))
      (filter (\<lambda>(k, c, m). \<not> fst (is_lapsed c now)) (covert_channel_events s))). counter_ok c"
    using assms is_lapsed_ok by (fastforce simp: detector_ok_def)
  ultimately show ?thesis using assms by (simp add: cleanup_def detector_ok_def prune_lapsed_ok counter_prune_ok)
qed

lemma auth_failure_ok:
  assumes "detector_ok s"
  shows "detector_ok (snd (record_auth_failure cfg s now src))"
  using assms table_record_ok [of "auth_failures s" now src] increment_ok [of "global_auth_failures s" now]
  by (simp add: record_auth_failure_def Let_def case_prod_beta detector_ok_def)

lemma table_ops_ok:
  assumes "detector_ok s"
  shows "detector_ok (snd (record_invalid_model s now c))" "detector_ok (snd (snd (record_input_hash cfg s now c h)))"
    "detector_ok (snd (record_session_event s now c))"
  using assms table_record_ok [of "invalid_model_probes s" now c] table_record_ok [of "replay_probes s" now "(c, h)"]
    table_record_ok [of "session_events s" now c]
  by (auto simp: record_invalid_model_def record_input_hash_def record_session_event_def Let_def detector_ok_def
      split: prod.splits option.splits)

lemma detector_step_ok: "detector_ok s \<Longrightarrow> detector_ok (detector_step cfg s e)"
proof (cases e)
  case (IpQuery now src)
  assume "detector_ok s"
  then show ?thesis using IpQuery by (auto simp: is_ip_blocked_def detector_ok_def split: option.splits)
next
  case (EnclaveException now)
  assume "detector_ok s"
  then show ?thesis using EnclaveException increment_ok [of "enclave_exceptions s" now]
    by (simp add: record_enclave_exception_def Let_def case_prod_beta detector_ok_def)
next
  case (SuspensionQuery now c)
  assume "detector_ok s"
  then show ?thesis using SuspensionQuery by (auto simp: is_client_suspended_def detector_ok_def split: option.splits)
qed (simp_all add: auth_failure_ok table_ops_ok covert_score_ok cleanup_ok)

interpretation detector_sys: invariant_system "detector_step cfg" "\<lambda>_ _. True" detector_ok for cfg
  by unfold_locales (rule detector_step_ok)

lemma detector_new_ok: "detector_ok (detector_new now)"
  by (simp add: detector_ok_def detector_new_def table_ok_def table_new_def)



subsection \<open>A flood is answered\<close>

definition tracked :: "'k BoundedCounters \<Rightarrow> 'k \<Rightarrow> WindowCounter" where
  "tracked t k = (case map_of (counters t) k of Some c \<Rightarrow> c | None \<Rightarrow> counter_new (table_window t))"

definition admits :: "'k BoundedCounters \<Rightarrow> 'k \<Rightarrow> bool" where
  "admits t k \<longleftrightarrow> map_of (counters t) k \<noteq> None \<or> length (counters t) < MAX_TRACKED_KEYS"

lemma table_record_admitted:
  assumes "admits t k"
  shows "table_record t now k = (Some (fst (increment (tracked t k) now)),
    t\<lparr>counters := AList.update k (snd (increment (tracked t k) now)) (counters t)\<rparr>)"
  using assms by (auto simp: table_record_def admits_def tracked_def Let_def case_prod_beta)

lemma tracked_after_record:
  assumes "admits t k"
  shows "tracked (snd (table_record t now k)) k = snd (increment (tracked t k) now)"
    "admits (snd (table_record t now k)) k" "table_window (snd (table_record t now k)) = table_window t"
  by (simp_all add: table_record_admitted [OF assms] tracked_def admits_def update_conv)

lemma auth_failures_step [simp]:
  "auth_failures (detector_step cfg s (AuthFailure now src)) = snd (table_record (auth_failures s) now src)"
  by (simp add: record_auth_failure_def Let_def case_prod_beta)

lemma flood_counter:
  assumes "admits (auth_failures s) src"
  shows "admits (auth_failures (run (detector_step cfg) s (map (\<lambda>t. AuthFailure t src) ts))) src \<and>
    tracked (auth_failures (run (detector_step cfg) s (map (\<lambda>t. AuthFailure t src) ts))) src =
      feed (tracked (auth_failures s) src) ts"
proof (induction ts rule: rev_induct)
  case (snoc t ts)
  then show ?case using tracked_after_record [of "auth_failures (run (detector_step cfg) s (map (\<lambda>t. AuthFailure t src) ts))" src t]
    by (simp add: feed_def del: detector_step.simps)
qed (simp add: feed_def assms)

lemma auth_failure_blocks:
  assumes "admits (auth_failures s) src" "0 < auth_failure_threshold_per_minute cfg"
    and "auth_failure_threshold_per_minute cfg \<le> fst (increment (tracked (auth_failures s) src) now)"
  shows "map_of (blocked_ips (detector_step cfg s (AuthFailure now src))) src = Some (now + secs 3600)"
  using assms by (simp add: record_auth_failure_def table_record_admitted Let_def case_prod_beta update_conv)

lemma auth_failure_other_sources:
  "src' \<noteq> src \<Longrightarrow> map_of (blocked_ips (detector_step cfg s (AuthFailure now src))) src' = map_of (blocked_ips s) src'"
  by (simp add: record_auth_failure_def Let_def case_prod_beta update_conv)

lemma short_flood_live:
  assumes "sorted ts" "ts \<noteq> []" "last ts - hd ts < secs w" "t \<in> set ts" "us @ vs = ts" "us \<noteq> []" "t = last us"
  shows "live w t us = us"
proof -
  have "\<forall>x \<in> set us. t - secs w < x"
  proof
    fix x assume "x \<in> set us"
    then have "x \<in> set ts" using assms(5) by auto
    then have "hd ts \<le> x" using assms(1,2) by (cases ts) auto
    moreover have "t \<le> last ts" using sorted_key_last [of "\<lambda>x. x" ts t] assms(1,4) by simp
    ultimately show "t - secs w < x" using assms(3) by linarith
  qed
  then show ?thesis by (simp add: live_def filter_id_conv)
qed



end
