(* ===== verification/Config.thy ===== *)
theory Config
  imports Errors Timing AttackDetector
begin

text \<open>
  The deployment configuration of \<^verbatim>\<open>cordon-core/src/config.rs\<close>: every section, the
  defaults, and the validation that refuses a configuration weaker than its mode claims.

  Paths are strings and a \<^verbatim>\<open>BTreeMap\<close> an association list.  IP address parsing is that of
  the standard library and is modelled; the \<^verbatim>\<open>url\<close> crate is the parameter \<open>url_parse\<close>,
  which yields the host of a URL it accepts.
\<close>

datatype DeploymentMode = Dark | Island | Vault | SovereignCloud | Light

definition mode_display :: "DeploymentMode \<Rightarrow> string" where
  "mode_display m = (case m of Dark \<Rightarrow> ''dark'' | Island \<Rightarrow> ''island'' | Vault \<Rightarrow> ''vault''
     | SovereignCloud \<Rightarrow> ''sovereign_cloud'' | Light \<Rightarrow> ''light'')"

datatype TeePreference = SgxV2 | AmdSevSnp | ArmTrustZone | Simulation

definition tee_display :: "TeePreference \<Rightarrow> string" where
  "tee_display t = (case t of SgxV2 \<Rightarrow> ''intel_sgx_v2'' | AmdSevSnp \<Rightarrow> ''amd_sev_snp''
     | ArmTrustZone \<Rightarrow> ''arm_trustzone'' | Simulation \<Rightarrow> ''simulation'')"

record TeeConfig =
  tee_preferred :: TeePreference
  tee_minimum_security_version :: nat

definition tee_default :: TeeConfig where
  "tee_default = \<lparr>tee_preferred = AmdSevSnp, tee_minimum_security_version = 3\<rparr>"

datatype OutboundPolicy = ZeroEgress | Restricted

record NetworkConfig =
  outbound_policy :: OutboundPolicy
  bind_address :: string
  api_port :: nat
  tls_cert_path :: string
  tls_key_path :: string
  client_ca_path :: "string option"
  require_mtls :: bool

definition network_default :: NetworkConfig where
  "network_default = \<lparr>outbound_policy = ZeroEgress, bind_address = ''0.0.0.0'', api_port = 8443,
     tls_cert_path = ''/etc/cordon/tls/server.crt'', tls_key_path = ''/etc/cordon/tls/server.key'',
     client_ca_path = Some ''/etc/cordon/tls/client-ca.crt'', require_mtls = True\<rparr>"

definition timing_default :: TimingNormalizationConfig where
  "timing_default = \<lparr>tn_enabled = True, tn_mode = Bucket, tn_bucket_ms = 100, tn_fixed_floor_ms = 1000\<rparr>"

record BootConfig =
  tpm_required :: bool
  tpm_version :: string
  secure_boot :: bool
  dm_verity :: bool

definition boot_default :: BootConfig where
  "boot_default = \<lparr>tpm_required = True, tpm_version = ''2.0'', secure_boot = True, dm_verity = True\<rparr>"

record ModelStoreConfig =
  ms_path :: string
  integrity_check_interval_minutes :: nat
  ms_halt_on_tamper :: bool
  staging_dir_path :: "string option"

definition model_store_default :: ModelStoreConfig where
  "model_store_default = \<lparr>ms_path = ''/cordon/bundles'', integrity_check_interval_minutes = 15,
     ms_halt_on_tamper = True, staging_dir_path = None\<rparr>"

record InferenceConfig =
  max_concurrent_requests :: nat
  default_timeout_seconds :: nat
  kv_cache_zero_on_session_end :: bool
  multi_tenant :: bool
  max_output_tokens :: nat

definition inference_default :: InferenceConfig where
  "inference_default = \<lparr>max_concurrent_requests = 32, default_timeout_seconds = 120,
     kv_cache_zero_on_session_end = True, multi_tenant = False, max_output_tokens = 4096\<rparr>"

text \<open>0.7 as an \<^verbatim>\<open>f32\<close>.\<close>

definition attack_default :: AttackDetectorConfig where
  "attack_default = \<lparr>auth_failure_threshold_per_minute = 10, global_failure_threshold_per_minute = 50,
     covert_channel_score_threshold = 11744051 / 16777216, replay_probe_threshold = 20\<rparr>"

datatype RuntimeBackend = Supervised | External | NoBackend

datatype GpuLayers = Count nat | Auto | AllLayers

definition gpu_display :: "GpuLayers \<Rightarrow> string" where
  "gpu_display g = (case g of Count n \<Rightarrow> show_nat n | Auto \<Rightarrow> ''auto'' | AllLayers \<Rightarrow> ''all'')"

definition is_digit :: "char \<Rightarrow> bool" where
  "is_digit c = (48 \<le> (of_char c :: nat) \<and> (of_char c :: nat) \<le> 57)"

definition digits_value :: "string \<Rightarrow> nat" where
  "digits_value s = foldl (\<lambda>n c. n * 10 + (of_char c - 48)) 0 s"

text \<open>\<^verbatim>\<open>str::parse::<u32>\<close>: an optional plus sign, at least one digit, no overflow.\<close>

definition parse_u32 :: "string \<Rightarrow> nat option" where
  "parse_u32 s = (let d = (case s of c # cs \<Rightarrow> if c = CHR ''+'' then cs else s | [] \<Rightarrow> [])
     in if d = [] \<or> \<not> list_all is_digit d \<or> digits_value d > u32_max then None else Some (digits_value d))"

definition gpu_from_str :: "string \<Rightarrow> string + GpuLayers" where
  "gpu_from_str s = (let w = to_lower (trim s) in
     if w = ''auto'' then Inr Auto else if w = ''all'' then Inr AllLayers
     else (case parse_u32 w of Some n \<Rightarrow> Inr (Count n)
           | None \<Rightarrow> Inl ([CHR 0x27] @ s @ [CHR 0x27] @ '' is not a layer count; use a number, '' @ [CHR 0x22] @ ''auto''
                @ [CHR 0x22] @ '', or '' @ [CHR 0x22] @ ''all'' @ [CHR 0x22])))"

record RuntimeConfig =
  backend :: RuntimeBackend
  binary :: "string option"
  model_path :: "string option"
  model_dir :: string
  endpoint_url :: "string option"
  endpoint_api_key_env :: "string option"
  context_size :: nat
  gpu_layers :: GpuLayers
  threads :: "nat option"
  parallel_slots :: nat
  startup_timeout_seconds :: nat
  extra_args :: "string list"
  no_mmap :: bool

definition runtime_default :: RuntimeConfig where
  "runtime_default = \<lparr>backend = Supervised, binary = None, model_path = None,
     model_dir = ''/var/lib/cordon/models'', endpoint_url = None, endpoint_api_key_env = None,
     context_size = 4096, gpu_layers = Count 0, threads = None, parallel_slots = 4,
     startup_timeout_seconds = 180, extra_args = [], no_mmap = False\<rparr>"

record UiConfig =
  ui_enabled :: bool
  ui_bind_address :: string
  ui_port :: nat

definition ui_default :: UiConfig where
  "ui_default = \<lparr>ui_enabled = False, ui_bind_address = ''127.0.0.1'', ui_port = 8478\<rparr>"

datatype MeasurementSource = Tpm2 | SevSnp | NitroEnclave | SoftwareMeasurement

definition is_hardware :: "MeasurementSource \<Rightarrow> bool" where
  "is_hardware m \<longleftrightarrow> m \<in> {Tpm2, SevSnp, NitroEnclave}"

definition provides_memory_confidentiality :: "MeasurementSource \<Rightarrow> bool" where
  "provides_memory_confidentiality m \<longleftrightarrow> m \<in> {SevSnp, NitroEnclave}"

definition source_display :: "MeasurementSource \<Rightarrow> string" where
  "source_display m = (case m of Tpm2 \<Rightarrow> ''tpm2'' | SevSnp \<Rightarrow> ''sev_snp'' | NitroEnclave \<Rightarrow> ''nitro_enclave''
     | SoftwareMeasurement \<Rightarrow> ''software_measurement'')"

record NitroPinsConfig =
  nitro_root_der_b64 :: string
  nitro_pcr_values :: "(nat \<times> string) list"
  nitro_max_age_seconds :: nat

record SevSnpPinsConfig =
  amd_root_der_b64 :: string
  min_bootloader_svn :: nat
  min_tee_svn :: nat
  min_snp_svn :: nat
  min_microcode_svn :: nat
  refuse_debuggable_guest :: bool
  expected_vmpl :: nat

record ExpectedMeasurementsConfig =
  pin_pcr_values :: "(nat \<times> string) list"
  pin_mrenclave :: "string option"
  pin_mrsigner :: "string option"
  pin_min_isv_svn :: nat
  pin_sev_snp :: "SevSnpPinsConfig option"
  pin_nitro :: "NitroPinsConfig option"

definition pins_empty :: "ExpectedMeasurementsConfig \<Rightarrow> bool" where
  "pins_empty e \<longleftrightarrow> pin_pcr_values e = [] \<and> pin_mrenclave e = None \<and> pin_mrsigner e = None"

record AttestationConfig =
  measurement_source :: MeasurementSource
  expected :: "ExpectedMeasurementsConfig option"
  interval_hours :: nat
  halt_until_verified :: bool

definition attestation_default :: AttestationConfig where
  "attestation_default = \<lparr>measurement_source = Tpm2, expected = None, interval_hours = 24, halt_until_verified = True\<rparr>"

record LimitsConfig =
  max_request_bytes :: nat
  max_messages :: nat
  max_prompt_chars :: nat
  max_connections :: nat
  tls_handshake_timeout_seconds :: nat

definition limits_default :: LimitsConfig where
  "limits_default = \<lparr>max_request_bytes = 1024 * 1024, max_messages = 256, max_prompt_chars = 256 * 1024,
     max_connections = 1024, tls_handshake_timeout_seconds = 15\<rparr>"

record CordonConfig =
  mode :: DeploymentMode
  cc_node_id :: string
  deployment_name :: string
  cc_deployment_id :: string
  network :: NetworkConfig
  tee :: TeeConfig
  timing_normalization :: TimingNormalizationConfig
  hsm_fips_level :: nat
  boot :: BootConfig
  model_store :: ModelStoreConfig
  inference :: InferenceConfig
  audit_log_path :: string
  sustained_attack :: AttackDetectorConfig
  runtime :: RuntimeConfig
  ui :: UiConfig
  attestation :: AttestationConfig
  limits :: LimitsConfig
  content_policy_default_path :: "string option"
  client_registry_path :: "string option"
  local_key_path :: "string option"
  cmk_path :: "string option"
  cc_key_principal :: "string option"
  log_level :: string

definition default_light :: "string \<Rightarrow> string \<Rightarrow> CordonConfig" where
  "default_light nid did = \<lparr>mode = Light, cc_node_id = nid, deployment_name = ''cordon-dev'', cc_deployment_id = did,
     network = network_default\<lparr>require_mtls := False, client_ca_path := None, outbound_policy := Restricted\<rparr>,
     tee = tee_default\<lparr>tee_preferred := Simulation\<rparr>,
     timing_normalization = timing_default\<lparr>tn_enabled := False, tn_mode := NoTiming\<rparr>,
     hsm_fips_level = 1,
     boot = boot_default\<lparr>tpm_required := False, secure_boot := False, dm_verity := False\<rparr>,
     model_store = model_store_default,
     inference = inference_default\<lparr>multi_tenant := True\<rparr>,
     audit_log_path = ''/cordon/audit'', sustained_attack = attack_default,
     runtime = runtime_default\<lparr>backend := NoBackend, model_dir := ''./data/models''\<rparr>,
     ui = ui_default,
     attestation = attestation_default\<lparr>measurement_source := SoftwareMeasurement, halt_until_verified := False\<rparr>,
     limits = limits_default, content_policy_default_path = None, client_registry_path = None,
     local_key_path = None, cmk_path = None, cc_key_principal = None, log_level = ''info''\<rparr>"

definition requires_hardware_tee :: "CordonConfig \<Rightarrow> bool" where
  "requires_hardware_tee c \<longleftrightarrow> mode c \<noteq> Light"

definition requires_mtls :: "CordonConfig \<Rightarrow> bool" where
  "requires_mtls c = require_mtls (network c)"

definition permits_egress :: "CordonConfig \<Rightarrow> bool" where
  "permits_egress c \<longleftrightarrow> outbound_policy (network c) \<noteq> ZeroEgress"

definition permits_model_download :: "CordonConfig \<Rightarrow> bool" where
  "permits_model_download c \<longleftrightarrow> mode c \<in> {Light, SovereignCloud} \<and> permits_egress c"

definition has_hardware_measurements :: "CordonConfig \<Rightarrow> bool" where
  "has_hardware_measurements c \<longleftrightarrow> measurement_source (attestation c) = Tpm2"

subsection \<open>Addresses\<close>

datatype ip_addr = V4 "nat list" | V6 "nat list"

fun split_on :: "char \<Rightarrow> string \<Rightarrow> string \<Rightarrow> string list" where
  "split_on d acc [] = [rev acc]"
| "split_on d acc (c # cs) = (if c = d then rev acc # split_on d [] cs else split_on d (c # acc) cs)"

text \<open>An octet: one to three digits, no leading zero, at most 255.\<close>

definition parse_octet :: "string \<Rightarrow> nat option" where
  "parse_octet s = (if s = [] \<or> length s > 3 \<or> \<not> list_all is_digit s \<or> (length s > 1 \<and> hd s = CHR ''0'')
     \<or> digits_value s > 255 then None else Some (digits_value s))"

fun all_some :: "'a option list \<Rightarrow> 'a list option" where
  "all_some [] = Some []"
| "all_some (None # xs) = None"
| "all_some (Some x # xs) = map_option ((#) x) (all_some xs)"

definition parse_ipv4 :: "string \<Rightarrow> nat list option" where
  "parse_ipv4 s = (let parts = split_on (CHR ''.'') [] s
     in if length parts \<noteq> 4 then None else all_some (map parse_octet parts))"

definition hex_value :: "char \<Rightarrow> nat option" where
  "hex_value c = (let n = of_char c :: nat in
     if 48 \<le> n \<and> n \<le> 57 then Some (n - 48) else if 97 \<le> n \<and> n \<le> 102 then Some (n - 87)
     else if 65 \<le> n \<and> n \<le> 70 then Some (n - 55) else None)"

definition parse_group :: "string \<Rightarrow> nat option" where
  "parse_group s = (if s = [] \<or> length s > 4 then None
     else map_option (foldl (\<lambda>n d. n * 16 + d) 0) (all_some (map hex_value s)))"

text \<open>Groups separated by colons; the last may be a dotted IPv4 address, worth two groups.\<close>

definition parse_groups :: "bool \<Rightarrow> string \<Rightarrow> nat list option" where
  "parse_groups v4_ok s = (if s = [] then Some [] else
     let parts = split_on (CHR '':'') [] s in
     (case all_some (map parse_group (butlast parts)) of
        None \<Rightarrow> None
      | Some gs \<Rightarrow> (case parse_group (last parts) of
          Some g \<Rightarrow> Some (gs @ [g])
        | None \<Rightarrow> if v4_ok then (case parse_ipv4 (last parts) of
              Some [a, b, c, d] \<Rightarrow> Some (gs @ [a * 256 + b, c * 256 + d]) | _ \<Rightarrow> None) else None)))"

fun split_double_colon :: "string \<Rightarrow> string \<Rightarrow> (string \<times> string) option" where
  "split_double_colon acc (a # b # cs) =
     (if a = CHR '':'' \<and> b = CHR '':'' then Some (rev acc, cs) else split_double_colon (a # acc) (b # cs))"
| "split_double_colon acc _ = None"

definition parse_ipv6 :: "string \<Rightarrow> nat list option" where
  "parse_ipv6 s = (case split_double_colon [] s of
     None \<Rightarrow> (case parse_groups True s of Some gs \<Rightarrow> if length gs = 8 then Some gs else None | None \<Rightarrow> None)
   | Some (h, t) \<Rightarrow> (case (parse_groups False h, parse_groups True t) of
       (Some hs, Some ts) \<Rightarrow> if length hs + length ts \<le> 7
          then Some (hs @ replicate (8 - length hs - length ts) 0 @ ts) else None
     | _ \<Rightarrow> None))"

definition parse_ip :: "string \<Rightarrow> ip_addr option" where
  "parse_ip s = (case parse_ipv4 s of Some o4 \<Rightarrow> Some (V4 o4)
     | None \<Rightarrow> map_option V6 (parse_ipv6 s))"

definition ip_is_loopback :: "ip_addr \<Rightarrow> bool" where
  "ip_is_loopback ip = (case ip of V4 os \<Rightarrow> os \<noteq> [] \<and> hd os = 127 | V6 gs \<Rightarrow> gs = [0, 0, 0, 0, 0, 0, 0, 1])"

fun split_once :: "char \<Rightarrow> string \<Rightarrow> (string \<times> string) option" where
  "split_once d [] = None"
| "split_once d (c # cs) = (if c = d then Some ([], cs) else map_option (map_prod ((#) c) id) (split_once d cs))"

definition loopback_host :: "string \<Rightarrow> bool" where
  "loopback_host h \<longleftrightarrow> to_lower h = ''localhost'' \<or> (case parse_ip h of None \<Rightarrow> False | Some ip \<Rightarrow> ip_is_loopback ip)"

definition is_loopback_address :: "string \<Rightarrow> bool" where
  "is_loopback_address a0 = (let a = trim a0 in
     if a \<noteq> [] \<and> hd a = CHR ''[''
     then (case split_once (CHR '']'') (tl a) of None \<Rightarrow> False | Some (inner, _) \<Rightarrow> loopback_host inner)
     else if length (filter (\<lambda>c. c = CHR '':'') a) = 1
     then loopback_host (case split_once (CHR '':'') a of Some (h, _) \<Rightarrow> h | None \<Rightarrow> a)
     else loopback_host a)"

datatype url_host = HostIp ip_addr | HostDomain string

type_synonym url_parser = "string \<Rightarrow> url_host option option"

definition is_loopback_url :: "url_parser \<Rightarrow> string \<Rightarrow> bool" where
  "is_loopback_url url_parse url = (case url_parse url of
     None \<Rightarrow> False
   | Some None \<Rightarrow> False
   | Some (Some (HostIp ip)) \<Rightarrow> ip_is_loopback ip
   | Some (Some (HostDomain d)) \<Rightarrow> to_lower d = ''localhost'')"

subsection \<open>Validation\<close>

text \<open>
  A check is an optional refusal; \<open>first_refusal\<close> is the early return of a sequence of
  them.  The groups follow the sections of \<^verbatim>\<open>validate\<close>, and \<open>qq\<close> is a quoted word.
\<close>

definition qq :: "string \<Rightarrow> string" where
  "qq s = [CHR 0x22] @ s @ [CHR 0x22]"

fun first_refusal :: "(bool \<times> string) list \<Rightarrow> unit CordonResult" where
  "first_refusal [] = Inr ()"
| "first_refusal ((bad, msg) # cs) = (if bad then Inl (ConfigError msg) else first_refusal cs)"

definition identity_checks :: "CordonConfig \<Rightarrow> (bool \<times> string) list" where
  "identity_checks c = [
     (mode c \<noteq> Light \<and> local_key_path c \<noteq> None,
      ''local_key_path is set, but the node is in '' @ mode_display (mode c) @ '' mode. A key kept on the node is one the operator can read, so it cannot stand in for a Client Master Key. Remove it and provision a CMK.''),
     (trim (cc_deployment_id c) = [], ''deployment_id must not be empty; it is an input to every derived key''),
     (trim (cc_node_id c) = [], ''node_id must not be empty''),
     (mode c = Dark \<and> hsm_fips_level c < 4, ''Dark mode requires a FIPS 140-2 Level 4 HSM''),
     (mode c = Dark \<and> multi_tenant (inference c), ''Dark mode does not permit multi-tenant operation'')]"

definition amd_root :: "CordonConfig \<Rightarrow> string" where
  "amd_root c = (case expected (attestation c) of None \<Rightarrow> [] | Some e \<Rightarrow>
     (case pin_sev_snp e of None \<Rightarrow> [] | Some snp \<Rightarrow> trim (amd_root_der_b64 snp)))"

definition nitro_pins :: "CordonConfig \<Rightarrow> NitroPinsConfig option" where
  "nitro_pins c = Option.bind (expected (attestation c)) pin_nitro"

definition nitro_root :: "CordonConfig \<Rightarrow> string" where
  "nitro_root c = (case nitro_pins c of None \<Rightarrow> [] | Some n \<Rightarrow> trim (nitro_root_der_b64 n))"

definition pins_present :: "CordonConfig \<Rightarrow> bool" where
  "pins_present c = (case expected (attestation c) of None \<Rightarrow> False | Some e \<Rightarrow> \<not> pins_empty e)"

definition hardware_checks :: "CordonConfig \<Rightarrow> (bool \<times> string) list" where
  "hardware_checks c = (let m = mode_display (mode c); src = measurement_source (attestation c) in
     if mode c = Light then [] else [
     (tee_preferred (tee c) = Simulation,
      ''tee.preferred = '' @ qq ''simulation'' @ '' is not permitted in '' @ m @ '' mode. Select a hardware TEE, or run in Light mode.''),
     (\<not> is_hardware src,
      ''attestation.measurement_source = '' @ qq (source_display src) @ '' is not permitted in '' @ m @ '' mode. A software measurement is a configuration digest, not a hardware root of trust. Set it to '' @ qq ''sev_snp'' @ '' for a confidential VM, or '' @ qq ''tpm2'' @ '' for a TPM-attested host.''),
     (src = Tpm2 \<and> \<not> tpm_required (boot c),
      m @ '' mode with attestation.measurement_source = '' @ qq ''tpm2'' @ '' requires boot.tpm_required = true''),
     (\<not> pins_present c,
      m @ '' mode requires pinned attestation.expected measurements. Without them the node cannot distinguish a genuine platform from an impostor. Capture them with `cordon attest --pin`.''),
     (src = SevSnp \<and> amd_root c = [],
      ''attestation.measurement_source = '' @ qq ''sev_snp'' @ '' in '' @ m @ '' mode requires a pinned AMD root certificate under [attestation.expected.sev_snp]. Without one the chip'' @ [CHR 0x27] @ ''s endorsement key chains to nothing, and the attestation proves only that the report is internally consistent.''),
     (src = NitroEnclave \<and> nitro_root c = [],
      ''attestation.measurement_source = '' @ qq ''nitro_enclave'' @ '' in '' @ m @ '' mode                          requires a pinned AWS Nitro root certificate under                          [attestation.expected.nitro]. Without one the document'' @ [CHR 0x27] @ ''s                          certificate chains only to the bundle the document itself                          supplied, which proves nothing.''),
     (src = NitroEnclave \<and> (case nitro_pins c of None \<Rightarrow> True | Some n \<Rightarrow> map_of (nitro_pcr_values n) 0 = None),
      ''attestation.measurement_source = '' @ qq ''nitro_enclave'' @ '' in '' @ m @ '' mode                          requires a pinned PCR0 under                          [attestation.expected.nitro.pcr_values]. Without it the                          attestation establishes that some genuine Nitro enclave                          answered, not that yours did.'')])"

definition egress_checks :: "url_parser \<Rightarrow> CordonConfig \<Rightarrow> (bool \<times> string) list" where
  "egress_checks url_parse c = [
     (mode c \<in> {Vault, Island, Dark} \<and> permits_egress c,
      mode_display (mode c) @ '' mode requires network.outbound_policy = '' @ qq ''zero_egress'' @ ''. The mode is documented as having no outbound access; a configuration that claims it while permitting egress is claiming something it does not deliver.''),
     (\<not> permits_egress c \<and> backend (runtime c) = External
        \<and> (case endpoint_url (runtime c) of None \<Rightarrow> False | Some url \<Rightarrow> \<not> is_loopback_url url_parse url),
      ''network.outbound_policy is '' @ qq ''zero_egress'' @ '' but runtime.endpoint_url is ''
      @ (case endpoint_url (runtime c) of None \<Rightarrow> [] | Some url \<Rightarrow> url)
      @ '', which is not on this host. Every prompt would leave the machine. Use runtime.backend = '' @ qq ''supervised'' @ '', or point at a loopback address.'')]"

definition transport_checks :: "CordonConfig \<Rightarrow> (bool \<times> string) list" where
  "transport_checks c = [
     (mode c \<noteq> Light \<and> \<not> require_mtls (network c),
      mode_display (mode c) @ '' mode requires network.require_mtls = true; client identity must be bound to a certificate, not asserted in a header''),
     (mode c \<noteq> Light \<and> client_ca_path (network c) = None,
      ''mTLS requires network.client_ca_path so client certificates can be verified against a CA''),
     (require_mtls (network c) \<and> client_ca_path (network c) = None,
      ''network.require_mtls = true requires network.client_ca_path''),
     (ui_enabled (ui c) \<and> mode c \<noteq> Light,
      ''the operator console is not permitted in '' @ mode_display (mode c) @ '' mode; it is an unauthenticated HTML surface. Use the CLI or the API instead.''),
     (ui_enabled (ui c) \<and> \<not> is_loopback_address (ui_bind_address (ui c)),
      ''ui.bind_address must be a loopback address, not '' @ ui_bind_address (ui c) @ ''. The console has no authentication of its own and must never be reachable off the host.'')]"

definition runtime_checks :: "CordonConfig \<Rightarrow> (bool \<times> string) list" where
  "runtime_checks c = [
     (backend (runtime c) = NoBackend \<and> mode c \<noteq> Light,
      ''runtime.backend = '' @ qq ''none'' @ '' returns placeholder text and is not permitted in '' @ mode_display (mode c) @ '' mode''),
     (backend (runtime c) = External \<and> endpoint_url (runtime c) = None,
      ''runtime.backend = '' @ qq ''external'' @ '' requires runtime.endpoint_url''),
     (max_concurrent_requests (inference c) = 0, ''inference.max_concurrent_requests must be at least 1''),
     (max_request_bytes (limits c) = 0, ''limits.max_request_bytes must be greater than zero''),
     (max_output_tokens (inference c) = 0, ''inference.max_output_tokens must be greater than zero'')]"

definition validate :: "url_parser \<Rightarrow> CordonConfig \<Rightarrow> unit CordonResult" where
  "validate url_parse c = first_refusal (identity_checks c @ hardware_checks c @ egress_checks url_parse c
     @ transport_checks c @ runtime_checks c)"

text \<open>\<^verbatim>\<open>from_file\<close>: the contents or the reason they could not be read; \<^verbatim>\<open>toml\<close> is a parameter.\<close>

definition config_from_file :: "url_parser \<Rightarrow> (string \<Rightarrow> string + CordonConfig) \<Rightarrow> string + string \<Rightarrow> CordonConfig CordonResult" where
  "config_from_file url_parse toml content = (case content of
     Inl e \<Rightarrow> Inl (ConfigError (''Cannot read config file: '' @ e))
   | Inr s \<Rightarrow> (case toml s of
       Inl e \<Rightarrow> Inl (ConfigError (''Invalid config: '' @ e))
     | Inr c \<Rightarrow> (case validate url_parse c of Inl e \<Rightarrow> Inl e | Inr _ \<Rightarrow> Inr c)))"

subsection \<open>Lemmas\<close>

lemma first_refusal_Inr: "first_refusal cs = Inr () \<longleftrightarrow> list_all (Not \<circ> fst) cs"
  by (induction cs rule: first_refusal.induct) auto

lemma first_refusal_append: "first_refusal (as @ bs) = (case first_refusal as of Inl e \<Rightarrow> Inl e | Inr _ \<Rightarrow> first_refusal bs)"
  by (induction as rule: first_refusal.induct) auto

lemma first_refusal_Inl: "first_refusal cs = Inl e \<Longrightarrow> \<exists>msg. e = ConfigError msg"
  by (induction cs rule: first_refusal.induct) (auto split: if_splits)

lemmas check_group_defs = identity_checks_def hardware_checks_def egress_checks_def transport_checks_def runtime_checks_def



text \<open>
  A SEV-SNP or Nitro source passes validation as hardware, yet \<open>has_hardware_measurements\<close>
  denies it.
\<close>

lemma sev_snp_not_reported_as_hardware:
  "measurement_source (attestation c) \<in> {SevSnp, NitroEnclave} \<Longrightarrow>
   is_hardware (measurement_source (attestation c)) \<and> \<not> has_hardware_measurements c"
  by (auto simp: is_hardware_def has_hardware_measurements_def)

text \<open>
  Pins given only in the Nitro section do not count as pins, so a Nitro deployment pinned
  by its root and PCR0 alone is refused.
\<close>

lemma nitro_only_pins_refused:
  assumes "mode c \<noteq> Light" "expected (attestation c) = Some e" "pins_empty e"
  shows "validate url_parse c \<noteq> Inr ()"
  using assms unfolding validate_def first_refusal_Inr list_all_append
  by (simp add: hardware_checks_def Let_def pins_present_def)

end
