(* ===== verification/NodeState.thy ===== *)
theory NodeState
  imports Prelude
begin

text \<open>
  The node state machine of \<^verbatim>\<open>cordon-core/src/state.rs\<close>: operational status,
  enclave state, the transitions between them and the running statistics.
\<close>

datatype NodeStatus = Healthy | Degraded | Quarantine | Locked | Zeroized | Initializing

datatype EnclaveState =
  EnclaveActive | EnclaveRestarting | EnclaveLocked | EnclaveZeroized | EnclaveUninitialized

definition node_status_display :: "NodeStatus \<Rightarrow> string" where
  "node_status_display s = (case s of
     Healthy \<Rightarrow> ''healthy'' | Degraded \<Rightarrow> ''degraded'' | Quarantine \<Rightarrow> ''quarantine''
   | Locked \<Rightarrow> ''locked'' | Zeroized \<Rightarrow> ''zeroized'' | Initializing \<Rightarrow> ''initializing'')"

record NodeStats =
  requests_processed :: nat
  tokens_generated :: nat
  security_alerts :: nat
  uptime_seconds :: nat
  active_sessions :: nat
  queue_depth :: nat
  latency_ms_p50 :: nat
  latency_ms_p99 :: nat

record NodeState =
  node_id :: string
  deployment_id :: string
  cordon_version :: string
  status :: NodeStatus
  enclave_state :: EnclaveState
  active_model_id :: "string option"
  boot_time :: datetime
  last_attested :: "datetime option"
  attestation_valid :: bool
  last_integrity_check :: "datetime option"
  integrity_check_passed :: bool
  stats :: NodeStats
  audit_log_tail_hash :: "string option"
  audit_log_entries :: nat

definition node_stats_default :: NodeStats where
  "node_stats_default = \<lparr>requests_processed = 0, tokens_generated = 0, security_alerts = 0,
     uptime_seconds = 0, active_sessions = 0, queue_depth = 0, latency_ms_p50 = 0,
     latency_ms_p99 = 0\<rparr>"

text \<open>\<open>version\<close> is \<^verbatim>\<open>CARGO_PKG_VERSION\<close> and \<open>now\<close> the clock at creation.\<close>

definition node_state_new :: "string \<Rightarrow> datetime \<Rightarrow> string \<Rightarrow> string \<Rightarrow> NodeState" where
  "node_state_new version now nid did = \<lparr>node_id = nid, deployment_id = did,
     cordon_version = version, status = Initializing, enclave_state = EnclaveUninitialized,
     active_model_id = None, boot_time = now, last_attested = None, attestation_valid = False,
     last_integrity_check = None, integrity_check_passed = False, stats = node_stats_default,
     audit_log_tail_hash = None, audit_log_entries = 0\<rparr>"

definition can_serve :: "NodeState \<Rightarrow> bool" where
  "can_serve s \<longleftrightarrow> status s \<in> {Healthy, Degraded} \<and> enclave_state s = EnclaveActive"

definition enter_quarantine :: "NodeState \<Rightarrow> NodeState" where
  "enter_quarantine s = s\<lparr>status := Quarantine\<rparr>"

definition enter_locked :: "NodeState \<Rightarrow> NodeState" where
  "enter_locked s = s\<lparr>status := Locked, enclave_state := EnclaveLocked\<rparr>"

definition enter_zeroized :: "NodeState \<Rightarrow> NodeState" where
  "enter_zeroized s = s\<lparr>status := Zeroized, enclave_state := EnclaveZeroized,
     active_model_id := None, attestation_valid := False\<rparr>"

definition go_operational :: "NodeState \<Rightarrow> NodeState" where
  "go_operational s = s\<lparr>status := Healthy, enclave_state := EnclaveActive\<rparr>"

definition recover_from_degraded :: "NodeState \<Rightarrow> NodeState" where
  "recover_from_degraded s =
     (if status s = Degraded then s\<lparr>status := Healthy, enclave_state := EnclaveActive\<rparr> else s)"

definition degrade :: "NodeState \<Rightarrow> NodeState" where
  "degrade s = (if status s \<in> {Healthy, Degraded} then s\<lparr>status := Degraded\<rparr> else s)"

definition record_inference :: "NodeState \<Rightarrow> nat \<Rightarrow> NodeState" where
  "record_inference s tokens = s\<lparr>stats := (stats s)\<lparr>
     requests_processed := wrap_u64 (requests_processed (stats s) + 1),
     tokens_generated := wrap_u64 (tokens_generated (stats s) + tokens)\<rparr>\<rparr>"

definition update_latency :: "NodeState \<Rightarrow> nat \<Rightarrow> NodeState" where
  "update_latency s latency_ms =
     (let st = stats s in
      if latency_ms_p50 st = 0
      then s\<lparr>stats := st\<lparr>latency_ms_p50 := latency_ms, latency_ms_p99 := latency_ms\<rparr>\<rparr>
      else
        let st1 = st\<lparr>latency_ms_p50 := wrap_u64 (latency_ms_p50 st * 9 + latency_ms) div 10\<rparr>
        in s\<lparr>stats := (if latency_ms > latency_ms_p99 st1
             then st1\<lparr>latency_ms_p99 := wrap_u64 (latency_ms_p99 st1 * 19 + latency_ms) div 20\<rparr>
             else st1)\<rparr>)"

text \<open>
  Everything that writes the shared state.  \<open>Operator\<close> steps are the ones
  an administrator takes (\<^verbatim>\<open>go_operational\<close> at boot or on recovery); the rest the
  node takes by itself.
\<close>

datatype node_event =
  GoOperational | EnterQuarantine | EnterLocked | EnterZeroized
| RecoverFromDegraded | Degrade | RecordInference nat | UpdateLatency nat

fun node_step :: "NodeState \<Rightarrow> node_event \<Rightarrow> NodeState" where
  "node_step s GoOperational = go_operational s"
| "node_step s EnterQuarantine = enter_quarantine s"
| "node_step s EnterLocked = enter_locked s"
| "node_step s EnterZeroized = enter_zeroized s"
| "node_step s RecoverFromDegraded = recover_from_degraded s"
| "node_step s Degrade = degrade s"
| "node_step s (RecordInference n) = record_inference s n"
| "node_step s (UpdateLatency n) = update_latency s n"

text \<open>The states that only an operator may leave.\<close>

definition withdrawn :: "NodeState \<Rightarrow> bool" where
  "withdrawn s \<longleftrightarrow> status s \<in> {Quarantine, Locked, Zeroized}"

definition not_operator :: "NodeState \<Rightarrow> node_event \<Rightarrow> bool" where
  "not_operator s e \<longleftrightarrow> e \<noteq> GoOperational"

definition u32_latency :: "NodeState \<Rightarrow> node_event \<Rightarrow> bool" where
  "u32_latency s e \<longleftrightarrow> (case e of UpdateLatency n \<Rightarrow> n < 2 ^ 59 | _ \<Rightarrow> True)"

definition latency_bounded :: "NodeState \<Rightarrow> bool" where
  "latency_bounded s \<longleftrightarrow> latency_ms_p50 (stats s) < 2 ^ 59 \<and> latency_ms_p99 (stats s) < 2 ^ 59"

lemmas node_ops = enter_quarantine_def enter_locked_def enter_zeroized_def go_operational_def
  recover_from_degraded_def degrade_def record_inference_def update_latency_def

subsection \<open>Lemmas\<close>

lemma withdrawn_step:
  "withdrawn s \<Longrightarrow> not_operator s e \<Longrightarrow> withdrawn (node_step s e)"
  by (cases e) (auto simp: withdrawn_def not_operator_def node_ops Let_def)

interpretation withdrawn_sys: invariant_system node_step not_operator withdrawn
  by unfold_locales (rule withdrawn_step)

lemma withdrawn_cannot_serve: "withdrawn s \<Longrightarrow> \<not> can_serve s"
  by (auto simp: withdrawn_def can_serve_def)

end
