(* ===== verification/Supervisor.thy ===== *)
theory Supervisor
  imports Config ModelStore NodeState
begin

text \<open>
  The supervised model runtime, \<^verbatim>\<open>cordon-core/src/runtime/supervisor.rs\<close>: the command line of
  the child process, start-up with every refusal, the health loop, restart and termination,
  the ring of log lines, and how the binary is found.

  What the operating system, the child and its HTTP server answer is the record
  \<open>runtime_os\<close>; the observations of the health loop are indexed by the poll they belong to.
\<close>

definition LOG_RING_CAPACITY :: nat where "LOG_RING_CAPACITY = 200"
definition DEFAULT_STARTUP_TIMEOUT :: nat where "DEFAULT_STARTUP_TIMEOUT = 180"

text \<open>Nanoseconds, like every duration.\<close>

definition HEALTH_POLL_INTERVAL :: int where "HEALTH_POLL_INTERVAL = 250 * 1000000"

record LlamaRuntimeConfig =
  lc_binary :: string
  lc_model_path :: string
  lc_ctx_size :: nat
  lc_gpu_layers :: GpuLayers
  lc_threads :: "nat option"
  lc_parallel_slots :: nat
  lc_startup_timeout :: nat
  lc_extra_args :: "string list"
  lc_no_mmap :: bool

definition llama_config_new :: "string \<Rightarrow> string \<Rightarrow> LlamaRuntimeConfig" where
  "llama_config_new bin model = \<lparr>lc_binary = bin, lc_model_path = model, lc_ctx_size = 4096, lc_gpu_layers = Count 0,
     lc_threads = None, lc_parallel_slots = 4, lc_startup_timeout = DEFAULT_STARTUP_TIMEOUT, lc_extra_args = [], lc_no_mmap = False\<rparr>"

record SupportedFlags =
  fl_no_webui :: bool
  fl_api_key_file :: bool
  fl_kv_unified :: bool
  fl_no_slots :: bool
  fl_gpu_layer_words :: bool
  fl_load_mode :: bool
  fl_no_mmap :: bool

fun contains :: "string \<Rightarrow> string \<Rightarrow> bool" where
  "contains p [] \<longleftrightarrow> p = []"
| "contains p (c # cs) \<longleftrightarrow> take (length p) (c # cs) = p \<or> contains p cs"

definition from_help :: "string \<Rightarrow> SupportedFlags" where
  "from_help help = \<lparr>fl_no_webui = contains ''--no-webui'' help, fl_api_key_file = contains ''--api-key-file'' help,
     fl_kv_unified = contains ''--kv-unified'' help, fl_no_slots = contains ''--no-slots'' help,
     fl_gpu_layer_words = contains (quoted ''auto'' @ '', or '' @ quoted ''all'') help,
     fl_load_mode = contains ''--load-mode'' help, fl_no_mmap = contains ''--no-mmap'' help\<rparr>"

text \<open>Help text of the binary, standard output then standard error; none when it cannot be run.\<close>

definition probe_supported_flags :: "(string \<times> string) option \<Rightarrow> SupportedFlags" where
  "probe_supported_flags out = (case out of Some (so, se) \<Rightarrow> from_help (so @ se) | None \<Rightarrow> from_help [])"

definition gpu_layers_arg :: "GpuLayers \<Rightarrow> bool \<Rightarrow> string option" where
  "gpu_layers_arg layers words_supported = (case layers of
     Count n \<Rightarrow> Some (show_nat n)
   | Auto \<Rightarrow> if words_supported then Some ''auto'' else None
   | AllLayers \<Rightarrow> if words_supported then Some ''all'' else Some ''999'')"

definition model_id_from_path :: "string option \<Rightarrow> string \<Rightarrow> string" where
  "model_id_from_path stem path = (case stem of Some s \<Rightarrow> if s \<noteq> [] then s else path | None \<Rightarrow> path)"

subsection \<open>The outside\<close>

text \<open>A reply at the server's root: status code and its rendering, and the content type if it is text.\<close>

record root_reply =
  rr_code :: nat
  rr_status :: string
  rr_content_type :: "string option"

record runtime_os =
  os_exists :: "string \<Rightarrow> bool"
  os_help :: "string \<Rightarrow> (string \<times> string) option"
  os_bind :: "string + unit"
  os_local_addr :: "string + nat"
  os_api_key :: string
  os_key_file_create :: "string + string"
  os_key_file_write :: "string option"
  os_http_client :: "string option"
  os_spawn :: "string list \<Rightarrow> string option"
  os_now :: "nat \<Rightarrow> int"
  os_exit :: "nat \<Rightarrow> string option"
  os_responded :: "nat \<Rightarrow> bool"
  os_stderr :: "nat \<Rightarrow> string list"
  os_root :: "root_reply option"

record LlamaSupervisor =
  sv_config :: LlamaRuntimeConfig
  sv_port :: nat
  sv_api_key :: string
  sv_api_key_file :: "string option"
  sv_child :: "string list option"
  sv_flags :: SupportedFlags

definition endpoint_display :: "nat \<Rightarrow> string" where
  "endpoint_display port = ''127.0.0.1:'' @ show_nat port"

definition base_url :: "LlamaSupervisor \<Rightarrow> string" where
  "base_url sv = ''http://'' @ endpoint_display (sv_port sv)"

subsection \<open>The log ring\<close>

definition push_log :: "string list \<Rightarrow> string \<Rightarrow> string list" where
  "push_log ring line = (if LOG_RING_CAPACITY \<le> length ring then drop 1 ring else ring) @ [line]"

definition recent_logs :: "string list \<Rightarrow> nat \<Rightarrow> string list" where
  "recent_logs ring n = drop (length ring - n) ring"

fun join_newline :: "string list \<Rightarrow> string" where
  "join_newline [] = []"
| "join_newline [s] = s"
| "join_newline (s # ss) = s @ [newline] @ join_newline ss"

text \<open>What the ring holds at a poll: the lines read so far, pushed one by one.\<close>

definition log_tail :: "runtime_os \<Rightarrow> nat \<Rightarrow> string" where
  "log_tail os k = join_newline (recent_logs (foldl push_log [] (os_stderr os k)) 20)"

subsection \<open>Starting\<close>

definition validate_paths :: "runtime_os \<Rightarrow> LlamaRuntimeConfig \<Rightarrow> unit CordonResult" where
  "validate_paths os c =
     (if \<not> os_exists os (lc_binary c)
      then Inl (RuntimeUnavailable (''llama-server binary not found at '' @ lc_binary c
        @ ''. Install llama.cpp and set runtime.binary in the config (or CORDON_LLAMA_SERVER).''))
      else if \<not> os_exists os (lc_model_path c)
      then Inl (RuntimeUnavailable (''model file not found at '' @ lc_model_path c @ ''. Fetch one with `cordon pull <repo>`.''))
      else Inr ())"

definition reserve_loopback_port :: "runtime_os \<Rightarrow> nat CordonResult" where
  "reserve_loopback_port os = (case os_bind os of
     Inl e \<Rightarrow> Inl (RuntimeUnavailable (''cannot reserve a loopback port: '' @ e))
   | Inr _ \<Rightarrow> (case os_local_addr os of
       Inl e \<Rightarrow> Inl (RuntimeUnavailable (''cannot read reserved port: '' @ e)) | Inr p \<Rightarrow> Inr p))"

definition write_api_key_file :: "runtime_os \<Rightarrow> string CordonResult" where
  "write_api_key_file os = (case os_key_file_create os of
     Inl e \<Rightarrow> Inl (RuntimeUnavailable (''cannot create the runtime key file: '' @ e))
   | Inr path \<Rightarrow> (case os_key_file_write os of
       Some e \<Rightarrow> Inl (RuntimeUnavailable (''cannot write the runtime key file: '' @ e)) | None \<Rightarrow> Inr path))"

text \<open>The arguments of the child, the ones Cordon chooses and then the operator's.\<close>

definition head_args :: "LlamaSupervisor \<Rightarrow> string list" where
  "head_args sv = (let c = sv_config sv; f = sv_flags sv in
     [''--model'', lc_model_path c, ''--host'', ''127.0.0.1'', ''--port'', show_nat (sv_port sv),
      ''--ctx-size'', show_nat (lc_ctx_size c), ''--parallel'', show_nat (lc_parallel_slots c)]
     @ (case gpu_layers_arg (lc_gpu_layers c) (fl_gpu_layer_words f) of Some l \<Rightarrow> [''--n-gpu-layers'', l] | None \<Rightarrow> [])
     @ (if fl_kv_unified f then [''--kv-unified''] else [])
     @ (if fl_no_slots f then [''--no-slots''] else []))"

definition mmap_args :: "LlamaRuntimeConfig \<Rightarrow> SupportedFlags \<Rightarrow> string list" where
  "mmap_args c f = (if lc_no_mmap c then if fl_load_mode f then [''--load-mode'', ''none''] else [''--no-mmap''] else [])"

definition tail_args :: "LlamaSupervisor \<Rightarrow> string list" where
  "tail_args sv = (let c = sv_config sv; f = sv_flags sv in
     (case sv_api_key_file sv of Some p \<Rightarrow> [''--api-key-file'', p] | None \<Rightarrow> [''--api-key'', sv_api_key sv])
     @ (case lc_threads c of Some t \<Rightarrow> [''--threads'', show_nat t] | None \<Rightarrow> [])
     @ (if fl_no_webui f then [''--no-webui''] else []))"

definition own_args :: "LlamaSupervisor \<Rightarrow> string list" where
  "own_args sv = head_args sv @ mmap_args (sv_config sv) (sv_flags sv) @ tail_args sv"

lemmas args_defs = own_args_def head_args_def mmap_args_def tail_args_def Let_def

definition child_args :: "LlamaSupervisor \<Rightarrow> string list" where
  "child_args sv = own_args sv @ lc_extra_args (sv_config sv)"

definition spawn_child :: "runtime_os \<Rightarrow> LlamaSupervisor \<Rightarrow> CordonError option \<times> LlamaSupervisor" where
  "spawn_child os sv = (case os_spawn os (child_args sv) of
     Some e \<Rightarrow> (Some (RuntimeUnavailable (''cannot launch '' @ lc_binary (sv_config sv) @ '': '' @ e)), sv)
   | None \<Rightarrow> (None, sv\<lparr>sv_child := Some (child_args sv)\<rparr>))"

definition child_exit_status :: "runtime_os \<Rightarrow> LlamaSupervisor \<Rightarrow> nat \<Rightarrow> string option" where
  "child_exit_status os sv k = (case sv_child sv of Some _ \<Rightarrow> os_exit os k | None \<Rightarrow> None)"

definition is_running :: "runtime_os \<Rightarrow> LlamaSupervisor \<Rightarrow> nat \<Rightarrow> bool" where
  "is_running os sv k \<longleftrightarrow> sv_child sv \<noteq> None \<and> child_exit_status os sv k = None"

text \<open>
  The health loop from poll \<open>k\<close> on.  Nothing in the source bounds the number of polls: the
  loop ends when the clock it reads has passed the deadline.
\<close>

partial_function (option) health_loop :: "runtime_os \<Rightarrow> LlamaSupervisor \<Rightarrow> int \<Rightarrow> nat \<Rightarrow> unit CordonResult option" where
  "health_loop os sv deadline k =
     (if deadline \<le> os_now os k
      then Some (Inl (RuntimeUnavailable (''llama-server did not become healthy within '' @ show_nat (lc_startup_timeout (sv_config sv))
        @ ''s. Recent output:'' @ [newline] @ log_tail os k)))
      else (case child_exit_status os sv k of
        Some st \<Rightarrow> Some (Inl (RuntimeUnavailable (''llama-server exited during startup with '' @ st
          @ ''. Recent output:'' @ [newline] @ log_tail os k)))
      | None \<Rightarrow> if os_responded os k then Some (Inr ()) else health_loop os sv deadline (Suc k)))"

text \<open>The deadline is taken from the clock before the first poll.\<close>

definition await_healthy :: "runtime_os \<Rightarrow> LlamaSupervisor \<Rightarrow> unit CordonResult option" where
  "await_healthy os sv = health_loop os sv (os_now os 0 + secs (int (lc_startup_timeout (sv_config sv)))) 1"

definition serves_html :: "root_reply \<Rightarrow> bool" where
  "serves_html r \<longleftrightarrow> 200 \<le> rr_code r \<and> rr_code r < 300
     \<and> contains ''text/html'' (to_lower (case rr_content_type r of Some t \<Rightarrow> t | None \<Rightarrow> []))"

definition assert_web_ui_unreachable :: "runtime_os \<Rightarrow> LlamaSupervisor \<Rightarrow> unit CordonResult" where
  "assert_web_ui_unreachable os sv = (case os_root os of
     None \<Rightarrow> Inr ()
   | Some r \<Rightarrow> if serves_html r
     then Inl (RuntimeUnavailable (''the llama.cpp runtime is serving a web UI at '' @ base_url sv @ ''/ (HTTP '' @ rr_status r @ '', ''
       @ to_lower (case rr_content_type r of Some t \<Rightarrow> t | None \<Rightarrow> [])
       @ ''). Cordon will not run alongside a second, unaudited inference surface. Upgrade llama.cpp to a build that supports --no-webui, or rebuild it with the server UI disabled.''))
     else Inr ())"

text \<open>Launching and checking, shared by start and restart; what failed, and the supervisor.\<close>

definition launch :: "runtime_os \<Rightarrow> LlamaSupervisor \<Rightarrow> (unit CordonResult \<times> LlamaSupervisor) option" where
  "launch os sv = (case spawn_child os sv of
     (Some e, sv1) \<Rightarrow> Some (Inl e, sv1)
   | (None, sv1) \<Rightarrow> (case await_healthy os sv1 of
       None \<Rightarrow> None
     | Some (Inl e) \<Rightarrow> Some (Inl e, sv1)
     | Some (Inr _) \<Rightarrow> Some (assert_web_ui_unreachable os sv1, sv1)))"

definition new_supervisor :: "runtime_os \<Rightarrow> LlamaRuntimeConfig \<Rightarrow> nat \<Rightarrow> string option \<Rightarrow> LlamaSupervisor" where
  "new_supervisor os c port key_file = \<lparr>sv_config = c, sv_port = port, sv_api_key = os_api_key os, sv_api_key_file = key_file,
     sv_child = None, sv_flags = probe_supported_flags (os_help os (lc_binary c))\<rparr>"

definition start :: "runtime_os \<Rightarrow> LlamaRuntimeConfig \<Rightarrow> LlamaSupervisor CordonResult option" where
  "start os c = (case validate_paths os c of Inl e \<Rightarrow> Some (Inl e) | Inr _ \<Rightarrow>
     let flags = probe_supported_flags (os_help os (lc_binary c)) in
     (case reserve_loopback_port os of Inl e \<Rightarrow> Some (Inl e) | Inr port \<Rightarrow>
     (case (if fl_api_key_file flags then map_sum id Some (write_api_key_file os) else Inr None) of
        Inl e \<Rightarrow> Some (Inl e)
      | Inr key_file \<Rightarrow>
        (case os_http_client os of
           Some e \<Rightarrow> Some (Inl (Internal (''cannot build runtime HTTP client: '' @ e)))
         | None \<Rightarrow>
           if lc_no_mmap c \<and> \<not> fl_load_mode flags \<and> \<not> fl_no_mmap flags
           then Some (Inl (RuntimeUnavailable (lc_binary c
             @ '' cannot be told to load a model without memory-mapping it (neither --load-mode nor --no-mmap), which serving a sealed bundle requires. Use a newer llama.cpp.'')))
           else (case launch os (new_supervisor os c port key_file) of
             None \<Rightarrow> None
           | Some (Inl e, _) \<Rightarrow> Some (Inl e)
           | Some (Inr _, sv) \<Rightarrow> Some (Inr sv))))))"

definition terminate :: "LlamaSupervisor \<Rightarrow> LlamaSupervisor" where
  "terminate sv = sv\<lparr>sv_child := None\<rparr>"

definition restart :: "runtime_os \<Rightarrow> LlamaSupervisor \<Rightarrow> (unit CordonResult \<times> LlamaSupervisor) option" where
  "restart os sv = launch os (terminate sv)"

subsection \<open>Finding the binary\<close>

definition LLAMA_SERVER_EXE :: string where "LLAMA_SERVER_EXE = ''llama-server''"

definition bundled_candidates :: "string \<Rightarrow> string list" where
  "bundled_candidates exe_dir = map (\<lambda>p. join_path exe_dir (p @ LLAMA_SERVER_EXE))
     ['''', ''llama/'', ''../llama/'', ''../Resources/llama/'', ''../lib/cordon/llama/'']"

definition conventional :: "string list" where
  "conventional = [''/usr/local/bin/llama-server'', ''/usr/bin/llama-server'', ''/opt/llama.cpp/llama-server'']"

text \<open>The environment variable, the directory of the running executable and the directories of the search path.\<close>

definition or_else :: "'a option \<Rightarrow> 'a option \<Rightarrow> 'a option" where
  "or_else a b = (case a of Some x \<Rightarrow> Some x | None \<Rightarrow> b)"

definition discover_llama_server :: "(string \<Rightarrow> bool) \<Rightarrow> (string \<Rightarrow> bool) \<Rightarrow> string option \<Rightarrow> string option \<Rightarrow> string option
   \<Rightarrow> string list \<Rightarrow> string option" where
  "discover_llama_server exists is_file explicit env_var exe_dir path_dirs = (case explicit of
     Some p \<Rightarrow> if exists p then Some p else None
   | None \<Rightarrow> or_else (case env_var of Some p \<Rightarrow> if exists p then Some p else None | None \<Rightarrow> None)
       (or_else (case exe_dir of Some d \<Rightarrow> find is_file (bundled_candidates d) | None \<Rightarrow> None)
         (find is_file (map (\<lambda>d. join_path d LLAMA_SERVER_EXE) path_dirs @ conventional))))"

subsection \<open>Supervision\<close>

text \<open>
  One tick of the node's supervision task, \<^verbatim>\<open>node.rs\<close>: a child that has exited is restarted,
  and the node is degraded until it is back.
\<close>

definition supervision_tick :: "runtime_os \<Rightarrow> LlamaSupervisor \<Rightarrow> NodeState \<Rightarrow> (LlamaSupervisor \<times> NodeState) option" where
  "supervision_tick os sv node =
     (if is_running os sv 0 then Some (sv, node)
      else (case restart os sv of
        None \<Rightarrow> None
      | Some (Inr _, sv1) \<Rightarrow> Some (sv1, recover_from_degraded (degrade node))
      | Some (Inl _, sv1) \<Rightarrow> Some (sv1, degrade (degrade node))))"

subsection \<open>The ring keeps the last lines\<close>

lemma log_ring_is_tail: "foldl push_log [] ls = drop (length ls - LOG_RING_CAPACITY) ls"
proof (induction ls rule: rev_induct)
  case (snoc l ls)
  have "Suc (length ls - 200) = length ls - 199" if "200 \<le> length ls" using that by simp
  with snoc show ?case by (auto simp: push_log_def LOG_RING_CAPACITY_def)
qed simp

lemma recent_logs_is_tail: "n \<le> LOG_RING_CAPACITY \<Longrightarrow> recent_logs (foldl push_log [] ls) n = drop (length ls - n) ls"
proof -
  assume "n \<le> LOG_RING_CAPACITY"
  then have "length ls - (length ls - LOG_RING_CAPACITY + n) + (length ls - LOG_RING_CAPACITY) = length ls - n" by simp
  then show ?thesis by (simp add: log_ring_is_tail recent_logs_def)
qed

subsection \<open>The health loop returns\<close>

definition clock_advances :: "runtime_os \<Rightarrow> bool" where
  "clock_advances os \<longleftrightarrow> (\<forall>k. os_now os k + HEALTH_POLL_INTERVAL \<le> os_now os (Suc k))"

lemma health_loop_returns: "clock_advances os \<Longrightarrow> \<exists>r. health_loop os sv deadline k = Some r"
proof (induction "nat (deadline - os_now os k)" arbitrary: k rule: less_induct)
  case less
  have "os_now os k < os_now os (Suc k)" using less.prems by (auto simp: clock_advances_def HEALTH_POLL_INTERVAL_def dest: spec[of _ k])
  then have "\<not> deadline \<le> os_now os k \<Longrightarrow> \<exists>r. health_loop os sv deadline (Suc k) = Some r"
    using less.hyps[OF _ less.prems] by simp
  then show ?case by (subst health_loop.simps) (auto split: option.splits)
qed

lemma health_loop_ok:
  assumes "health_loop os sv deadline k = Some r"
  shows "r = Inr () \<longrightarrow> (\<exists>j \<ge> k. os_responded os j \<and> child_exit_status os sv j = None \<and> os_now os j < deadline)"
proof (rule health_loop.raw_induct[OF _ assms], goal_cases)
  case (1 f os sv deadline k r)
  show ?case
  proof
    assume "r = Inr ()"
    then consider "os_responded os k" "child_exit_status os sv k = None" "os_now os k < deadline"
      | "f os sv deadline (Suc k) = Some r"
      using 1(2) by (auto split: if_splits option.splits)
    then show "\<exists>j \<ge> k. os_responded os j \<and> child_exit_status os sv j = None \<and> os_now os j < deadline"
      using 1(1)[of os sv deadline "Suc k" r] \<open>r = Inr ()\<close> by cases (auto dest: Suc_leD)
  qed
qed

subsection \<open>A runtime that started\<close>

lemma await_healthy_ok:
  assumes "await_healthy os sv = Some (Inr ())" "sv_child sv \<noteq> None"
  shows "\<exists>k. os_responded os k \<and> os_exit os k = None \<and> os_now os k < os_now os 0 + secs (int (lc_startup_timeout (sv_config sv)))"
proof -
  obtain j where "os_responded os j" "child_exit_status os sv j = None"
    "os_now os j < os_now os 0 + secs (int (lc_startup_timeout (sv_config sv)))"
    using assms(1) health_loop_ok unfolding await_healthy_def by blast
  then show ?thesis using assms(2) by (intro exI[of _ j]) (auto simp: child_exit_status_def split: option.splits)
qed

lemma launch_Inr:
  assumes "launch os sv = Some (Inr (), sv1)"
  shows "sv1 = sv\<lparr>sv_child := Some (child_args sv)\<rparr> \<and> await_healthy os sv1 = Some (Inr ()) \<and> (\<forall>r. os_root os = Some r \<longrightarrow> \<not> serves_html r)"
  using assms by (auto simp: launch_def spawn_child_def assert_web_ui_unreachable_def split: option.splits prod.splits sum.splits if_splits)

lemma start_Inr:
  assumes "start os c = Some (Inr sv)"
  shows "os_exists os (lc_binary c) \<and> os_exists os (lc_model_path c)
    \<and> (\<exists>port kf. let sv0 = new_supervisor os c port kf in launch os sv0 = Some (Inr (), sv)
      \<and> (kf = None \<longleftrightarrow> \<not> fl_api_key_file (sv_flags sv0))
      \<and> (lc_no_mmap c \<longrightarrow> fl_load_mode (sv_flags sv0) \<or> fl_no_mmap (sv_flags sv0)))"
  using assms
  by (auto simp: start_def Let_def validate_paths_def write_api_key_file_def new_supervisor_def
      split: sum.splits option.splits prod.splits if_splits)

lemma own_args_of_child: "own_args (sv\<lparr>sv_child := ch\<rparr>) = own_args sv"
  by (simp add: args_defs split: option.split)



text \<open>A runtime that comes up: a binary that takes every flag, healthy at the second poll.\<close>

definition sample_os :: runtime_os where
  "sample_os = \<lparr>os_exists = (\<lambda>_. True), os_help = (\<lambda>_. Some (''--no-webui --api-key-file --load-mode'', [])),
     os_bind = Inr (), os_local_addr = Inr 4711, os_api_key = ''secret'', os_key_file_create = Inr ''/tmp/key'', os_key_file_write = None,
     os_http_client = None, os_spawn = (\<lambda>_. None), os_now = (\<lambda>k. int k * 1000000000), os_exit = (\<lambda>_. None),
     os_responded = (\<lambda>k. 2 \<le> k), os_stderr = (\<lambda>_. []), os_root = Some \<lparr>rr_code = 404, rr_status = ''404 Not Found'', rr_content_type = None\<rparr>\<rparr>"

definition sample_llama :: LlamaRuntimeConfig where
  "sample_llama = (llama_config_new ''llama-server'' ''m.gguf'')\<lparr>lc_no_mmap := True, lc_extra_args := [''--host'', ''0.0.0.0'']\<rparr>"

definition sample_supervisor :: LlamaSupervisor where
  "sample_supervisor = (let sv = new_supervisor sample_os sample_llama 4711 (Some ''/tmp/key'') in sv\<lparr>sv_child := Some (child_args sv)\<rparr>)"

lemma sample_start: "start sample_os sample_llama = Some (Inr sample_supervisor)"
proof -
  have f: "probe_supported_flags (os_help sample_os (lc_binary sample_llama)) = \<lparr>fl_no_webui = True, fl_api_key_file = True,
      fl_kv_unified = False, fl_no_slots = False, fl_gpu_layer_words = False, fl_load_mode = True, fl_no_mmap = False\<rparr>"
    by code_simp
  have h: "health_loop sample_os sv d 1 = Some (Inr ())" if "d > 2000000000" "sv_child sv = Some ch" for sv d ch
  proof -
    have "os_now sample_os k = int k * 1000000000" "os_exit sample_os k = None" "os_responded sample_os k = (2 \<le> k)" for k
      by (simp_all add: sample_os_def)
    then show ?thesis
      using that by (simp add: health_loop.simps[of sample_os sv d "Suc 0"] health_loop.simps[of sample_os sv d "Suc (Suc 0)"] child_exit_status_def)
  qed
  have "validate_paths sample_os sample_llama = Inr ()" "reserve_loopback_port sample_os = Inr 4711" "write_api_key_file sample_os = Inr ''/tmp/key''"
    "os_http_client sample_os = None"
    by (simp_all add: validate_paths_def reserve_loopback_port_def write_api_key_file_def sample_os_def)
  moreover have "launch sample_os (new_supervisor sample_os sample_llama 4711 (Some ''/tmp/key'')) = Some (Inr (), sample_supervisor)"
  proof -
    let ?sv = "new_supervisor sample_os sample_llama 4711 (Some ''/tmp/key'')"
    have "spawn_child sample_os ?sv = (None, sample_supervisor)"
      by (simp add: spawn_child_def sample_supervisor_def Let_def) (simp add: sample_os_def)
    moreover have "await_healthy sample_os sample_supervisor = Some (Inr ())"
      unfolding await_healthy_def
      by (rule h[of _ _ "child_args ?sv"]) (simp_all add: sample_supervisor_def Let_def, simp add: new_supervisor_def sample_llama_def llama_config_new_def DEFAULT_STARTUP_TIMEOUT_def sample_os_def secs_def)
    moreover have "assert_web_ui_unreachable sample_os sample_supervisor = Inr ()"
      by (simp add: assert_web_ui_unreachable_def sample_os_def serves_html_def)
    ultimately show ?thesis by (simp add: launch_def)
  qed
  ultimately show ?thesis using f by (simp add: start_def Let_def)
qed



subsection \<open>Operator arguments and failed restarts\<close>

text \<open>The value the last occurrence of an option has.\<close>

fun last_value :: "string \<Rightarrow> string list \<Rightarrow> string option" where
  "last_value opt (a # v # rest) = (case last_value opt (v # rest) of Some w \<Rightarrow> Some w | None \<Rightarrow> if a = opt then Some v else None)"
| "last_value opt _ = None"

lemma last_value_append: "last_value opt (pre @ [opt, v]) = Some v"
proof (induction pre)
  case (Cons a pre)
  then show ?case by (cases pre) simp_all
qed simp

text \<open>The bind address is documented as not configurable; arguments of the operator come after it and can name another.\<close>

lemma extra_args_can_rebind:
  assumes "start os c = Some (Inr sv)" "lc_extra_args c = pre @ [''--host'', addr]"
  shows "\<exists>args. sv_child sv = Some args \<and> last_value ''--host'' args = Some addr"
proof -
  obtain sv0 where "launch os sv0 = Some (Inr (), sv)" "sv_config sv0 = c"
    using start_Inr[OF assms(1)] by (metis (no_types, lifting) LlamaSupervisor.select_convs(1) new_supervisor_def)
  then have "sv_child sv = Some (own_args sv0 @ pre @ [''--host'', addr])"
    using launch_Inr[of os sv0 sv] assms(2) by (auto simp: child_args_def)
  then show ?thesis using last_value_append[of "''--host''" "own_args sv0 @ pre" addr] by simp
qed

text \<open>
  A restart that fails its check for a web page leaves the child in place.  Later ticks see a
  running child and do nothing, and a degraded node serves: requests go to a runtime that the
  check refused.  The same holds of a child that was only slow to become healthy: it is never
  checked again, and the node stays degraded.
\<close>

lemma restart_keeps_refused_child:
  assumes "restart os sv = Some (Inl e, sv1)" "os_spawn os (child_args (terminate sv)) = None"
  shows "sv_child sv1 = Some (child_args (terminate sv))"
  using assms by (auto simp: restart_def launch_def spawn_child_def split: option.splits sum.splits)

lemma refused_restart_serves_on:
  assumes "supervision_tick os sv node = Some (sv1, node1)" "\<not> is_running os sv 0"
    and "os_spawn os (child_args (terminate sv)) = None" "await_healthy os sv1 = Some (Inr ())"
    and "os_root os = Some r" "serves_html r" "status node = Healthy" "enclave_state node = EnclaveActive"
    and "os_exit os' 0 = None"
  shows "sv_child sv1 = Some (child_args (terminate sv)) \<and> supervision_tick os' sv1 node1 = Some (sv1, node1) \<and> can_serve node1"
proof -
  have sp: "spawn_child os (terminate sv) = (None, terminate sv\<lparr>sv_child := Some (child_args (terminate sv))\<rparr>)"
    using assms(3) by (simp add: spawn_child_def)
  obtain x where "restart os sv = Some (x, sv1)" and nd: "node1 = (case x of Inl _ \<Rightarrow> degrade (degrade node) | Inr _ \<Rightarrow> recover_from_degraded (degrade node))"
    using assms(1,2) by (auto simp: supervision_tick_def split: option.splits prod.splits sum.splits)
  then have sv1: "sv1 = terminate sv\<lparr>sv_child := Some (child_args (terminate sv))\<rparr>"
    using sp by (auto simp: restart_def launch_def split: option.splits sum.splits)
  then have "x = assert_web_ui_unreachable os sv1"
    using \<open>restart os sv = Some (x, sv1)\<close> sp assms(4) by (simp add: restart_def launch_def)
  then have "node1 = degrade (degrade node)" using nd assms(5,6) by (simp add: assert_web_ui_unreachable_def)
  then show ?thesis
    using sv1 assms(7-9) by (simp add: supervision_tick_def is_running_def child_exit_status_def degrade_def can_serve_def)
qed

text \<open>A tick never lifts a withdrawal: a quarantined, locked or zeroized node is left as it is.\<close>

lemma supervision_keeps_withdrawal:
  assumes "supervision_tick os sv node = Some (sv1, node1)" "status node \<notin> {Healthy, Degraded}"
  shows "node1 = node"
  using assms by (auto simp: supervision_tick_def degrade_def recover_from_degraded_def split: if_splits option.splits prod.splits sum.splits)

end
