(* ===== verification/Inference.thy ===== *)
theory Inference
  imports Errors "HOL-Library.AList"
begin

text \<open>
  Admission, sessions and leases of \<^verbatim>\<open>cordon-core/src/inference.rs\<close>.  The model runtime
  is a parameter (\<open>backend\<close>); a semaphore is its number of free permits; the random
  identifier of an unnamed session and the clock are arguments.  The session table and
  the table of input hashes are association lists with distinct keys.
\<close>

definition MAX_TRACKED_INPUT_HASHES :: nat where "MAX_TRACKED_INPUT_HASHES = 100000"
definition CLIENT_SESSION_SHARE_DIVISOR :: nat where "CLIENT_SESSION_SHARE_DIVISOR = 8"
definition MIN_SESSIONS_PER_CLIENT :: nat where "MIN_SESSIONS_PER_CLIENT = 8"

definition default_client_share :: "nat \<Rightarrow> nat" where
  "default_client_share max_sessions = max (max_sessions div CLIENT_SESSION_SHARE_DIVISOR) MIN_SESSIONS_PER_CLIENT"

subsection \<open>Requests and output\<close>

record Message =
  role :: string
  content :: string

record InferenceParams =
  ip_max_tokens :: nat
  temperature :: rat
  top_p :: rat
  top_k :: nat
  stop :: "string list"
  repetition_penalty :: rat

record InferenceRequest =
  request_id :: uuid
  rq_client_id :: string
  rq_session_id :: "uuid option"
  model_id :: string
  messages :: "Message list"
  params :: InferenceParams
  timeout_secs :: nat
  input_hash :: string
  rq_created_at :: datetime

datatype StopReason = Stop | Length | ContentFilter | TimeoutStop | ErrorStop

fun finish_as_str :: "StopReason \<Rightarrow> string" where
  "finish_as_str Stop = ''stop''"
| "finish_as_str Length = ''length''"
| "finish_as_str ContentFilter = ''content_filter''"
| "finish_as_str TimeoutStop = ''timeout''"
| "finish_as_str ErrorStop = ''error''"

definition finish_from_wire :: "string \<Rightarrow> StopReason" where
  "finish_from_wire s = (if s = ''length'' then Length else if s = ''content_filter'' then ContentFilter
     else if s = ''timeout'' then TimeoutStop else if s = ''error'' then ErrorStop else Stop)"

record TokenUsage =
  prompt_tokens :: nat
  completion_tokens :: nat

record RawInferenceOutput =
  out_text :: string
  usage :: TokenUsage
  finish_reason :: StopReason
  latency_ms :: nat

datatype StreamChunk = Delta string | Done StopReason TokenUsage

subsection \<open>Sessions\<close>

record ClientSession =
  cs_client_id :: string
  cs_created_at :: datetime
  cs_last_active :: datetime
  turn_count :: nat
  scratch :: uuid

record KvCacheManager =
  sessions :: "(uuid \<times> ClientSession) list"
  zero_on_end :: bool
  max_sessions :: nat
  max_sessions_per_client :: nat

definition with_client_limit :: "bool \<Rightarrow> nat \<Rightarrow> nat \<Rightarrow> KvCacheManager" where
  "with_client_limit zero m per_client = \<lparr>sessions = [], zero_on_end = zero, max_sessions = m,
     max_sessions_per_client = max per_client 1\<rparr>"

definition kv_new :: "bool \<Rightarrow> nat \<Rightarrow> KvCacheManager" where
  "kv_new zero m = with_client_limit zero m (default_client_share m)"

definition active_sessions_for_client :: "KvCacheManager \<Rightarrow> string \<Rightarrow> nat" where
  "active_sessions_for_client kv c = length (filter (\<lambda>(_, s). cs_client_id s = c) (sessions kv))"

definition insert_session ::
  "KvCacheManager \<Rightarrow> datetime \<Rightarrow> uuid \<Rightarrow> string \<Rightarrow> unit CordonResult \<times> KvCacheManager" where
  "insert_session kv now sid client_id =
     (if length (sessions kv) \<ge> max_sessions kv
      then (Inl (Overloaded (wrap_u32 (max_sessions kv))), kv)
      else if active_sessions_for_client kv client_id \<ge> max_sessions_per_client kv
      then (Inl (RateLimitExceeded client_id), kv)
      else (Inr (), kv\<lparr>sessions := AList.update sid \<lparr>cs_client_id = client_id, cs_created_at = now,
              cs_last_active = now, turn_count = 1, scratch = sid\<rparr> (sessions kv)\<rparr>))"

definition open_session ::
  "KvCacheManager \<Rightarrow> datetime \<Rightarrow> uuid \<Rightarrow> string \<Rightarrow> uuid option \<Rightarrow> uuid CordonResult \<times> KvCacheManager" where
  "open_session kv now fresh client_id session_id =
     (case session_id of
        Some sid \<Rightarrow>
          (case map_of (sessions kv) sid of
             Some existing \<Rightarrow>
               if cs_client_id existing = client_id
               then (Inr sid, kv\<lparr>sessions := AList.update sid (existing\<lparr>cs_last_active := now,
                       turn_count := sat_add_u32 (turn_count existing) 1\<rparr>) (sessions kv)\<rparr>)
               else (Inl (AuthFailed ''session does not belong to this client''), kv)
           | None \<Rightarrow> (case insert_session kv now sid client_id of
                (Inl e, kv1) \<Rightarrow> (Inl e, kv1) | (Inr _, kv1) \<Rightarrow> (Inr sid, kv1)))
      | None \<Rightarrow> (case insert_session kv now fresh client_id of
           (Inl e, kv1) \<Rightarrow> (Inl e, kv1) | (Inr _, kv1) \<Rightarrow> (Inr fresh, kv1)))"

definition validate_session_owner :: "KvCacheManager \<Rightarrow> uuid \<Rightarrow> string \<Rightarrow> bool" where
  "validate_session_owner kv sid client_id =
     (case map_of (sessions kv) sid of Some s \<Rightarrow> cs_client_id s = client_id | None \<Rightarrow> False)"

definition end_session :: "KvCacheManager \<Rightarrow> uuid \<Rightarrow> KvCacheManager" where
  "end_session kv sid = kv\<lparr>sessions := AList.delete sid (sessions kv)\<rparr>"

definition cleanup_expired :: "KvCacheManager \<Rightarrow> datetime \<Rightarrow> int \<Rightarrow> nat \<times> KvCacheManager" where
  "cleanup_expired kv now max_idle_seconds =
     (let cutoff = now - secs max_idle_seconds;
          expired = filter (\<lambda>(_, s). cs_last_active s \<le> cutoff) (sessions kv)
      in (length expired, kv\<lparr>sessions := filter (\<lambda>(_, s). \<not> cs_last_active s \<le> cutoff) (sessions kv)\<rparr>))"

subsection \<open>The engine\<close>

record InferenceEngine =
  kv_cache :: KvCacheManager
  free_slots :: nat
  max_concurrent :: nat
  input_hash_counts :: "(string \<times> nat) list"

record InferenceLease =
  lease_session :: uuid
  end_on_drop :: bool

definition engine_new :: "nat \<Rightarrow> bool \<Rightarrow> nat \<Rightarrow> InferenceEngine" where
  "engine_new m zero max_sess = \<lparr>kv_cache = kv_new zero max_sess, free_slots = max m 1,
     max_concurrent = max m 1, input_hash_counts = []\<rparr>"

definition engine_record_hash :: "InferenceEngine \<Rightarrow> string \<Rightarrow> InferenceEngine" where
  "engine_record_hash en h =
     (let cs = input_hash_counts en;
          cs1 = (if length cs \<ge> MAX_TRACKED_INPUT_HASHES \<and> map_of cs h = None then [] else cs);
          n = (case map_of cs1 h of Some k \<Rightarrow> k | None \<Rightarrow> 0)
      in en\<lparr>input_hash_counts := AList.update h (wrap_u32 (n + 1)) cs1\<rparr>)"

text \<open>A permit that is not put into a lease is returned when \<^verbatim>\<open>admit\<close> leaves.\<close>

definition admit ::
  "InferenceEngine \<Rightarrow> datetime \<Rightarrow> uuid \<Rightarrow> InferenceRequest \<Rightarrow> InferenceLease CordonResult \<times> InferenceEngine" where
  "admit en now fresh rq =
     (if free_slots en = 0 then (Inl (Overloaded (max_concurrent en)), en)
      else (case open_session (kv_cache en) now fresh (rq_client_id rq) (rq_session_id rq) of
              (Inl e, kv1) \<Rightarrow> (Inl e, en\<lparr>kv_cache := kv1\<rparr>)
            | (Inr sid, kv1) \<Rightarrow>
                (Inr \<lparr>lease_session = sid, end_on_drop = (rq_session_id rq = None \<and> zero_on_end kv1)\<rparr>,
                 engine_record_hash (en\<lparr>kv_cache := kv1, free_slots := free_slots en - 1\<rparr>) (input_hash rq))))"

definition drop_lease :: "InferenceEngine \<Rightarrow> InferenceLease \<Rightarrow> InferenceEngine" where
  "drop_lease en l = en\<lparr>free_slots := free_slots en + 1,
     kv_cache := (if end_on_drop l then end_session (kv_cache en) (lease_session l) else kv_cache en)\<rparr>"

definition active_requests :: "InferenceEngine \<Rightarrow> nat" where
  "active_requests en = max_concurrent en - free_slots en"

definition replay_count :: "InferenceEngine \<Rightarrow> string \<Rightarrow> nat" where
  "replay_count en h = (case map_of (input_hash_counts en) h of Some n \<Rightarrow> n | None \<Rightarrow> 0)"

text \<open>\<^verbatim>\<open>run\<close>: the runtime's answer, or none before the deadline.\<close>

definition engine_run ::
  "(InferenceRequest \<Rightarrow> RawInferenceOutput CordonResult option) \<Rightarrow> InferenceRequest \<Rightarrow> RawInferenceOutput CordonResult" where
  "engine_run backend rq = (case backend rq of Some r \<Rightarrow> r | None \<Rightarrow> Inl (Timeout (timeout_secs rq)))"

subsection \<open>Runs of the session table and of the engine\<close>

datatype session_event =
  OpenSession datetime uuid string "uuid option" | EndSession uuid | CleanupSessions datetime int

fun session_step :: "KvCacheManager \<Rightarrow> session_event \<Rightarrow> KvCacheManager" where
  "session_step kv (OpenSession now fresh c sid) = snd (open_session kv now fresh c sid)"
| "session_step kv (EndSession sid) = end_session kv sid"
| "session_step kv (CleanupSessions now idle) = snd (cleanup_expired kv now idle)"

definition kv_ok :: "KvCacheManager \<Rightarrow> bool" where
  "kv_ok kv \<longleftrightarrow> distinct (map fst (sessions kv)) \<and> length (sessions kv) \<le> max_sessions kv \<and>
     (\<forall>c. active_sessions_for_client kv c \<le> max_sessions_per_client kv)"

text \<open>The engine with the leases in flight: requests are admitted and leases dropped in any order.\<close>

datatype engine_event = Admit datetime uuid InferenceRequest | DropLease nat

fun engine_step :: "InferenceEngine \<times> InferenceLease list \<Rightarrow> engine_event \<Rightarrow> InferenceEngine \<times> InferenceLease list" where
  "engine_step (en, ls) (Admit now fresh rq) =
     (case admit en now fresh rq of (Inr l, en1) \<Rightarrow> (en1, ls @ [l]) | (Inl _, en1) \<Rightarrow> (en1, ls))"
| "engine_step (en, ls) (DropLease i) =
     (if i < length ls then (drop_lease en (ls ! i), take i ls @ drop (Suc i) ls) else (en, ls))"

definition slots_ok :: "nat \<Rightarrow> InferenceEngine \<times> InferenceLease list \<Rightarrow> bool" where
  "slots_ok m x \<longleftrightarrow> free_slots (fst x) + length (snd x) = m \<and> max_concurrent (fst x) = m"


text \<open>A fresh random identifier is one no live session has.\<close>

fun fresh_ok :: "KvCacheManager \<Rightarrow> session_event \<Rightarrow> bool" where
  "fresh_ok kv (OpenSession now fresh c None) = (map_of (sessions kv) fresh = None)"
| "fresh_ok kv _ = True"

definition owners :: "KvCacheManager \<Rightarrow> (uuid \<times> string) list" where
  "owners kv = map (\<lambda>(k, s). (k, cs_client_id s)) (sessions kv)"

subsection \<open>The session table\<close>

lemma update_absent: "map_of al k = None \<Longrightarrow> AList.update k v al = al @ [(k, v)]"
  by (induction al) (auto split: if_splits)

lemma owners_update_same:
  "map_of al k = Some s \<Longrightarrow> cs_client_id s' = cs_client_id s \<Longrightarrow>
   map (\<lambda>(k, s). (k, cs_client_id s)) (AList.update k s' al) = map (\<lambda>(k, s). (k, cs_client_id s)) al"
  by (induction al) (auto split: if_splits)

lemma owners_keys: "map fst (owners kv) = map fst (sessions kv)"
  by (simp add: owners_def case_prod_beta comp_def)

lemma owners_length: "length (owners kv) = length (sessions kv)"
  by (simp add: owners_def)

lemma active_owners: "active_sessions_for_client kv c = length (filter (\<lambda>(_, c'). c' = c) (owners kv))"
  by (simp add: active_sessions_for_client_def owners_def filter_map comp_def case_prod_unfold)

lemma kv_ok_owners:
  "kv_ok kv \<longleftrightarrow> distinct (map fst (owners kv)) \<and> length (owners kv) \<le> max_sessions kv \<and>
     (\<forall>c. length (filter (\<lambda>(_, c'). c' = c) (owners kv)) \<le> max_sessions_per_client kv)"
  by (simp add: kv_ok_def owners_keys active_owners owners_length)

lemma map_of_owners: "map_of (owners kv) k = map_option cs_client_id (map_of (sessions kv) k)"
  by (simp add: owners_def map_of_map)

lemma insert_session_cases:
  assumes "map_of (sessions kv) sid = None" "insert_session kv now sid c = (r, kv')"
  obtains e where "r = Inl e" "kv' = kv" "e = Overloaded (wrap_u32 (max_sessions kv)) \<or> e = RateLimitExceeded c"
  | "r = Inr ()" "owners kv' = owners kv @ [(sid, c)]" "length (sessions kv) < max_sessions kv"
      "active_sessions_for_client kv c < max_sessions_per_client kv"
      "max_sessions kv' = max_sessions kv" "max_sessions_per_client kv' = max_sessions_per_client kv"
      "zero_on_end kv' = zero_on_end kv"
  using assms by (auto simp: insert_session_def owners_def update_absent split: if_splits)

lemma insert_session_ok:
  assumes "kv_ok kv" "map_of (sessions kv) sid = None"
  shows "kv_ok (snd (insert_session kv now sid c))"
proof -
  obtain r kv' where i: "insert_session kv now sid c = (r, kv')" by fastforce
  show ?thesis
  proof (cases rule: insert_session_cases [OF assms(2) i])
    case 2
    have "sid \<notin> fst ` set (owners kv)" using assms(2)
      by (metis map_of_eq_None_iff list.set_map owners_keys)
    then show ?thesis using assms(1) i 2 by (auto simp: kv_ok_owners active_owners owners_length)
  qed (use assms(1) i in simp)
qed

lemma open_session_ok:
  assumes "kv_ok kv" "session_id = None \<longrightarrow> map_of (sessions kv) fresh = None"
  shows "kv_ok (snd (open_session kv now fresh c session_id))"
proof (cases session_id)
  case None
  then show ?thesis using insert_session_ok [OF assms(1), of fresh now c] assms(2)
    by (auto simp: open_session_def split: prod.splits sum.splits)
next
  case (Some sid)
  show ?thesis
  proof (cases "map_of (sessions kv) sid")
    case None
    then show ?thesis using Some insert_session_ok [OF assms(1), of sid now c]
      by (auto simp: open_session_def split: prod.splits sum.splits)
  next
    case (Some s)
    then have "owners (kv\<lparr>sessions := AList.update sid (s\<lparr>cs_last_active := now, turn_count := n\<rparr>) (sessions kv)\<rparr>) = owners kv" for n
      by (simp add: owners_def owners_update_same)
    then show ?thesis using Some \<open>session_id = Some sid\<close> assms(1) by (simp add: open_session_def kv_ok_owners)
  qed
qed

lemma filter_sessions_ok:
  assumes "kv_ok kv"
  shows "kv_ok (kv\<lparr>sessions := filter P (sessions kv)\<rparr>)"
proof -
  have "length (filter (\<lambda>(_, s). cs_client_id s = c) (filter P (sessions kv))) \<le>
      length (filter (\<lambda>(_, s). cs_client_id s = c) (sessions kv))" for c
  proof -
    have "filter (\<lambda>(_, s). cs_client_id s = c) (filter P (sessions kv)) =
        filter P (filter (\<lambda>(_, s). cs_client_id s = c) (sessions kv))"
      by (simp add: conj_commute)
    then show ?thesis using length_filter_le by metis
  qed
  then show ?thesis using assms length_filter_le [of P "sessions kv"]
    unfolding kv_ok_def active_sessions_for_client_def
    by (auto simp: distinct_map_filter intro: order_trans le_trans [OF length_filter_le])
qed

lemma delete_eq_filter: "AList.delete k al = filter (\<lambda>x. fst x \<noteq> k) al"
  unfolding AList.delete_eq by (rule filter_cong) auto

interpretation session_sys: invariant_system session_step fresh_ok kv_ok
proof unfold_locales
  fix kv e
  assume "kv_ok kv" "fresh_ok kv e"
  then show "kv_ok (session_step kv e)"
  proof (cases e)
    case (OpenSession now fresh c sid)
    then show ?thesis using open_session_ok [OF \<open>kv_ok kv\<close>, of sid fresh now c] \<open>fresh_ok kv e\<close>
      by (cases sid) auto
  qed (simp_all add: end_session_def delete_eq_filter filter_sessions_ok cleanup_expired_def Let_def)
qed

lemma kv_limits_step [simp]:
  "max_sessions (session_step kv e) = max_sessions kv"
  "max_sessions_per_client (session_step kv e) = max_sessions_per_client kv"
  by (cases e; auto simp: open_session_def insert_session_def end_session_def cleanup_expired_def Let_def
      split: option.splits prod.splits sum.splits)+

lemma kv_limits_run [simp]:
  "max_sessions (run session_step kv es) = max_sessions kv"
  "max_sessions_per_client (run session_step kv es) = max_sessions_per_client kv"
  by (induction es arbitrary: kv) auto

text \<open>C32. The session table is bounded as a whole and for each client, however sessions are
  opened (named or not), resumed, ended and expired.\<close>

theorem session_ceilings_hold:
  assumes "run_ok session_step fresh_ok (with_client_limit zero m per) es"
  shows "length (sessions (run session_step (with_client_limit zero m per) es)) \<le> m \<and>
    active_sessions_for_client (run session_step (with_client_limit zero m per) es) c \<le> max per 1"
proof -
  have "kv_ok (with_client_limit zero m per)"
    by (simp add: kv_ok_def with_client_limit_def active_sessions_for_client_def)
  from session_sys.run_inv [OF this assms] show ?thesis
    by (simp add: kv_ok_def) (simp add: with_client_limit_def)
qed

theorem session_ceilings_hold_witness:
  "active_sessions_for_client (run session_step (with_client_limit True 64 1)
     [OpenSession 0 1 ''a'' None, OpenSession 0 2 ''a'' (Some 7)]) ''a'' \<le> 1"
  using session_ceilings_hold [of True 64 1 "[OpenSession 0 1 ''a'' None, OpenSession 0 2 ''a'' (Some 7)]" "''a''"]
  by (simp add: with_client_limit_def)


subsection \<open>Ownership\<close>

text \<open>Sessions cannot be taken over: naming a live session of another client is refused as
  an authentication failure and changes nothing; a successful open gives the caller a
  session it owns, which was its own or nobody's before, and leaves every other session as
  it was.\<close>

theorem session_ownership:
  assumes "session_id = None \<longrightarrow> map_of (sessions kv) fresh = None"
  shows "(\<forall>sid s. session_id = Some sid \<longrightarrow> map_of (sessions kv) sid = Some s \<longrightarrow> cs_client_id s \<noteq> c \<longrightarrow>
      open_session kv now fresh c session_id = (Inl (AuthFailed ''session does not belong to this client''), kv)) \<and>
    (\<forall>sid kv'. open_session kv now fresh c session_id = (Inr sid, kv') \<longrightarrow>
      validate_session_owner kv' sid c \<and>
      (\<forall>s. map_of (sessions kv) sid = Some s \<longrightarrow> cs_client_id s = c) \<and>
      (\<forall>k. k \<noteq> sid \<longrightarrow> map_of (sessions kv') k = map_of (sessions kv) k))"
  using assms
  by (auto simp: open_session_def insert_session_def validate_session_owner_def update_conv
      split: option.splits if_splits prod.splits sum.splits)

theorem session_ownership_witness:
  "open_session (snd (open_session (kv_new True 128) 0 1 ''alice'' None)) 5 2 ''mallory'' (Some 1) =
     (Inl (AuthFailed ''session does not belong to this client''), snd (open_session (kv_new True 128) 0 1 ''alice'' None))"
proof -
  have "\<exists>s. map_of (sessions (snd (open_session (kv_new True 128) 0 1 ''alice'' None))) 1 = Some s \<and> cs_client_id s = ''alice''"
    by (simp add: open_session_def insert_session_def kv_new_def with_client_limit_def active_sessions_for_client_def)
  then show ?thesis
    using session_ownership [of "Some 1" "snd (open_session (kv_new True 128) 0 1 ''alice'' None)" 2 "''mallory''" 5] by auto
qed

subsection \<open>Slots\<close>

lemma engine_record_hash_frame [simp]:
  "free_slots (engine_record_hash en h) = free_slots en" "max_concurrent (engine_record_hash en h) = max_concurrent en"
  "kv_cache (engine_record_hash en h) = kv_cache en"
  by (simp_all add: engine_record_hash_def Let_def)

interpretation slot_sys: invariant_system engine_step "\<lambda>_ _. True" "slots_ok m" for m
proof unfold_locales
  fix x :: "InferenceEngine \<times> InferenceLease list" and e
  assume ok: "slots_ok m x"
  obtain en ls where x: "x = (en, ls)" by fastforce
  show "slots_ok m (engine_step x e)"
  proof (cases e)
    case (Admit now fresh rq)
    then show ?thesis using ok x by (auto simp: slots_ok_def admit_def split: prod.splits sum.splits)
  next
    case (DropLease i)
    then show ?thesis using ok x by (auto simp: slots_ok_def drop_lease_def)
  qed
qed

text \<open>Slots are conserved: with requests admitted and leases dropped in any order, the free
  slots and the leases in flight always add up to the configured concurrency, so there are
  never more generations than that and no failed admission or finished request loses a slot.\<close>

theorem slots_conserved:
  fixes m zero max_sess es
  defines "x \<equiv> run engine_step (engine_new m zero max_sess, []) es"
  shows "free_slots (fst x) + length (snd x) = max m 1 \<and> active_requests (fst x) = length (snd x) \<and>
    length (snd x) \<le> max m 1"
proof -
  have "slots_ok (max m 1) (engine_new m zero max_sess, [])" by (simp add: slots_ok_def engine_new_def)
  from slot_sys.run_inv [OF this run_ok_True, of es] show ?thesis
    by (auto simp: slots_ok_def active_requests_def x_def)
qed

subsection \<open>Unnamed requests\<close>

definition serve :: "InferenceEngine \<Rightarrow> datetime \<times> uuid \<times> InferenceRequest \<Rightarrow> InferenceEngine" where
  "serve en x = (case x of (now, fresh, rq) \<Rightarrow>
     (case admit en now fresh rq of (Inr l, en1) \<Rightarrow> drop_lease en1 l | (Inl _, en1) \<Rightarrow> en1))"

definition unnamed :: "string \<Rightarrow> datetime \<times> uuid \<times> InferenceRequest \<Rightarrow> bool" where
  "unnamed c x \<longleftrightarrow> rq_client_id (snd (snd x)) = c \<and> rq_session_id (snd (snd x)) = None"

lemma admit_unnamed:
  assumes "rq_session_id rq = None" "map_of (sessions (kv_cache en)) fresh = None" "admit en now fresh rq = (Inr l, en1)"
  shows "lease_session l = fresh \<and> end_on_drop l = zero_on_end (kv_cache en) \<and> free_slots en = Suc (free_slots en1) \<and>
    sessions (kv_cache en1) = sessions (kv_cache en) @ [(fresh, \<lparr>cs_client_id = rq_client_id rq, cs_created_at = now,
      cs_last_active = now, turn_count = 1, scratch = fresh\<rparr>)]"
  using assms by (auto simp: admit_def open_session_def insert_session_def update_absent split: if_splits prod.splits sum.splits)

text \<open>A request that names no session leaves none behind when sessions are zeroized on end:
  once its lease is dropped the session table and the number of free slots are what they
  were before it was admitted.\<close>

theorem unnamed_request_leaves_no_session:
  assumes "zero_on_end (kv_cache en)" "rq_session_id rq = None" "map_of (sessions (kv_cache en)) fresh = None"
    and "admit en now fresh rq = (Inr l, en1)"
  shows "sessions (kv_cache (drop_lease en1 l)) = sessions (kv_cache en) \<and> free_slots (drop_lease en1 l) = free_slots en"
proof -
  have "filter (\<lambda>x. fst x \<noteq> fresh) (sessions (kv_cache en)) = sessions (kv_cache en)"
    using assms(3) by (auto simp: filter_id_conv map_of_eq_None_iff)
  then show ?thesis using admit_unnamed [OF assms(2-4)] assms(1)
    by (simp add: drop_lease_def end_session_def delete_eq_filter)
qed

definition sample_request :: InferenceRequest where
  "sample_request = \<lparr>request_id = 1, rq_client_id = ''a'', rq_session_id = None, model_id = ''m'', messages = [],
     params = \<lparr>ip_max_tokens = 512, temperature = 7 / 10, top_p = 9 / 10, top_k = 0, stop = [], repetition_penalty = 1\<rparr>,
     timeout_secs = 60, input_hash = ''h'', rq_created_at = 0\<rparr>"

theorem unnamed_request_leaves_no_session_witness:
  "\<exists>l en1. admit (engine_new 2 True 64) 0 9 sample_request = (Inr l, en1) \<and> sessions (kv_cache (drop_lease en1 l)) = []"
proof -
  have "\<exists>l en1. admit (engine_new 2 True 64) 0 9 sample_request = (Inr l, en1)"
    by (simp add: admit_def engine_new_def kv_new_def with_client_limit_def open_session_def insert_session_def
        sample_request_def active_sessions_for_client_def)
  then obtain l en1 where a: "admit (engine_new 2 True 64) 0 9 sample_request = (Inr l, en1)" by blast
  show ?thesis using unnamed_request_leaves_no_session [OF _ _ _ a] a
    by (auto simp: engine_new_def kv_new_def with_client_limit_def sample_request_def)
qed


lemma serve_unnamed:
  assumes "\<not> zero_on_end (kv_cache en)" "0 < free_slots en" "unnamed c (now, fresh, rq)"
    and "map_of (sessions (kv_cache en)) fresh = None"
    and "length (sessions (kv_cache en)) < max_sessions (kv_cache en)"
    and "active_sessions_for_client (kv_cache en) c < max_sessions_per_client (kv_cache en)"
  shows "\<exists>s. sessions (kv_cache (serve en (now, fresh, rq))) = sessions (kv_cache en) @ [(fresh, s)] \<and> cs_client_id s = c"
    "free_slots (serve en (now, fresh, rq)) = free_slots en"
    "zero_on_end (kv_cache (serve en (now, fresh, rq))) = zero_on_end (kv_cache en)"
    "max_sessions (kv_cache (serve en (now, fresh, rq))) = max_sessions (kv_cache en)"
    "max_sessions_per_client (kv_cache (serve en (now, fresh, rq))) = max_sessions_per_client (kv_cache en)"
  using assms by (auto simp: serve_def admit_def unnamed_def open_session_def insert_session_def update_absent drop_lease_def)

text \<open>When sessions are not zeroized on end, the session of a request that names none is
  never torn down: after as many finished requests as its share of the table, a client with
  nothing in flight is refused until its sessions expire.\<close>

theorem unnamed_requests_exhaust_share:
  assumes "\<not> zero_on_end (kv_cache en)" "0 < free_slots en" "list_all (unnamed c) xs"
    and "distinct (map (\<lambda>x. fst (snd x)) xs)"
    and "\<forall>x \<in> set xs. map_of (sessions (kv_cache en)) (fst (snd x)) = None"
    and "length (sessions (kv_cache en)) + length xs < max_sessions (kv_cache en)"
    and "active_sessions_for_client (kv_cache en) c + length xs = max_sessions_per_client (kv_cache en)"
    and "unnamed c (now, fresh, rq)"
  shows "free_slots (foldl serve en xs) = free_slots en \<and>
    fst (admit (foldl serve en xs) now fresh rq) = Inl (RateLimitExceeded c)"
  using assms
proof (induction xs arbitrary: en)
  case Nil
  then show ?case by (auto simp: admit_def unnamed_def open_session_def insert_session_def)
next
  case (Cons x xs)
  obtain t f q where x: "x = (t, f, q)" by (cases x)
  have s: "\<exists>s. sessions (kv_cache (serve en x)) = sessions (kv_cache en) @ [(f, s)] \<and> cs_client_id s = c"
      "free_slots (serve en x) = free_slots en" "\<not> zero_on_end (kv_cache (serve en x))"
      "max_sessions (kv_cache (serve en x)) = max_sessions (kv_cache en)"
      "max_sessions_per_client (kv_cache (serve en x)) = max_sessions_per_client (kv_cache en)"
    using serve_unnamed [of en c t f q] Cons.prems x by auto
  then obtain sn where sn: "sessions (kv_cache (serve en x)) = sessions (kv_cache en) @ [(f, sn)]" "cs_client_id sn = c" by blast
  have "active_sessions_for_client (kv_cache (serve en x)) c = Suc (active_sessions_for_client (kv_cache en) c)"
    "length (sessions (kv_cache (serve en x))) = Suc (length (sessions (kv_cache en)))"
    using sn by (simp_all add: active_sessions_for_client_def)
  moreover have "\<forall>y \<in> set xs. map_of (sessions (kv_cache (serve en x))) (fst (snd y)) = None"
  proof
    fix y assume y: "y \<in> set xs"
    then have "fst (snd y) \<noteq> f" using Cons.prems(4) x by force
    then show "map_of (sessions (kv_cache (serve en x))) (fst (snd y)) = None" using sn(1) Cons.prems(5) y by simp
  qed
  ultimately show ?case using Cons.IH [of "serve en x"] s Cons.prems by auto
qed

theorem unnamed_requests_exhaust_share_witness:
  "fst (admit (foldl serve (engine_new 2 False 64) (map (\<lambda>k. (0, k, sample_request)) [0..<8])) 0 9 sample_request) =
     Inl (RateLimitExceeded ''a'')"
  using unnamed_requests_exhaust_share [of "engine_new 2 False 64" "''a''" "map (\<lambda>k. (0, k, sample_request)) [0..<8]" 0 9 sample_request]
  by (simp add: engine_new_def kv_new_def with_client_limit_def default_client_share_def CLIENT_SESSION_SHARE_DIVISOR_def
      MIN_SESSIONS_PER_CLIENT_def unnamed_def sample_request_def list_all_iff comp_def active_sessions_for_client_def)

end
