(* ===== verification/OpenAi.thy ===== *)
theory OpenAi
  imports Supervisor Inference Parsing
begin

text \<open>
  The OpenAI-compatible backend, \<^verbatim>\<open>cordon-core/src/runtime/openai.rs\<close>: the request it sends,
  the reply it reads, and the decoding of a stream of server-sent events that arrives in
  arbitrary pieces.

  The HTTP client and the JSON parser are parameters.  What the code reads of a JSON value is
  modelled on the value itself.
\<close>

subsection \<open>JSON values\<close>

datatype json_number = PosInt nat | NegInt int | FloatNum rat

datatype json = JNull | JBool bool | JNumber json_number | JString string | JArray "json list" | JObject "(string \<times> json) list"

fun json_get :: "string \<Rightarrow> json \<Rightarrow> json option" where
  "json_get k (JObject kvs) = map_of kvs k"
| "json_get k _ = None"

fun json_first :: "json \<Rightarrow> json option" where
  "json_first (JArray (v # vs)) = Some v"
| "json_first _ = None"

fun as_str :: "json \<Rightarrow> string option" where
  "as_str (JString s) = Some s"
| "as_str _ = None"

fun as_u64 :: "json \<Rightarrow> nat option" where
  "as_u64 (JNumber (PosInt n)) = Some n"
| "as_u64 _ = None"

text \<open>\<^verbatim>\<open>pointer("/a/b")\<close> for names that are no array index.\<close>

definition pointer2 :: "string \<Rightarrow> string \<Rightarrow> json \<Rightarrow> json option" where
  "pointer2 a b v = Option.bind (json_get a v) (json_get b)"

subsection \<open>The backend\<close>

datatype Upstream = SupervisedUpstream LlamaSupervisor | ExternalUpstream string "string option"

record OpenAiBackend =
  ob_upstream :: Upstream
  ob_no_proxy :: bool
  ob_last_model :: "string option"
  ob_name :: string

text \<open>Building the pooled client; only its failure and the proxy choice are visible.\<close>

definition build_client :: "string option \<Rightarrow> unit CordonResult" where
  "build_client failure = (case failure of Some e \<Rightarrow> Inl (Internal (''cannot build runtime HTTP client: '' @ e)) | None \<Rightarrow> Inr ())"

definition supervised :: "string option \<Rightarrow> LlamaSupervisor \<Rightarrow> OpenAiBackend CordonResult" where
  "supervised failure sv = (case build_client failure of Inl e \<Rightarrow> Inl e
     | Inr _ \<Rightarrow> Inr \<lparr>ob_upstream = SupervisedUpstream sv, ob_no_proxy = True, ob_last_model = None, ob_name = ''llama.cpp (supervised)''\<rparr>)"

definition trim_slashes :: "string \<Rightarrow> string" where
  "trim_slashes s = rev (dropWhile (\<lambda>c. c = CHR ''/'') (rev s))"

definition external :: "string option \<Rightarrow> url_parser \<Rightarrow> string \<Rightarrow> string option \<Rightarrow> OpenAiBackend CordonResult" where
  "external failure url_parse url api_key = (let root = trim_slashes url in
     case build_client failure of Inl e \<Rightarrow> Inl e
     | Inr _ \<Rightarrow> Inr \<lparr>ob_upstream = ExternalUpstream root api_key, ob_no_proxy = is_loopback_url url_parse root,
         ob_last_model = None, ob_name = ''openai-compatible (external)''\<rparr>)"

definition upstream_root :: "Upstream \<Rightarrow> string" where
  "upstream_root u = (case u of SupervisedUpstream sv \<Rightarrow> base_url sv | ExternalUpstream b _ \<Rightarrow> b)"

definition completions_url :: "OpenAiBackend \<Rightarrow> string" where
  "completions_url b = upstream_root (ob_upstream b) @ ''/v1/chat/completions''"

definition health_url :: "OpenAiBackend \<Rightarrow> string" where
  "health_url b = upstream_root (ob_upstream b) @ ''/health''"

definition auth_token :: "OpenAiBackend \<Rightarrow> string option" where
  "auth_token b = (case ob_upstream b of SupervisedUpstream sv \<Rightarrow> Some (sv_api_key sv) | ExternalUpstream _ k \<Rightarrow> k)"

definition message_json :: "Message \<Rightarrow> json" where
  "message_json m = JObject [(''role'', JString (role m)), (''content'', JString (content m))]"

text \<open>\<^verbatim>\<open>f32::EPSILON\<close> is two to the power of minus 23; a difference near one is exact.\<close>

definition request_body :: "InferenceRequest \<Rightarrow> bool \<Rightarrow> json" where
  "request_body rq stream = (let p = params rq in JObject (
     [(''model'', JString (model_id rq)), (''messages'', JArray (map message_json (messages rq))),
      (''max_tokens'', JNumber (PosInt (ip_max_tokens p))), (''temperature'', JNumber (FloatNum (temperature p))),
      (''top_p'', JNumber (FloatNum (top_p p))), (''stream'', JBool stream)]
     @ (if 0 < top_k p then [(''top_k'', JNumber (PosInt (top_k p)))] else [])
     @ (if \<bar>repetition_penalty p - 1\<bar> > 1 / 8388608 then [(''repeat_penalty'', JNumber (FloatNum (repetition_penalty p)))] else [])
     @ (if stop p \<noteq> [] then [(''stop'', JArray (map JString (stop p)))] else [])
     @ (if stream then [(''stream_options'', JObject [(''include_usage'', JBool True)])] else [])))"

text \<open>A reply: status code and rendering, and its body read as text, as JSON or piece by piece.\<close>

record http_reply =
  hr_code :: nat
  hr_status :: string
  hr_text :: "string option"
  hr_json :: "string + json"
  hr_reads :: "(string + string) list"

type_synonym http_client = "string \<Rightarrow> string option \<Rightarrow> nat \<Rightarrow> json \<Rightarrow> string + http_reply"

definition is_success :: "nat \<Rightarrow> bool" where
  "is_success code \<longleftrightarrow> 200 \<le> code \<and> code < 300"

text \<open>A byte that does not continue a character starts one.\<close>

definition text_boundary :: "string \<Rightarrow> nat \<Rightarrow> bool" where
  "text_boundary s i \<longleftrightarrow> i = 0 \<or> i = length s \<or> (i < length s \<and> \<not> continuation (of_char (s ! i)))"

fun floor_boundary :: "string \<Rightarrow> nat \<Rightarrow> nat" where
  "floor_boundary s 0 = 0"
| "floor_boundary s (Suc n) = (if text_boundary s (Suc n) then Suc n else floor_boundary s n)"

definition ellipsis :: string where
  "ellipsis = [CHR 0xE2, CHR 0x80, CHR 0xA6]"

definition truncate_text :: "string \<Rightarrow> nat \<Rightarrow> string" where
  "truncate_text s n = (if length s \<le> n then s else take (floor_boundary s n) s @ ellipsis)"

definition send :: "http_client \<Rightarrow> OpenAiBackend \<Rightarrow> InferenceRequest \<Rightarrow> bool \<Rightarrow> http_reply CordonResult \<times> OpenAiBackend" where
  "send http b rq stream =
     (case http (completions_url b) (auth_token b) (timeout_secs rq) (request_body rq stream) of
        Inl e \<Rightarrow> (Inl (InferenceFailed (''cannot reach the model runtime at '' @ completions_url b @ '': '' @ e)), b)
      | Inr r \<Rightarrow>
        if \<not> is_success (hr_code r)
        then (Inl (InferenceFailed (''model runtime returned HTTP '' @ hr_status r @ '': ''
               @ truncate_text (case hr_text r of Some t \<Rightarrow> t | None \<Rightarrow> ''<no response body>'') 512)), b)
        else (Inr r, case ob_upstream b of ExternalUpstream _ _ \<Rightarrow> b\<lparr>ob_last_model := Some (model_id rq)\<rparr> | SupervisedUpstream _ \<Rightarrow> b))"

definition usage_default :: TokenUsage where
  "usage_default = \<lparr>prompt_tokens = 0, completion_tokens = 0\<rparr>"

text \<open>\<^verbatim>\<open>as u32\<close> keeps the low 32 bits.\<close>

definition usage_field :: "string \<Rightarrow> json \<Rightarrow> nat" where
  "usage_field k u = wrap_u32 (case Option.bind (json_get k u) as_u64 of Some n \<Rightarrow> n | None \<Rightarrow> 0)"

definition parse_usage :: "json option \<Rightarrow> TokenUsage" where
  "parse_usage u = (case u of None \<Rightarrow> usage_default
     | Some v \<Rightarrow> \<lparr>prompt_tokens = usage_field ''prompt_tokens'' v, completion_tokens = usage_field ''completion_tokens'' v\<rparr>)"

definition first_choice :: "json \<Rightarrow> json option" where
  "first_choice v = Option.bind (json_get ''choices'' v) json_first"

definition infer :: "http_client \<Rightarrow> nat \<Rightarrow> OpenAiBackend \<Rightarrow> InferenceRequest \<Rightarrow> RawInferenceOutput CordonResult \<times> OpenAiBackend" where
  "infer http elapsed_ms b rq = (case send http b rq False of
     (Inl e, b1) \<Rightarrow> (Inl e, b1)
   | (Inr r, b1) \<Rightarrow> ((case hr_json r of
       Inl e \<Rightarrow> Inl (InferenceFailed (''model runtime returned malformed JSON: '' @ e))
     | Inr body \<Rightarrow> (case first_choice body of
         None \<Rightarrow> Inl (InferenceFailed ''model runtime response contained no choices'')
       | Some ch \<Rightarrow> Inr \<lparr>
           out_text = (case Option.bind (pointer2 ''message'' ''content'' ch) as_str of Some t \<Rightarrow> t | None \<Rightarrow> []),
           usage = parse_usage (json_get ''usage'' body),
           finish_reason = (case Option.bind (json_get ''finish_reason'' ch) as_str of Some s \<Rightarrow> finish_from_wire s | None \<Rightarrow> Stop),
           latency_ms = elapsed_ms\<rparr>)), b1))"

definition loaded_model :: "(string \<Rightarrow> string option) \<Rightarrow> OpenAiBackend \<Rightarrow> string option" where
  "loaded_model file_stem b = (case ob_upstream b of
     SupervisedUpstream sv \<Rightarrow> Some (model_id_from_path (file_stem (lc_model_path (sv_config sv))) (lc_model_path (sv_config sv)))
   | ExternalUpstream _ _ \<Rightarrow> ob_last_model b)"

text \<open>The health endpoint's answer: a status code, or none when it cannot be reached.\<close>

definition is_ready :: "runtime_os \<Rightarrow> nat option \<Rightarrow> OpenAiBackend \<Rightarrow> bool" where
  "is_ready os reply b \<longleftrightarrow> (case ob_upstream b of SupervisedUpstream sv \<Rightarrow> is_running os sv 0 | ExternalUpstream _ _ \<Rightarrow> True)
     \<and> (case reply of Some code \<Rightarrow> is_success code | None \<Rightarrow> False)"

definition shutdown :: "OpenAiBackend \<Rightarrow> OpenAiBackend" where
  "shutdown b = (case ob_upstream b of SupervisedUpstream sv \<Rightarrow> b\<lparr>ob_upstream := SupervisedUpstream (terminate sv)\<rparr> | ExternalUpstream _ _ \<Rightarrow> b)"

subsection \<open>Decoding a stream\<close>

text \<open>
  The first character of a byte string, as \<^verbatim>\<open>str::from_utf8\<close> sees it: whole and so many bytes
  long, malformed with so many bytes to skip, or cut off.
\<close>

datatype char_head = Whole nat | Malformed nat | CutOff

fun trail_bytes :: "nat \<Rightarrow> nat \<Rightarrow> nat list \<Rightarrow> char_head" where
  "trail_bytes seen 0 bs = Whole seen"
| "trail_bytes seen (Suc k) [] = CutOff"
| "trail_bytes seen (Suc k) (b # bs) = (if continuation b then trail_bytes (Suc seen) k bs else Malformed seen)"

fun utf8_head :: "nat list \<Rightarrow> char_head" where
  "utf8_head [] = CutOff"
| "utf8_head (b # bs) =
     (if b < 128 then Whole 1
      else if 194 \<le> b \<and> b < 224 then trail_bytes 1 1 bs
      else if 224 \<le> b \<and> b < 245
      then (case bs of [] \<Rightarrow> CutOff
        | b1 # r \<Rightarrow> if second_byte b b1 then trail_bytes 2 (if b < 240 then 1 else 2) r else Malformed 1)
      else Malformed 1)"

text \<open>\<^verbatim>\<open>valid_up_to\<close> and, unless everything is valid, \<^verbatim>\<open>error_len\<close>.\<close>

lemma trail_bytes_pos:
  "trail_bytes seen k bs = Whole n \<Longrightarrow> 0 < seen \<Longrightarrow> 0 < n" "trail_bytes seen k bs = Malformed n \<Longrightarrow> 0 < seen \<Longrightarrow> 0 < n"
  by (induction seen k bs rule: trail_bytes.induct) (auto split: if_splits)

lemma utf8_head_pos: "utf8_head bs = Whole n \<Longrightarrow> 0 < n" "utf8_head bs = Malformed n \<Longrightarrow> 0 < n"
  by (cases bs; auto dest: trail_bytes_pos split: if_splits list.splits)+

function utf8_scan :: "nat list \<Rightarrow> nat \<times> nat option option" where
  "utf8_scan bs = (if bs = [] then (0, None) else case utf8_head bs of
     Whole n \<Rightarrow> (case utf8_scan (drop n bs) of (k, e) \<Rightarrow> (n + k, e))
   | Malformed n \<Rightarrow> (0, Some (Some n))
   | CutOff \<Rightarrow> (0, Some None))"
  by pat_completeness auto

termination by (relation "measure length") (auto dest: utf8_head_pos)

declare utf8_scan.simps [simp del]

definition REPLACEMENT :: string where
  "REPLACEMENT = [CHR 0xEF, CHR 0xBF, CHR 0xBD]"

lemma utf8_scan_error: "utf8_scan bs = (k, Some (Some n)) \<Longrightarrow> 0 < n \<and> bs \<noteq> []"
proof (induction bs arbitrary: k rule: utf8_scan.induct)
  case (1 bs)
  from "1.prems" show ?case
    by (subst (asm) utf8_scan.simps) (auto dest: utf8_head_pos "1.IH" split: if_splits char_head.splits prod.splits)
qed

text \<open>What stays pending, and the text.\<close>

function decode_utf8_prefix :: "string \<Rightarrow> string \<Rightarrow> string \<times> string" where
  "decode_utf8_prefix pending txt = (case utf8_scan (codes pending) of
     (_, None) \<Rightarrow> ([], txt @ pending)
   | (k, Some None) \<Rightarrow> (drop k pending, txt @ take k pending)
   | (k, Some (Some bad)) \<Rightarrow> decode_utf8_prefix (drop (k + bad) pending) (txt @ take k pending @ REPLACEMENT))"
  by pat_completeness auto

termination
proof (relation "measure (\<lambda>(p, t). length p)", goal_cases)
  case (2 pending t x k e bad)
  then show ?case using utf8_scan_error[of "codes pending" x bad] by (auto simp: codes_def)
qed simp

declare decode_utf8_prefix.simps [simp del]

definition from_utf8_lossy :: "string \<Rightarrow> string" where
  "from_utf8_lossy bs = (case decode_utf8_prefix bs [] of (left, t) \<Rightarrow> if left = [] then t else t @ REPLACEMENT)"

text \<open>\<^verbatim>\<open>str::find\<close>.\<close>

fun find_str :: "string \<Rightarrow> string \<Rightarrow> nat option" where
  "find_str p [] = (if p = [] then Some 0 else None)"
| "find_str p (c # cs) = (if take (length p) (c # cs) = p then Some 0 else map_option Suc (find_str p cs))"

definition LFLF :: string where "LFLF = [newline, newline]"
definition CRLFCRLF :: string where "CRLFCRLF = [carriage_return, newline, carriage_return, newline]"

definition take_event :: "string \<Rightarrow> (string \<times> string) option" where
  "take_event buffer = (case or_else (find_str LFLF buffer) (find_str CRLFCRLF buffer) of
     None \<Rightarrow> None
   | Some i \<Rightarrow> Some (take i buffer, drop (i + (if take 4 (drop i buffer) = CRLFCRLF then 4 else 2)) buffer))"

record SseState =
  sse_finish :: StopReason
  sse_usage :: TokenUsage
  sse_terminated :: bool

definition sse_default :: SseState where
  "sse_default = \<lparr>sse_finish = Stop, sse_usage = usage_default, sse_terminated = False\<rparr>"

datatype SseOutcome = SseChunk StreamChunk | SseFinished | SseContinue

definition sse_payload :: "string \<Rightarrow> string" where
  "sse_payload event = concat (map (\<lambda>l. if take 5 l = ''data:'' then trim (drop 5 l) else []) (lines event))"

definition parse_sse_event :: "(string \<Rightarrow> json option) \<Rightarrow> string \<Rightarrow> SseState \<Rightarrow> SseOutcome \<times> SseState" where
  "parse_sse_event from_str event st = (let payload = sse_payload event in
     if payload = [] then (SseContinue, st)
     else if payload = ''[DONE]'' then (SseFinished, st\<lparr>sse_terminated := True\<rparr>)
     else (case from_str payload of None \<Rightarrow> (SseContinue, st)
       | Some v \<Rightarrow>
         let st1 = (case json_get ''usage'' v of Some u \<Rightarrow> if u \<noteq> JNull then st\<lparr>sse_usage := parse_usage (Some u)\<rparr> else st | None \<Rightarrow> st) in
         (case first_choice v of None \<Rightarrow> (SseContinue, st1)
          | Some ch \<Rightarrow>
            let st2 = (case Option.bind (json_get ''finish_reason'' ch) as_str of Some r \<Rightarrow> st1\<lparr>sse_finish := finish_from_wire r\<rparr> | None \<Rightarrow> st1);
                delta = (case Option.bind (pointer2 ''delta'' ''content'' ch) as_str of Some d \<Rightarrow> d | None \<Rightarrow> []) in
            (if delta = [] then SseContinue else SseChunk (Delta delta), st2))))"

text \<open>The stream's state: reads to come, decoded text, undecoded bytes.\<close>

record sse_stream =
  es_reads :: "(string + string) list"
  es_buffer :: string
  es_pending :: string
  es_state :: SseState

definition done_chunk :: "SseState \<Rightarrow> StreamChunk" where
  "done_chunk st = Done (sse_finish st) (sse_usage st)"

definition stream_error :: "string \<Rightarrow> CordonError" where
  "stream_error e = InferenceFailed (''model runtime stream failed: '' @ e)"

lemma find_str_bound: "find_str p s = Some i \<Longrightarrow> i + length p \<le> length s"
proof (induction s arbitrary: i)
  case (Cons c cs)
  show ?case
  proof (cases "take (length p) (c # cs) = p")
    case True
    then have "length p \<le> length (c # cs)" by (metis length_take min.cobounded1)
    then show ?thesis using Cons.prems True by simp
  qed (use Cons in auto)
qed (auto split: if_splits)

lemma take_event_shorter: "take_event b = Some (ev, rest) \<Longrightarrow> length rest < length b"
  by (auto simp: take_event_def or_else_def LFLF_def CRLFCRLF_def dest!: find_str_bound split: option.splits if_splits)

text \<open>One pull of the stream: nothing more, or an item and the state after it.\<close>

function poll :: "(string \<Rightarrow> json option) \<Rightarrow> sse_stream \<Rightarrow> ((CordonError + StreamChunk) \<times> sse_stream) option" where
  "poll J s = (case take_event (es_buffer s) of
     Some (ev, rest) \<Rightarrow> (case parse_sse_event J ev (es_state s) of
         (SseChunk c, st) \<Rightarrow> Some (Inr c, s\<lparr>es_buffer := rest, es_state := st\<rparr>)
       | (SseFinished, st) \<Rightarrow> Some (Inr (done_chunk st), s\<lparr>es_buffer := rest, es_state := st\<rparr>)
       | (SseContinue, st) \<Rightarrow> poll J (s\<lparr>es_buffer := rest, es_state := st\<rparr>))
   | None \<Rightarrow> (case es_reads s of
         Inr part # rs \<Rightarrow> (case decode_utf8_prefix (es_pending s @ part) (es_buffer s) of
           (p, b) \<Rightarrow> poll J (s\<lparr>es_reads := rs, es_buffer := b, es_pending := p\<rparr>))
       | Inl e # rs \<Rightarrow> Some (Inl (stream_error e), s\<lparr>es_reads := rs\<rparr>)
       | [] \<Rightarrow> if sse_terminated (es_state s) then None
         else if es_pending s \<noteq> []
         then let b = es_buffer s @ from_utf8_lossy (es_pending s) in
           (case take_event b of
              Some (ev, rest) \<Rightarrow> (case parse_sse_event J ev (es_state s) of
                (SseChunk c, st) \<Rightarrow> Some (Inr c, s\<lparr>es_buffer := rest, es_pending := [], es_state := st\<rparr>)
              | (_, st) \<Rightarrow> Some (Inr (done_chunk st), s\<lparr>es_buffer := rest, es_pending := [], es_state := st\<lparr>sse_terminated := True\<rparr>\<rparr>))
            | None \<Rightarrow> Some (Inr (done_chunk (es_state s)),
                s\<lparr>es_buffer := b, es_pending := [], es_state := (es_state s)\<lparr>sse_terminated := True\<rparr>\<rparr>))
         else Some (Inr (done_chunk (es_state s)), s\<lparr>es_state := (es_state s)\<lparr>sse_terminated := True\<rparr>\<rparr>)))"
  by pat_completeness auto

termination
  by (relation "measures [\<lambda>(J, s). length (es_reads s), \<lambda>(J, s). length (es_buffer s)]") (auto dest: take_event_shorter)

declare poll.simps [simp del]

text \<open>What is left to do in a stream; every pull does some of it.\<close>

definition stream_order :: "(sse_stream \<times> sse_stream) set" where
  "stream_order = measures [\<lambda>s. length (es_reads s), \<lambda>s. of_bool (es_pending s \<noteq> []), \<lambda>s. length (es_buffer s),
     \<lambda>s. of_bool (\<not> sse_terminated (es_state s))]"

lemma stream_order_trans: "(a, b) \<in> stream_order \<Longrightarrow> (b, c) \<in> stream_order \<Longrightarrow> (a, c) \<in> stream_order"
  by (auto simp: stream_order_def)

lemma poll_decreases: "poll J s = Some (x, s1) \<Longrightarrow> (s1, s) \<in> stream_order"
proof (induction J s arbitrary: x s1 rule: poll.induct)
  case (1 J s)
  show ?case
  proof (cases "take_event (es_buffer s)")
    case (Some er)
    obtain ev rest where er: "er = (ev, rest)" by fastforce
    obtain oc st where pe: "parse_sse_event J ev (es_state s) = (oc, st)" by fastforce
    let ?s = "s\<lparr>es_buffer := rest, es_state := st\<rparr>"
    have less: "(?s, s) \<in> stream_order" using take_event_shorter Some er by (auto simp: stream_order_def)
    show ?thesis
    proof (cases oc)
      case SseContinue
      then have "poll J ?s = Some (x, s1)" using "1.prems" Some er pe by (simp add: poll.simps[of J s])
      then show ?thesis using "1.IH"(2)[OF Some er[symmetric] pe[symmetric] SseContinue] less stream_order_trans by blast
    qed (use "1.prems" Some er pe less in \<open>auto simp: poll.simps[of J s]\<close>)
  next
    case None
    show ?thesis
    proof (cases "es_reads s")
      case Nil
      then show ?thesis using "1.prems" None
        by (auto simp: poll.simps[of J s] Let_def stream_order_def split: if_splits option.splits prod.splits SseOutcome.splits)
    next
      case (Cons r rs)
      show ?thesis
      proof (cases r)
        case (Inr part)
        obtain p b where d: "decode_utf8_prefix (es_pending s @ part) (es_buffer s) = (p, b)" by fastforce
        let ?s = "s\<lparr>es_reads := rs, es_buffer := b, es_pending := p\<rparr>"
        have "poll J ?s = Some (x, s1)" using "1.prems" None Cons Inr d by (simp add: poll.simps[of J s])
        then have "(s1, ?s) \<in> stream_order" using "1.IH"(1)[OF None Cons Inr d[symmetric]] by blast
        moreover have "(?s, s) \<in> stream_order" using Cons by (simp add: stream_order_def)
        ultimately show ?thesis by (rule stream_order_trans)
      qed (use "1.prems" None Cons in \<open>auto simp: poll.simps[of J s] stream_order_def\<close>)
    qed
  qed
qed

function stream_items :: "(string \<Rightarrow> json option) \<Rightarrow> sse_stream \<Rightarrow> (CordonError + StreamChunk) list" where
  "stream_items J s = (case poll J s of None \<Rightarrow> [] | Some (x, s1) \<Rightarrow> x # stream_items J s1)"
  by pat_completeness auto

termination
  by (relation "inv_image stream_order snd") (auto simp: stream_order_def dest: poll_decreases[unfolded stream_order_def])

declare stream_items.simps [simp del]

definition open_stream :: "(string + string) list \<Rightarrow> sse_stream" where
  "open_stream reads = \<lparr>es_reads = reads, es_buffer = [], es_pending = [], es_state = sse_default\<rparr>"

definition infer_stream :: "http_client \<Rightarrow> OpenAiBackend \<Rightarrow> InferenceRequest \<Rightarrow> sse_stream CordonResult \<times> OpenAiBackend" where
  "infer_stream http b rq = (case send http b rq True of
     (Inl e, b1) \<Rightarrow> (Inl e, b1) | (Inr r, b1) \<Rightarrow> (Inr (open_stream (hr_reads r)), b1))"

subsection \<open>Decoding in pieces is decoding at once\<close>

function dec :: "string \<Rightarrow> string \<times> string" where
  "dec bs = (if bs = [] then ([], []) else case utf8_head (codes bs) of
     Whole n \<Rightarrow> (take n bs @ fst (dec (drop n bs)), snd (dec (drop n bs)))
   | Malformed n \<Rightarrow> (REPLACEMENT @ fst (dec (drop n bs)), snd (dec (drop n bs)))
   | CutOff \<Rightarrow> ([], bs))"
  by pat_completeness auto

termination by (relation "measure length") (auto dest: utf8_head_pos)

declare dec.simps [simp del]

lemma dec_Nil [simp]: "dec [] = ([], [])"
  by (simp add: dec.simps)

lemma scan_dec:
  "utf8_scan (codes p) = (k, e) \<Longrightarrow> dec p = (take k p @ fst (dec (drop k p)), snd (dec (drop k p))) \<and>
   (case e of None \<Rightarrow> drop k p = [] | Some None \<Rightarrow> drop k p \<noteq> [] \<and> utf8_head (codes (drop k p)) = CutOff
     | Some (Some n) \<Rightarrow> drop k p \<noteq> [] \<and> utf8_head (codes (drop k p)) = Malformed n)"
proof (induction p arbitrary: k rule: dec.induct)
  case (1 p)
  show ?case
  proof (cases "p = [] \<or> (\<forall>n. utf8_head (codes p) \<noteq> Whole n)")
    case True
    then show ?thesis using "1.prems" by (subst (asm) utf8_scan.simps) (auto simp: codes_def split: if_splits char_head.splits)
  next
    case False
    then obtain n where h: "p \<noteq> []" "utf8_head (codes p) = Whole n" by blast
    obtain k' where k: "utf8_scan (codes (drop n p)) = (k', e)" "k = n + k'"
      using "1.prems" h by (subst (asm) utf8_scan.simps) (auto simp: codes_def drop_map split: prod.splits)
    have t: "take k p = take n p @ take k' (drop n p)" using k(2) by (simp add: take_add)
    have d: "drop k' (drop n p) = drop k p" using k(2) by (simp add: add.commute)
    show ?thesis
      using "1.IH"(1)[OF h k(1)] h unfolding t d by (simp add: dec.simps[of p])
  qed
qed

lemma decode_is_dec: "decode_utf8_prefix p t = (snd (dec p), t @ fst (dec p))"
proof (induction p t rule: decode_utf8_prefix.induct)
  case (1 p t)
  obtain k e where s: "utf8_scan (codes p) = (k, e)" by fastforce
  note d = scan_dec[OF s]
  show ?case
  proof (cases e)
    case None
    then show ?thesis using s d by (simp add: decode_utf8_prefix.simps[of p])
  next
    case (Some o1)
    show ?thesis
    proof (cases o1)
      case None
      then show ?thesis using s d Some by (simp add: decode_utf8_prefix.simps[of p] dec.simps[of "drop k p"])
    next
      case (Some n)
      then show ?thesis
        using s d \<open>e = Some o1\<close> "1.IH"[OF s[symmetric] \<open>e = Some o1\<close> Some]
        by (simp add: decode_utf8_prefix.simps[of p] dec.simps[of "drop k p"] add.commute)
    qed
  qed
qed

lemma trail_bytes_extend:
  "trail_bytes seen k xs = Whole n \<Longrightarrow> trail_bytes seen k (xs @ ys) = Whole n \<and> n \<le> seen + length xs"
  "trail_bytes seen k xs = Malformed n \<Longrightarrow> trail_bytes seen k (xs @ ys) = Malformed n \<and> n \<le> seen + length xs"
  by (induction seen k xs rule: trail_bytes.induct) (auto split: if_splits)

lemma utf8_head_extend:
  "utf8_head xs = Whole n \<Longrightarrow> utf8_head (xs @ ys) = Whole n \<and> n \<le> length xs"
  "utf8_head xs = Malformed n \<Longrightarrow> utf8_head (xs @ ys) = Malformed n \<and> n \<le> length xs"
  by (cases xs; auto dest: trail_bytes_extend split: if_splits list.splits)+

lemma codes_append: "codes (xs @ ys) = codes xs @ codes ys"
  by (simp add: codes_def)

lemma length_codes: "length (codes xs) = length xs"
  by (simp add: codes_def)

lemma dec_append: "dec (xs @ ys) = (fst (dec xs) @ fst (dec (snd (dec xs) @ ys)), snd (dec (snd (dec xs) @ ys)))"
proof (induction xs rule: dec.induct)
  case (1 xs)
  show ?case
  proof (cases "xs = []")
    case ne: False
    show ?thesis
    proof (cases "utf8_head (codes xs)")
      case (Whole n)
      then have "utf8_head (codes (xs @ ys)) = Whole n" "n \<le> length xs"
        using utf8_head_extend(1)[of "codes xs" n "codes ys"] by (auto simp: codes_append length_codes)
      then show ?thesis using "1.IH"(1)[OF ne Whole] ne Whole by (simp add: dec.simps[of xs] dec.simps[of "xs @ ys"])
    next
      case (Malformed n)
      then have "utf8_head (codes (xs @ ys)) = Malformed n" "n \<le> length xs"
        using utf8_head_extend(2)[of "codes xs" n "codes ys"] by (auto simp: codes_append length_codes)
      then show ?thesis using "1.IH"(3)[OF ne Malformed] ne Malformed by (simp add: dec.simps[of xs] dec.simps[of "xs @ ys"])
    next
      case CutOff
      then show ?thesis using ne by (simp add: dec.simps[of xs])
    qed
  qed simp
qed

lemma dec_left: "dec (snd (dec xs)) = ([], snd (dec xs))"
proof (induction xs rule: dec.induct)
  case (1 xs)
  then show ?case by (cases "xs = []"; cases "utf8_head (codes xs)") (auto simp: dec.simps[of xs])
qed

lemma dec_chars: "set (fst (dec xs)) \<subseteq> set xs \<union> set REPLACEMENT \<and> set (snd (dec xs)) \<subseteq> set xs"
proof (induction xs rule: dec.induct)
  case (1 xs)
  show ?case
  proof (cases "xs = []")
    case ne: False
    show ?thesis
    proof (cases "utf8_head (codes xs)")
      case (Whole n)
      then show ?thesis using "1.IH"(1)[OF ne Whole] ne set_drop_subset[of n xs] set_take_subset[of n xs] by (auto simp: dec.simps[of xs])
    next
      case (Malformed n)
      then show ?thesis using "1.IH"(3)[OF ne Malformed] ne set_drop_subset[of n xs] by (auto simp: dec.simps[of xs])
    qed (simp add: dec.simps[of xs])
  qed simp
qed

subsection \<open>Records in pieces are records at once\<close>

lemma find_str_match: "find_str p s = Some i \<Longrightarrow> take (length p) (drop i s) = p"
proof (induction s arbitrary: i)
  case (Cons c cs)
  then show ?case by (cases "take (length p) (c # cs) = p") auto
qed (auto split: if_splits)

lemma find_str_append: "find_str p s = Some i \<Longrightarrow> find_str p (s @ t) = Some i"
proof (induction s arbitrary: i)
  case Nil
  then show ?case by (cases t) (auto split: if_splits)
next
  case (Cons c cs)
  show ?case
  proof (cases "take (length p) (c # cs) = p")
    case True
    then have "length p \<le> length (c # cs)" by (metis length_take min.cobounded1)
    then show ?thesis using True Cons.prems by (simp add: take_Cons' split: if_splits)
  next
    case False
    then obtain j where j: "find_str p cs = Some j" "i = Suc j" using Cons.prems by auto
    then have "length p \<le> length cs" using find_str_bound by fastforce
    then have "take (length p) (c # cs @ t) \<noteq> p" using False by (simp add: take_Cons' split: if_splits)
    then show ?thesis using Cons.IH[OF j(1)] j(2) by simp
  qed
qed

lemma find_str_chars: "find_str p s = Some i \<Longrightarrow> set p \<subseteq> set s"
  using find_str_match[of p s i] by (metis in_set_dropD in_set_takeD subsetI)

lemma no_crlf: "carriage_return \<notin> set s \<Longrightarrow> find_str CRLFCRLF s = None"
  using find_str_chars[of CRLFCRLF s] by (cases "find_str CRLFCRLF s") (auto simp: CRLFCRLF_def)

lemma newline_not_cr: "newline \<noteq> carriage_return"
  by (simp add: newline_def carriage_return_def)

lemma take_event_lf:
  assumes "carriage_return \<notin> set b"
  shows "take_event b = map_option (\<lambda>i. (take i b, drop (i + 2) b)) (find_str LFLF b)"
proof (cases "find_str LFLF b")
  case (Some i)
  have "take 4 (drop i b) \<noteq> CRLFCRLF"
  proof
    assume "take 4 (drop i b) = CRLFCRLF"
    then have "carriage_return \<in> set (take 4 (drop i b))" by (simp add: CRLFCRLF_def)
    then show False using assms in_set_dropD in_set_takeD by metis
  qed
  then show ?thesis using Some by (simp add: take_event_def or_else_def)
qed (use no_crlf[OF assms] in \<open>simp add: take_event_def or_else_def\<close>)

lemma take_event_append:
  assumes "carriage_return \<notin> set (b @ c)" "take_event b = Some (ev, rest)"
  shows "take_event (b @ c) = Some (ev, rest @ c)"
proof -
  have nb: "carriage_return \<notin> set b" using assms(1) by simp
  then obtain i where i: "find_str LFLF b = Some i" "ev = take i b" "rest = drop (i + 2) b"
    using assms(2) by (auto simp: take_event_lf)
  then have "i + 2 \<le> length b" using find_str_bound[OF i(1)] by (simp add: LFLF_def)
  then show ?thesis using i find_str_append[OF i(1), of c] take_event_lf[OF assms(1)] by simp
qed

lemma find_str_no_end: "find_str LFLF s = None \<Longrightarrow> newline \<notin> set t \<Longrightarrow> find_str LFLF (s @ t) = None"
proof (induction s)
  case Nil
  then show ?case using find_str_chars[of LFLF t] by (cases "find_str LFLF t") (auto simp: LFLF_def)
next
  case (Cons c cs)
  then have "take 2 (c # cs) \<noteq> LFLF" "find_str LFLF cs = None" by (auto simp: LFLF_def split: if_splits)
  moreover from this(1) have "take 2 ((c # cs) @ t) \<noteq> LFLF"
    using Cons.prems(2) by (cases cs; cases t) (auto simp: LFLF_def)
  ultimately show ?case using Cons by (simp add: LFLF_def)
qed

text \<open>What the bytes of a stream mean, without reads: the records of the decoded text in order.\<close>

function record_items :: "(string \<Rightarrow> json option) \<Rightarrow> string \<Rightarrow> SseState \<Rightarrow> (CordonError + StreamChunk) list" where
  "record_items J t st = (case take_event t of
     Some (ev, rest) \<Rightarrow> (case parse_sse_event J ev st of
         (SseChunk c, st1) \<Rightarrow> Inr c # record_items J rest st1
       | (SseFinished, st1) \<Rightarrow> Inr (done_chunk st1) # record_items J rest st1
       | (SseContinue, st1) \<Rightarrow> record_items J rest st1)
   | None \<Rightarrow> if sse_terminated st then [] else [Inr (done_chunk st)])"
  by pat_completeness auto

termination by (relation "measure (\<lambda>(J, t, st). length t)") (auto dest: take_event_shorter)

declare record_items.simps [simp del]

lemma stream_items_poll: "poll J s = poll J s' \<Longrightarrow> stream_items J s = stream_items J s'"
  by (simp add: stream_items.simps)

lemma stream_items_record:
  assumes "take_event (es_buffer s) = Some (ev, rest)" "parse_sse_event J ev (es_state s) = (oc, st)"
  shows "stream_items J s = (case oc of SseChunk c \<Rightarrow> [Inr c] | SseFinished \<Rightarrow> [Inr (done_chunk st)] | SseContinue \<Rightarrow> [])
    @ stream_items J (s\<lparr>es_buffer := rest, es_state := st\<rparr>)"
proof (cases oc)
  case SseContinue
  then have "poll J s = poll J (s\<lparr>es_buffer := rest, es_state := st\<rparr>)" using assms by (simp add: poll.simps[of J s])
  from stream_items_poll[OF this] show ?thesis using SseContinue by simp
qed (use assms in \<open>simp_all add: stream_items.simps[of J s] poll.simps[of J s]\<close>)

lemma stream_items_read:
  assumes "take_event (es_buffer s) = None" "es_reads s = Inr part # rs"
  shows "stream_items J s = stream_items J (s\<lparr>es_reads := rs, es_buffer := es_buffer s @ fst (dec (es_pending s @ part)),
    es_pending := snd (dec (es_pending s @ part))\<rparr>)"
  by (rule stream_items_poll) (use assms in \<open>simp add: poll.simps[of J s] decode_is_dec\<close>)

lemma replacement_chars: "newline \<notin> set REPLACEMENT" "carriage_return \<notin> set REPLACEMENT"
  by (simp_all add: REPLACEMENT_def newline_def carriage_return_def)

lemma stream_items_stopped:
  "take_event (es_buffer s) = None \<Longrightarrow> es_reads s = [] \<Longrightarrow> sse_terminated (es_state s) \<Longrightarrow> stream_items J s = []"
  by (simp add: stream_items.simps[of J s] poll.simps[of J s])

lemma stream_items_end:
  assumes "take_event (es_buffer s) = None" "es_reads s = []" "dec (es_pending s) = ([], es_pending s)"
    and "carriage_return \<notin> set (es_buffer s)"
  shows "stream_items J s = (if sse_terminated (es_state s) then [] else [Inr (done_chunk (es_state s))])"
proof (cases "es_pending s = []")
  case True
  then show ?thesis
    using assms(1,2) by (simp add: stream_items.simps[of J s] poll.simps[of J s] stream_items_stopped)
next
  case False
  have l: "from_utf8_lossy (es_pending s) = REPLACEMENT" using False assms(3) by (simp add: from_utf8_lossy_def decode_is_dec)
  have "find_str LFLF (es_buffer s) = None" using assms(1,4) by (simp add: take_event_lf)
  then have e: "take_event (es_buffer s @ REPLACEMENT) = None"
    using find_str_no_end replacement_chars assms(4) by (simp add: take_event_lf)
  show ?thesis
    using assms(1,2) False l e by (simp add: stream_items.simps[of J s] poll.simps[of J s] stream_items_stopped)
qed

definition settled :: "string list \<Rightarrow> sse_stream \<Rightarrow> bool" where
  "settled parts s \<longleftrightarrow> es_reads s = map Inr parts \<and> carriage_return \<notin> set (es_buffer s @ es_pending s @ concat parts)
     \<and> dec (es_pending s) = ([], es_pending s)"

definition meant :: "(string \<Rightarrow> json option) \<Rightarrow> string list \<Rightarrow> sse_stream \<Rightarrow> (CordonError + StreamChunk) list" where
  "meant J parts s = record_items J (es_buffer s @ fst (dec (es_pending s @ concat parts))) (es_state s)"

lemma drain_records:
  assumes "\<And>s. settled parts s \<Longrightarrow> take_event (es_buffer s) = None \<Longrightarrow> stream_items J s = meant J parts s"
  shows "settled parts s \<Longrightarrow> stream_items J s = meant J parts s"
proof (induction "length (es_buffer s)" arbitrary: s rule: less_induct)
  case less
  show ?case
  proof (cases "take_event (es_buffer s)")
    case (Some er)
    obtain ev rest where er: "take_event (es_buffer s) = Some (ev, rest)" using Some by (cases er) auto
    obtain oc st where pe: "parse_sse_event J ev (es_state s) = (oc, st)" by fastforce
    let ?t = "fst (dec (es_pending s @ concat parts))"
    have "carriage_return \<notin> set ?t" using dec_chars[of "es_pending s @ concat parts"] less.prems replacement_chars by (auto simp: settled_def)
    then have ap: "take_event (es_buffer s @ ?t) = Some (ev, rest @ ?t)"
      using take_event_append[OF _ er] less.prems by (simp add: settled_def)
    have "set rest \<subseteq> set (es_buffer s)"
      using er set_drop_subset by (fastforce simp: take_event_def split: option.splits)
    then have "settled parts (s\<lparr>es_buffer := rest, es_state := st\<rparr>)" using less.prems by (auto simp: settled_def)
    from less.hyps[OF _ this] take_event_shorter[OF er]
    have "stream_items J (s\<lparr>es_buffer := rest, es_state := st\<rparr>) = record_items J (rest @ ?t) st" by (simp add: meant_def)
    then show ?thesis
      unfolding meant_def record_items.simps[of J "es_buffer s @ ?t"] stream_items_record[OF er pe]
      using ap pe by (cases oc) simp_all
  qed (use assms less.prems in blast)
qed

lemma stream_is_records: "settled parts s \<Longrightarrow> stream_items J s = meant J parts s"
proof (induction parts arbitrary: s)
  case Nil
  show ?case
  proof (rule drain_records[OF _ Nil])
    fix s
    assume a: "settled [] s" "take_event (es_buffer s) = None"
    then show "stream_items J s = meant J [] s"
      using stream_items_end[of s J] by (simp add: settled_def meant_def record_items.simps[of J "es_buffer s"])
  qed
next
  case (Cons part parts)
  show ?case
  proof (rule drain_records[OF _ Cons.prems])
    fix s
    assume a: "settled (part # parts) s" "take_event (es_buffer s) = None"
    let ?p = "es_pending s @ part"
    let ?s = "s\<lparr>es_reads := map Inr parts, es_buffer := es_buffer s @ fst (dec ?p), es_pending := snd (dec ?p)\<rparr>"
    have "settled parts ?s"
      using a(1) dec_chars[of ?p] replacement_chars dec_left[of ?p] by (auto simp: settled_def)
    moreover have "meant J parts ?s = meant J (part # parts) s"
      using dec_append[of ?p "concat parts"] by (simp add: meant_def)
    moreover have "stream_items J s = stream_items J ?s"
      using stream_items_read[OF a(2), of part "map Inr parts" J] a(1) by (simp add: settled_def)
    ultimately show "stream_items J s = meant J (part # parts) s" using Cons.IH[of ?s] by simp
  qed
qed

lemma open_stream_records:
  assumes "carriage_return \<notin> set (concat parts)"
  shows "stream_items J (open_stream (map Inr parts)) = record_items J (fst (dec (concat parts))) sse_default"
  using stream_is_records[of parts "open_stream (map Inr parts)" J] assms by (simp add: settled_def meant_def open_stream_def)


text \<open>The last record of a reply is dropped when no blank line follows it, whatever it holds.\<close>

lemma unfinished_record_is_dropped:
  assumes "carriage_return \<notin> set bytes" "find_str LFLF (fst (dec bytes)) = None"
  shows "stream_items J (open_stream [Inr bytes]) = [Inr (done_chunk sse_default)]"
proof -
  have "carriage_return \<notin> set (fst (dec bytes))" using dec_chars[of bytes] replacement_chars assms(1) by auto
  then have "take_event (fst (dec bytes)) = None" using assms(2) by (simp add: take_event_lf)
  then show ?thesis
    using open_stream_records[of "[bytes]" J] assms(1) by (simp add: record_items.simps sse_default_def)
qed

text \<open>A parser that knows one record.\<close>

definition sample_json :: "string \<Rightarrow> json option" where
  "sample_json p = (if p = ''1'' then Some (JObject [(''choices'', JArray [JObject [(''delta'', JObject [(''content'', JString ''hi'')])]])]) else None)"


text \<open>
  With carriage returns the reads do matter: a record that ends in carriage return and line
  feed, read together with a later one that ends in line feeds, is joined to it and lost.
\<close>

lemma dec_ascii: "list_all (\<lambda>c. of_char c < (128 :: nat)) t \<Longrightarrow> dec t = (t, [])"
  by (induction t) (simp_all add: dec.simps[of "_ # _"] codes_def)

lemma one_record_read:
  assumes "list_all (\<lambda>c. of_char c < (128 :: nat)) t" "take_event t = Some (ev, [])" "parse_sse_event J ev st = (oc, st1)"
  shows "stream_items J \<lparr>es_reads = Inr t # rs, es_buffer = [], es_pending = [], es_state = st\<rparr>
    = (case oc of SseChunk c \<Rightarrow> [Inr c] | SseFinished \<Rightarrow> [Inr (done_chunk st1)] | SseContinue \<Rightarrow> [])
      @ stream_items J \<lparr>es_reads = rs, es_buffer = [], es_pending = [], es_state = st1\<rparr>"
proof -
  have "take_event [] = None" by code_simp
  then show ?thesis
    using stream_items_read[of "\<lparr>es_reads = Inr t # rs, es_buffer = [], es_pending = [], es_state = st\<rparr>" t rs J] assms
      stream_items_record[of "\<lparr>es_reads = rs, es_buffer = t, es_pending = [], es_state = st\<rparr>" ev "[]" J oc st1]
    by (simp add: dec_ascii)
qed

lemma nothing_read: "stream_items J \<lparr>es_reads = [], es_buffer = [], es_pending = [], es_state = sse_default\<rparr> = [Inr (Done Stop usage_default)]"
proof -
  have "take_event [] = None" by code_simp
  then show ?thesis
    using stream_items_end[of "\<lparr>es_reads = [], es_buffer = [], es_pending = [], es_state = sse_default\<rparr>" J]
    by (simp add: sse_default_def done_chunk_def)
qed

lemma mixed_line_ends_depend_on_reads:
  "stream_items sample_json (open_stream [Inr (''data: 1'' @ CRLFCRLF), Inr (''data: 1'' @ LFLF)])
     = [Inr (Delta ''hi''), Inr (Delta ''hi''), Inr (Done Stop usage_default)]"
  "stream_items sample_json (open_stream [Inr (''data: 1'' @ CRLFCRLF @ ''data: 1'' @ LFLF)]) = [Inr (Done Stop usage_default)]"
proof -
  have t: "take_event (''data: 1'' @ CRLFCRLF) = Some (''data: 1'', [])" "take_event (''data: 1'' @ LFLF) = Some (''data: 1'', [])"
    "take_event (''data: 1'' @ CRLFCRLF @ ''data: 1'' @ LFLF) = Some (''data: 1'' @ CRLFCRLF @ ''data: 1'', [])" by code_simp+
  have a: "list_all (\<lambda>c. of_char c < (128 :: nat)) (''data: 1'' @ CRLFCRLF)" "list_all (\<lambda>c. of_char c < (128 :: nat)) (''data: 1'' @ LFLF)"
    "list_all (\<lambda>c. of_char c < (128 :: nat)) (''data: 1'' @ CRLFCRLF @ ''data: 1'' @ LFLF)"
    by (simp_all add: CRLFCRLF_def LFLF_def newline_def carriage_return_def)
  have y: "sse_payload ''data: 1'' = ''1''" "sse_payload (''data: 1'' @ CRLFCRLF @ ''data: 1'') = ''11''" by code_simp+
  then have p: "parse_sse_event sample_json ''data: 1'' sse_default = (SseChunk (Delta ''hi''), sse_default)"
    "parse_sse_event sample_json (''data: 1'' @ CRLFCRLF @ ''data: 1'') sse_default = (SseContinue, sse_default)"
    unfolding parse_sse_event_def by (simp_all add: sample_json_def first_choice_def pointer2_def)
  show "stream_items sample_json (open_stream [Inr (''data: 1'' @ CRLFCRLF), Inr (''data: 1'' @ LFLF)])
     = [Inr (Delta ''hi''), Inr (Delta ''hi''), Inr (Done Stop usage_default)]"
    unfolding open_stream_def one_record_read[OF a(1) t(1) p(1)] one_record_read[OF a(2) t(2) p(1)] nothing_read by simp
  show "stream_items sample_json (open_stream [Inr (''data: 1'' @ CRLFCRLF @ ''data: 1'' @ LFLF)]) = [Inr (Done Stop usage_default)]"
    unfolding open_stream_def one_record_read[OF a(3) t(3) p(2)] nothing_read by simp
qed

end
