(* ===== verification/Runtime.thy ===== *)
theory Runtime
  imports OpenAi Utf8
begin

text \<open>
  The choice of a model runtime at start-up, \<^verbatim>\<open>cordon-core/src/runtime/mod.rs\<close>, and the
  placeholder backend, \<^verbatim>\<open>cordon-core/src/runtime/deterministic.rs\<close>.
\<close>

subsection \<open>The placeholder\<close>

definition ECHO_PREFIX :: string where "ECHO_PREFIX = ''[cordon:no-model]''"

record DeterministicBackend =
  db_last_model :: "string option"
  db_calls :: nat

definition deterministic_new :: DeterministicBackend where
  "deterministic_new = \<lparr>db_last_model = None, db_calls = 0\<rparr>"

definition truncate_chars :: "string \<Rightarrow> nat \<Rightarrow> string" where
  "truncate_chars s n = to_bytes (take n (to_chars s))"

text \<open>Words between ASCII white space.\<close>

fun count_words :: "bool \<Rightarrow> string \<Rightarrow> nat" where
  "count_words inside [] = 0"
| "count_words inside (c # cs) = (if is_space c then count_words False cs
     else (if inside then 0 else 1) + count_words True cs)"

definition word_count :: "string \<Rightarrow> nat" where
  "word_count s = wrap_u32 (count_words False s)"

definition last_user_content :: "Message list \<Rightarrow> string" where
  "last_user_content ms = (case find (\<lambda>m. role m = ''user'') (rev ms) of Some m \<Rightarrow> content m | None \<Rightarrow> [])"

text \<open>The rendering of a string with quotes and escapes is a parameter.\<close>

definition placeholder_text :: "(string \<Rightarrow> string) \<Rightarrow> InferenceRequest \<Rightarrow> string" where
  "placeholder_text debug_str rq = ECHO_PREFIX @ '' No model runtime is attached to this node. The request for model '' @ quoted (model_id rq)
     @ '' traversed the full Cordon pipeline and this placeholder was returned in place of generated text. Prompt excerpt: ''
     @ debug_str (truncate_chars (last_user_content (messages rq)) 120)"

definition deterministic_infer :: "(string \<Rightarrow> string) \<Rightarrow> DeterministicBackend \<Rightarrow> InferenceRequest
   \<Rightarrow> RawInferenceOutput CordonResult \<times> DeterministicBackend" where
  "deterministic_infer debug_str b rq = (let t = placeholder_text debug_str rq in
     (Inr \<lparr>out_text = t,
        usage = \<lparr>prompt_tokens = wrap_u32 (sum_list (map (\<lambda>m. word_count (content m)) (messages rq))), completion_tokens = word_count t\<rparr>,
        finish_reason = Stop, latency_ms = 0\<rparr>,
      b\<lparr>db_calls := wrap_u64 (Suc (db_calls b)), db_last_model := Some (model_id rq)\<rparr>))"

subsection \<open>Building the runtime\<close>

datatype runtime_backend = OpenAiRuntime OpenAiBackend | PlaceholderRuntime DeterministicBackend

record BuiltRuntime =
  br_backend :: runtime_backend
  br_supervisor :: "LlamaSupervisor option"

text \<open>What building looks at: files, environment variables, the executable's directory, the search path, URLs.\<close>

record build_env =
  be_exists :: "string \<Rightarrow> bool"
  be_is_file :: "string \<Rightarrow> bool"
  be_var :: "string \<Rightarrow> string option"
  be_exe_dir :: "string option"
  be_path :: "string list"
  be_url :: url_parser
  be_client :: "string option"

definition runtime_config_of :: "string \<Rightarrow> string \<Rightarrow> CordonConfig \<Rightarrow> LlamaRuntimeConfig" where
  "runtime_config_of bin model c = \<lparr>lc_binary = bin, lc_model_path = model, lc_ctx_size = context_size (runtime c),
     lc_gpu_layers = gpu_layers (runtime c), lc_threads = threads (runtime c),
     lc_parallel_slots = max (parallel_slots (runtime c)) (max_concurrent_requests (inference c)),
     lc_startup_timeout = startup_timeout_seconds (runtime c), lc_extra_args = extra_args (runtime c), lc_no_mmap = no_mmap (runtime c)\<rparr>"

definition build_supervised :: "build_env \<Rightarrow> runtime_os \<Rightarrow> CordonConfig \<Rightarrow> BuiltRuntime CordonResult option" where
  "build_supervised env os c =
     (case discover_llama_server (be_exists env) (be_is_file env) (binary (runtime c)) (be_var env ''CORDON_LLAMA_SERVER'') (be_exe_dir env) (be_path env) of
        None \<Rightarrow> Some (Inl (RuntimeUnavailable
          ''no llama-server binary found. Install llama.cpp, then set `runtime.binary` in the config or the CORDON_LLAMA_SERVER environment variable. Run `cordon doctor` to check your setup.''))
      | Some bin \<Rightarrow> (case model_path (runtime c) of
          None \<Rightarrow> Some (Inl (RuntimeUnavailable
            ''the supervised runtime needs a model file. Fetch one with `cordon pull <repo>` and set `runtime.model_path`.''))
        | Some model \<Rightarrow> (case start os (runtime_config_of bin model c) of
            None \<Rightarrow> None
          | Some (Inl e) \<Rightarrow> Some (Inl e)
          | Some (Inr sv) \<Rightarrow> (case supervised (be_client env) sv of
              Inl e \<Rightarrow> Some (Inl e)
            | Inr b \<Rightarrow> Some (Inr \<lparr>br_backend = OpenAiRuntime b, br_supervisor = Some sv\<rparr>)))))"

definition build_external :: "build_env \<Rightarrow> CordonConfig \<Rightarrow> BuiltRuntime CordonResult" where
  "build_external env c = (case endpoint_url (runtime c) of
     None \<Rightarrow> Inl (ConfigError (''runtime.backend = '' @ qq ''external'' @ '' requires runtime.endpoint_url''))
   | Some url \<Rightarrow>
     if \<not> is_loopback_url (be_url env) url \<and> mode c \<noteq> Light
     then Inl (ConfigError (''runtime.endpoint_url '' @ url @ '' is not on loopback. In '' @ mode_display (mode c)
       @ '' mode the model runtime must be local, or prompt plaintext leaves the trust boundary. Use runtime.backend = '' @ qq ''supervised''
       @ '', or point at a loopback address.''))
     else (let key = (case Option.bind (endpoint_api_key_env (runtime c)) (be_var env) of Some k \<Rightarrow> if k \<noteq> [] then Some k else None | None \<Rightarrow> None) in
       case external (be_client env) (be_url env) url key of
         Inl e \<Rightarrow> Inl e | Inr b \<Rightarrow> Inr \<lparr>br_backend = OpenAiRuntime b, br_supervisor = None\<rparr>))"

definition build_none :: "CordonConfig \<Rightarrow> BuiltRuntime CordonResult" where
  "build_none c = (if mode c \<noteq> Light
     then Inl (ConfigError (''runtime.backend = '' @ qq ''none'' @ '' returns placeholder text instead of model output and is permitted only in Light mode, not ''
       @ mode_display (mode c) @ ''. Configure a real runtime before deploying in this mode.''))
     else Inr \<lparr>br_backend = PlaceholderRuntime deterministic_new, br_supervisor = None\<rparr>)"

definition build_backend :: "build_env \<Rightarrow> runtime_os \<Rightarrow> CordonConfig \<Rightarrow> BuiltRuntime CordonResult option" where
  "build_backend env os c = (case backend (runtime c) of
     Supervised \<Rightarrow> build_supervised env os c
   | External \<Rightarrow> Some (build_external env c)
   | NoBackend \<Rightarrow> Some (build_none c))"

subsection \<open>Where prompts go\<close>

lemma start_config: "start os c = Some (Inr sv) \<Longrightarrow> sv_config sv = c"
proof -
  assume "start os c = Some (Inr sv)"
  then obtain port kf where "launch os (new_supervisor os c port kf) = Some (Inr (), sv)"
    using start_Inr[of os c sv] by (auto simp: Let_def)
  from launch_Inr[OF this] show ?thesis by (simp add: new_supervisor_def)
qed

lemma build_supervised_Inr:
  assumes "build_supervised env os c = Some (Inr rt)"
  shows "\<exists>b sv bin model. rt = \<lparr>br_backend = OpenAiRuntime b, br_supervisor = Some sv\<rparr> \<and> ob_upstream b = SupervisedUpstream sv \<and> ob_no_proxy b
    \<and> model_path (runtime c) = Some model \<and> start os (runtime_config_of bin model c) = Some (Inr sv)"
  using assms by (auto simp: build_supervised_def supervised_def split: option.splits sum.splits)

text \<open>C16. Outside Light mode a runtime is built only if it keeps prompts on the host: it is the
  supervised child, reached at a loopback address without a proxy, with its key, and with
  at least as many slots as requests are admitted at once, or the endpoint the operator
  configured, which names a loopback host.  Placeholder text is never built there.\<close>

theorem runtime_is_local_outside_light:
  assumes "build_backend env os c = Some (Inr rt)" "mode c \<noteq> Light"
  shows "\<exists>b. br_backend rt = OpenAiRuntime b \<and>
    ((\<exists>sv bin model. ob_upstream b = SupervisedUpstream sv \<and> br_supervisor rt = Some sv \<and> start os (runtime_config_of bin model c) = Some (Inr sv)
        \<and> model_path (runtime c) = Some model \<and> max_concurrent_requests (inference c) \<le> lc_parallel_slots (sv_config sv)
        \<and> completions_url b = ''http://127.0.0.1:'' @ show_nat (sv_port sv) @ ''/v1/chat/completions'' \<and> ob_no_proxy b \<and> auth_token b = Some (sv_api_key sv))
     \<or> (\<exists>url. backend (runtime c) = External \<and> endpoint_url (runtime c) = Some url \<and> is_loopback_url (be_url env) url
        \<and> completions_url b = trim_slashes url @ ''/v1/chat/completions'' \<and> br_supervisor rt = None))"
proof (cases "backend (runtime c)")
  case Supervised
  then have "build_supervised env os c = Some (Inr rt)" using assms(1) by (simp add: build_backend_def)
  from build_supervised_Inr[OF this] obtain b sv bin model where
    rt: "rt = \<lparr>br_backend = OpenAiRuntime b, br_supervisor = Some sv\<rparr>" and b: "ob_upstream b = SupervisedUpstream sv" "ob_no_proxy b"
    and st: "model_path (runtime c) = Some model" "start os (runtime_config_of bin model c) = Some (Inr sv)" by blast
  have "max_concurrent_requests (inference c) \<le> lc_parallel_slots (sv_config sv)"
    using start_config[OF st(2)] by (simp add: runtime_config_of_def)
  moreover have "completions_url b = ''http://127.0.0.1:'' @ show_nat (sv_port sv) @ ''/v1/chat/completions''" "auth_token b = Some (sv_api_key sv)"
    using b(1) by (simp_all add: completions_url_def upstream_root_def base_url_def endpoint_display_def auth_token_def)
  ultimately show ?thesis using rt b st by auto
next
  case External
  then show ?thesis
    using assms by (auto simp: build_backend_def build_external_def external_def Let_def completions_url_def upstream_root_def
        split: option.splits sum.splits if_splits)
next
  case NoBackend
  then show ?thesis using assms by (simp add: build_backend_def build_none_def)
qed

text \<open>Text of the placeholder backend carries its label, whatever the prompt and the rendering.\<close>

lemma placeholder_is_labelled:
  "\<exists>out b1 rest. deterministic_infer debug_str b rq = (Inr out, b1) \<and> out_text out = ECHO_PREFIX @ rest"
  by (simp add: deterministic_infer_def placeholder_text_def Let_def)

definition sample_build_env :: build_env where
  "sample_build_env = \<lparr>be_exists = (\<lambda>_. True), be_is_file = (\<lambda>_. True), be_var = (\<lambda>_. None), be_exe_dir = None, be_path = [],
     be_url = (\<lambda>_. Some (Some (HostDomain ''localhost''))), be_client = None\<rparr>"

definition sample_vault :: CordonConfig where
  "sample_vault = (let c = default_light ''n'' ''d'' in c\<lparr>mode := Vault,
     runtime := (runtime c)\<lparr>backend := External, endpoint_url := Some ''http://localhost/''\<rparr>\<rparr>)"

definition sample_built :: BuiltRuntime where
  "sample_built = \<lparr>br_backend = OpenAiRuntime \<lparr>ob_upstream = ExternalUpstream ''http://localhost'' None, ob_no_proxy = True,
     ob_last_model = None, ob_name = ''openai-compatible (external)''\<rparr>, br_supervisor = None\<rparr>"

theorem runtime_is_local_outside_light_witness:
  "\<exists>b url. br_backend sample_built = OpenAiRuntime b \<and> endpoint_url (runtime sample_vault) = Some url
     \<and> is_loopback_url (be_url sample_build_env) url \<and> completions_url b = trim_slashes url @ ''/v1/chat/completions''"
proof -
  have l: "is_loopback_url (be_url sample_build_env) u" for u by code_simp
  have "trim_slashes ''http://localhost/'' = ''http://localhost''" by code_simp
  then have "build_backend sample_build_env sample_os sample_vault = Some (Inr sample_built)"
    using l by (simp add: build_backend_def build_external_def external_def build_client_def sample_vault_def default_light_def
        runtime_default_def sample_built_def Let_def) (simp add: sample_build_env_def)
  from runtime_is_local_outside_light[OF this] show ?thesis
    by (auto simp: sample_vault_def sample_built_def Let_def)
qed

end
