(* ===== verification/Identity.thy ===== *)
theory Identity
  imports Errors Canonical
begin

text \<open>
  Client identity and authorisation, \<^verbatim>\<open>cordon-core/src/identity.rs\<close>: certificates to
  identities, the policy registry, suspensions, and the check every request passes
  first.  Third-party code is a parameter: the X.509 parser (\<open>parse_der\<close>, giving the
  attributes the source reads), SHA-256 with hex encoding, chrono's rendering of an
  instant, and serde's reading of the registry file.
\<close>

datatype IdentitySource = ClientCertificate | DevelopmentHeader

record ClientIdentity =
  ci_client_id :: string
  ci_subject_dn :: string
  ci_issuer_dn :: string
  ci_cert_serial :: string
  ci_sans :: "string list"
  ci_not_before :: datetime
  ci_not_after :: datetime
  ci_fingerprint :: string
  ci_source :: IdentitySource

record ClientPolicy =
  cp_client_id :: string
  cp_active :: bool
  cp_permitted_models :: "string list"
  cp_max_tokens_per_request :: nat
  cp_max_requests_per_minute :: nat
  cp_max_tokens_per_minute :: nat
  cp_admin_allowed :: bool
  cp_log_export_allowed :: bool
  cp_policy_expires_at :: "datetime option"
  cp_cert_pins :: "string list"
  cp_content_policy_path :: "string option"

datatype UnknownClientPolicy = Deny | AllowWithDefaults

record SuspendedClient =
  suspended_until :: datetime
  suspend_reason :: string

record IdentityRegistry =
  policies :: "string \<rightharpoonup> ClientPolicy"
  suspended :: "string \<rightharpoonup> SuspendedClient"
  unknown_client :: UnknownClientPolicy

subsection \<open>Identities\<close>

definition identity_valid_at :: "ClientIdentity \<Rightarrow> datetime \<Rightarrow> bool" where
  "identity_valid_at i now \<longleftrightarrow> now \<ge> ci_not_before i \<and> now \<le> ci_not_after i"

definition from_dev_header :: "(string \<Rightarrow> string) \<Rightarrow> datetime \<Rightarrow> string \<Rightarrow> ClientIdentity" where
  "from_dev_header sha now client_id = \<lparr>ci_client_id = client_id, ci_subject_dn = ''CN='' @ client_id,
     ci_issuer_dn = ''CN=cordon-development'', ci_cert_serial = [], ci_sans = [],
     ci_not_before = now - secs 3600, ci_not_after = now + secs 3600,
     ci_fingerprint = sha client_id, ci_source = DevelopmentHeader\<rparr>"

text \<open>What the parser exposes of a certificate, as far as the code reads it.\<close>

datatype general_name =
  DNSName string | URI string | RFC822Name string | IPAddress bytes | OtherName

record parsed_cert =
  pc_subject :: string
  pc_issuer :: string
  pc_serial :: string
  pc_general_names :: "general_name list option"
  pc_common_names :: "string option list"
  pc_not_before :: int
  pc_not_after :: int

fun hex_nibble :: "nat \<Rightarrow> char" where
  "hex_nibble n = (if n < 10 then char_of (48 + n) else char_of (87 + n))"

definition hex_encode :: "bytes \<Rightarrow> string" where
  "hex_encode bs = concat (map (\<lambda>b. [hex_nibble (unat b div 16), hex_nibble (unat b mod 16)]) bs)"

text \<open>Lower-case hexadecimal without leading zeros, \<^verbatim>\<open>{:x}\<close>.\<close>

fun show_hex :: "nat \<Rightarrow> string" where
  "show_hex n = (if n < 16 then [hex_nibble n] else show_hex (n div 16) @ [hex_nibble (n mod 16)])"

declare show_hex.simps [simp del]

fun intersperse :: "string \<Rightarrow> string list \<Rightarrow> string" where
  "intersperse sep [] = []"
| "intersperse sep [x] = x"
| "intersperse sep (x # y # ys) = x @ sep @ intersperse sep (y # ys)"

definition show_ipv4 :: "bytes \<Rightarrow> string" where
  "show_ipv4 bs = intersperse ''.'' (map (\<lambda>b. show_nat (unat b)) bs)"

fun segments :: "bytes \<Rightarrow> nat list" where
  "segments (a # b # bs) = (unat a * 256 + unat b) # segments bs"
| "segments _ = []"

text \<open>
  \<^verbatim>\<open>Ipv6Addr::fmt\<close>: an IPv4-mapped address in mixed notation, otherwise the first
  longest run of at least two zero segments written as a double colon.
\<close>

fun longest_zeros :: "nat list \<Rightarrow> nat \<Rightarrow> nat \<times> nat \<Rightarrow> nat \<times> nat \<Rightarrow> nat \<times> nat" where
  "longest_zeros [] i cur best = best"
| "longest_zeros (s # ss) i cur best =
     (let cur' = (if s = 0 then (if snd cur = 0 then (i, 1) else (fst cur, Suc (snd cur))) else (0, 0))
      in longest_zeros ss (Suc i) cur' (if snd cur' > snd best then cur' else best))"

definition show_ipv6 :: "bytes \<Rightarrow> string" where
  "show_ipv6 bs =
     (let segs = segments bs; shown = map show_hex segs
      in if take 6 segs = [0, 0, 0, 0, 0, 65535] then ''::ffff:'' @ show_ipv4 (drop 12 bs)
         else (let (start, len) = longest_zeros segs 0 (0, 0) (0, 0)
               in if len > 1
                  then intersperse '':'' (take start shown) @ ''::'' @ intersperse '':'' (drop (start + len) shown)
                  else intersperse '':'' shown))"

definition format_ip :: "bytes \<Rightarrow> string" where
  "format_ip bs = (if length bs = 4 then show_ipv4 bs else if length bs = 16 then show_ipv6 bs
     else hex_encode bs)"

fun san_string :: "general_name \<Rightarrow> string option" where
  "san_string (DNSName d) = Some (''DNS:'' @ d)"
| "san_string (URI u) = Some (''URI:'' @ u)"
| "san_string (RFC822Name e) = Some (''EMAIL:'' @ e)"
| "san_string (IPAddress ip) = Some (''IP:'' @ format_ip ip)"
| "san_string OtherName = None"

definition starts_with :: "string \<Rightarrow> string \<Rightarrow> bool" where
  "starts_with p s \<longleftrightarrow> take (length p) s = p"

definition first_san_value :: "string list \<Rightarrow> string \<Rightarrow> string option" where
  "first_san_value sans p = map_option (drop (length p)) (find (starts_with p) sans)"

definition or_else :: "'a option \<Rightarrow> 'a option \<Rightarrow> 'a option" where
  "or_else a b = (case a of Some x \<Rightarrow> Some x | None \<Rightarrow> b)"

text \<open>\<open>in_range\<close> is chrono's answer to whether a Unix timestamp is representable.\<close>

definition asn1_to_utc :: "(int \<Rightarrow> bool) \<Rightarrow> int \<Rightarrow> datetime CordonResult" where
  "asn1_to_utc in_range s = (if in_range s then Inr (secs s)
     else Inl (AuthFailed ''certificate validity timestamp out of range''))"

definition parse_client_identity_from_cert ::
  "(bytes \<Rightarrow> parsed_cert option) \<Rightarrow> (bytes \<Rightarrow> string) \<Rightarrow> (int \<Rightarrow> bool) \<Rightarrow> bytes \<Rightarrow> ClientIdentity CordonResult"
  where
  "parse_client_identity_from_cert parse_der sha in_range der =
     (case parse_der der of
        None \<Rightarrow> Inl (AuthFailed ''client certificate is not valid DER X.509'')
      | Some cert \<Rightarrow>
          (let sans = (case pc_general_names cert of None \<Rightarrow> [] | Some ns \<Rightarrow> List.map_filter san_string ns);
               common_name = (case pc_common_names cert of
                  Some cn # _ \<Rightarrow> if cn = [] then None else Some cn | _ \<Rightarrow> None)
           in (case or_else common_name (or_else (first_san_value sans ''URI:'') (first_san_value sans ''DNS:'')) of
                 None \<Rightarrow> Inl (AuthFailed ''client certificate has no subject CN and no URI/DNS SAN; cannot determine a client identity'')
               | Some client_id \<Rightarrow>
                   (case asn1_to_utc in_range (pc_not_before cert) of
                      Inl e \<Rightarrow> Inl e
                    | Inr nb \<Rightarrow>
                        (case asn1_to_utc in_range (pc_not_after cert) of
                           Inl e \<Rightarrow> Inl e
                         | Inr na \<Rightarrow> Inr \<lparr>ci_client_id = client_id, ci_subject_dn = pc_subject cert,
                             ci_issuer_dn = pc_issuer cert,
                             ci_cert_serial = to_lower (filter (\<lambda>c. c \<noteq> CHR '':'') (pc_serial cert)),
                             ci_sans = sans, ci_not_before = nb, ci_not_after = na,
                             ci_fingerprint = sha der, ci_source = ClientCertificate\<rparr>)))))"

subsection \<open>Policies\<close>

definition policy_default_for :: "string \<Rightarrow> ClientPolicy" where
  "policy_default_for client_id = \<lparr>cp_client_id = client_id, cp_active = True, cp_permitted_models = [],
     cp_max_tokens_per_request = 4096, cp_max_requests_per_minute = 60,
     cp_max_tokens_per_minute = 100000, cp_admin_allowed = False, cp_log_export_allowed = False,
     cp_policy_expires_at = None, cp_cert_pins = [], cp_content_policy_path = None\<rparr>"

definition model_permitted :: "ClientPolicy \<Rightarrow> string \<Rightarrow> bool" where
  "model_permitted p bundle_id =
     (if cp_permitted_models p = [] then True else bundle_id \<in> set (cp_permitted_models p))"

definition policy_valid_at :: "ClientPolicy \<Rightarrow> datetime \<Rightarrow> bool" where
  "policy_valid_at p now \<longleftrightarrow> cp_active p \<and>
     (case cp_policy_expires_at p of Some t \<Rightarrow> now < t | None \<Rightarrow> True)"

subsection \<open>The registry\<close>

definition with_unknown_client_policy :: "UnknownClientPolicy \<Rightarrow> IdentityRegistry" where
  "with_unknown_client_policy u = \<lparr>policies = Map.empty, suspended = Map.empty, unknown_client = u\<rparr>"

definition registry_new :: IdentityRegistry where
  "registry_new = with_unknown_client_policy AllowWithDefaults"

definition register :: "IdentityRegistry \<Rightarrow> ClientPolicy \<Rightarrow> IdentityRegistry" where
  "register r p = r\<lparr>policies := (policies r)(cp_client_id p \<mapsto> p)\<rparr>"

text \<open>The registry file: absent, unreadable, or read to what serde makes of it.\<close>

datatype registry_file = Absent | Unreadable string | Contents string

definition load_from_file ::
  "(string \<Rightarrow> ClientPolicy list option) \<Rightarrow> registry_file \<Rightarrow> IdentityRegistry CordonResult" where
  "load_from_file parse f = (case f of
     Absent \<Rightarrow> Inr registry_new
   | Unreadable e \<Rightarrow> Inl (ConfigError (''Cannot read client registry: '' @ e))
   | Contents c \<Rightarrow> (case parse c of
        None \<Rightarrow> Inl (ConfigError ''Invalid client registry'')
      | Some ps \<Rightarrow> Inr (foldl register
           (with_unknown_client_policy (if ps = [] then AllowWithDefaults else Deny)) ps)))"

definition verify_pin :: "ClientPolicy \<Rightarrow> ClientIdentity \<Rightarrow> bool" where
  "verify_pin p i \<longleftrightarrow> cp_cert_pins p = [] \<or>
     list_ex (\<lambda>pin. ct_eq (bytes_of (to_lower (trim pin))) (bytes_of (ci_fingerprint i))) (cp_cert_pins p)"

definition lookup_policy :: "IdentityRegistry \<Rightarrow> string \<Rightarrow> ClientPolicy CordonResult" where
  "lookup_policy r client_id = (case policies r client_id of
     Some p \<Rightarrow> Inr p
   | None \<Rightarrow> (case unknown_client r of
        AllowWithDefaults \<Rightarrow> Inr (policy_default_for client_id)
      | Deny \<Rightarrow> Inl (AuthFailed (''client '' @ client_id @ '' is not enrolled in the client registry''))))"

definition suspension_at :: "IdentityRegistry \<Rightarrow> datetime \<Rightarrow> string \<Rightarrow> SuspendedClient option" where
  "suspension_at r now client_id = (case suspended r client_id of
     Some s \<Rightarrow> if now < suspended_until s then Some s else None | None \<Rightarrow> None)"

definition verify_identity ::
  "(datetime \<Rightarrow> string) \<Rightarrow> IdentityRegistry \<Rightarrow> datetime \<Rightarrow> ClientIdentity \<Rightarrow> ClientPolicy CordonResult" where
  "verify_identity show_time r now i =
     (if \<not> identity_valid_at i now
      then Inl (AuthFailed (''certificate outside its validity window for client '' @ ci_client_id i))
      else (case suspension_at r now (ci_client_id i) of
        Some s \<Rightarrow> Inl (AuthFailed (''client '' @ ci_client_id i @ '' is suspended until ''
            @ show_time (suspended_until s) @ '': '' @ suspend_reason s))
      | None \<Rightarrow> (case lookup_policy r (ci_client_id i) of
          Inl e \<Rightarrow> Inl e
        | Inr policy \<Rightarrow>
            if \<not> policy_valid_at policy now
            then Inl (AuthFailed (''policy for client '' @ ci_client_id i @ '' is expired or inactive''))
            else if \<not> verify_pin policy i
            then Inl (AuthFailed (''certificate pin mismatch for client '' @ ci_client_id i))
            else Inr policy)))"

text \<open>
  \<^verbatim>\<open>suspend\<close>: an entry is created if there is none, and only ever moved later.  The
  \<^verbatim>\<open>u64\<close> duration is cast to \<^verbatim>\<open>i64\<close>.
\<close>

definition suspend :: "IdentityRegistry \<Rightarrow> datetime \<Rightarrow> string \<Rightarrow> nat \<Rightarrow> string \<Rightarrow> IdentityRegistry" where
  "suspend r now client_id duration_secs reason =
     (let until = now + secs (sint (word_of_nat duration_secs :: 64 word));
          entry = (case suspended r client_id of Some s \<Rightarrow> s
                   | None \<Rightarrow> \<lparr>suspended_until = until, suspend_reason = reason\<rparr>);
          entry' = (if until > suspended_until entry
                    then \<lparr>suspended_until = until, suspend_reason = reason\<rparr> else entry)
      in r\<lparr>suspended := (suspended r)(client_id \<mapsto> entry')\<rparr>)"

definition cleanup_expired_suspensions :: "IdentityRegistry \<Rightarrow> datetime \<Rightarrow> IdentityRegistry" where
  "cleanup_expired_suspensions r now = r\<lparr>suspended := (\<lambda>c. case suspended r c of
     Some s \<Rightarrow> if suspended_until s > now then Some s else None | None \<Rightarrow> None)\<rparr>"

subsection \<open>Runs of the registry\<close>

datatype registry_event =
  Register ClientPolicy | Suspend datetime string nat string | CleanupSuspensions datetime

fun registry_step :: "IdentityRegistry \<Rightarrow> registry_event \<Rightarrow> IdentityRegistry" where
  "registry_step r (Register p) = register r p"
| "registry_step r (Suspend now c d why) = suspend r now c d why"
| "registry_step r (CleanupSuspensions now) = cleanup_expired_suspensions r now"

fun event_before :: "datetime \<Rightarrow> IdentityRegistry \<Rightarrow> registry_event \<Rightarrow> bool" where
  "event_before t r (CleanupSuspensions now) = (now < t)"
| "event_before t r _ = True"

definition suspended_through :: "string \<Rightarrow> datetime \<Rightarrow> IdentityRegistry \<Rightarrow> bool" where
  "suspended_through c t r \<longleftrightarrow> (\<exists>s. suspended r c = Some s \<and> t \<le> suspended_until s)"

subsection \<open>Lemmas and properties\<close>

lemma verify_pin_iff:
  "verify_pin p i \<longleftrightarrow> cp_cert_pins p = [] \<or> ci_fingerprint i \<in> (\<lambda>pin. to_lower (trim pin)) ` set (cp_cert_pins p)"
  by (auto simp: verify_pin_def list_ex_iff image_iff) metis

text \<open>C20. A request is authorised exactly when the certificate is inside its window, no
  suspension is running, a policy applies (the enrolled one, or the default where unknown
  clients are admitted), the policy is active and unexpired, and the certificate carries
  one of the pinned fingerprints if there are any; the policy returned is that one.  In
  every other case the answer is an authentication failure.\<close>

theorem verify_identity_iff:
  "(verify_identity show_time r now i = Inr p \<longleftrightarrow>
     ci_not_before i \<le> now \<and> now \<le> ci_not_after i \<and>
     (\<forall>s. suspended r (ci_client_id i) = Some s \<longrightarrow> suspended_until s \<le> now) \<and>
     (policies r (ci_client_id i) = Some p \<or>
      policies r (ci_client_id i) = None \<and> unknown_client r = AllowWithDefaults \<and>
        p = policy_default_for (ci_client_id i)) \<and>
     cp_active p \<and> (\<forall>t. cp_policy_expires_at p = Some t \<longrightarrow> now < t) \<and>
     (cp_cert_pins p = [] \<or> ci_fingerprint i \<in> (\<lambda>pin. to_lower (trim pin)) ` set (cp_cert_pins p))) \<and>
   (\<forall>e. verify_identity show_time r now i = Inl e \<longrightarrow> (\<exists>m. e = AuthFailed m))"
  unfolding verify_identity_def verify_pin_iff suspension_at_def lookup_policy_def identity_valid_at_def
    policy_valid_at_def
  by (auto split: option.splits sum.splits if_splits UnknownClientPolicy.splits)


definition sample_identity :: ClientIdentity where
  "sample_identity = from_dev_header (\<lambda>_. ''f'') 0 ''noisy''"

theorem verify_identity_iff_witness:
  "verify_identity (\<lambda>_. ''t'') registry_new 0 sample_identity = Inr (policy_default_for ''noisy'')"
  using verify_identity_iff [of "\<lambda>_. ''t''" registry_new 0 sample_identity "policy_default_for ''noisy''"]
  by (simp add: sample_identity_def from_dev_header_def registry_new_def with_unknown_client_policy_def
      policy_default_for_def secs_def)

text \<open>A suspension outlives everything the registry does before it ends.\<close>

lemma suspend_keeps:
  "suspended_through c t r \<Longrightarrow> suspended_through c t (suspend r now c' d why)"
  by (auto simp: suspended_through_def suspend_def Let_def split: option.splits)

interpretation suspension_sys: invariant_system registry_step "event_before t" "suspended_through c t" for c t
proof unfold_locales
  fix r e
  assume "suspended_through c t r" "event_before t r e"
  then show "suspended_through c t (registry_step r e)"
    by (cases e) (auto simp: suspend_keeps, auto simp: suspended_through_def register_def
        cleanup_expired_suspensions_def split: option.splits)
qed

lemma suspend_starts:
  assumes "d < 9223372036854775808"
  shows "suspended_through c (now + secs (int d)) (suspend r now c d why)"
proof -
  have "sint (word_of_nat d :: 64 word) = int d"
    using assms by (simp add: signed_of_nat signed_take_bit_int_eq_self)
  then show ?thesis by (auto simp: suspended_through_def suspend_def Let_def split: option.splits)
qed

text \<open>A suspension is never shortened: whatever registrations, further suspensions (shorter
  or longer, of this client or others) and clean-ups follow, the client is refused at every
  instant before the suspension was due to end.\<close>

theorem suspension_not_shortened:
  assumes "d < 9223372036854775808"
    and "run_ok registry_step (event_before (now + secs (int d))) (suspend r now (ci_client_id i) d why) es"
    and "later < now + secs (int d)"
  shows "\<exists>m. verify_identity show_time (run registry_step (suspend r now (ci_client_id i) d why) es) later i
    = Inl (AuthFailed m)"
proof -
  have "suspended_through (ci_client_id i) (now + secs (int d))
      (run registry_step (suspend r now (ci_client_id i) d why) es)"
    by (rule suspension_sys.run_inv [OF suspend_starts [OF assms(1)] assms(2)])
  then show ?thesis using assms(3)
    by (auto simp: suspended_through_def verify_identity_def suspension_at_def)
qed

theorem suspension_not_shortened_witness:
  "\<exists>m. verify_identity (\<lambda>_. ''t'') (run registry_step (suspend registry_new 0 ''noisy'' 3600 ''score'')
      [Suspend 1 ''noisy'' 1 ''brief'', CleanupSuspensions 2]) 5 sample_identity = Inl (AuthFailed m)"
  using suspension_not_shortened [of 3600 0 registry_new sample_identity "''score''"
      "[Suspend 1 ''noisy'' 1 ''brief'', CleanupSuspensions 2]" 5 "\<lambda>_. ''t''"]
  by (simp add: sample_identity_def from_dev_header_def secs_def)

lemma unknown_client_foldl [simp]: "unknown_client (foldl register r ps) = unknown_client r"
  by (induction ps arbitrary: r) (simp_all add: register_def)

lemma suspended_foldl [simp]: "suspended (foldl register r ps) = suspended r"
  by (induction ps arbitrary: r) (simp_all add: register_def)

lemma policies_foldl: "policies (foldl register r ps) c = None \<longleftrightarrow> policies r c = None \<and> c \<notin> cp_client_id ` set ps"
  by (induction ps arbitrary: r) (auto simp: register_def)

text \<open>Enrolling clients restricts access: a registry file that enrols at least one client
  yields a registry under which every client it does not name is refused.\<close>

theorem enrolment_denies_strangers:
  assumes "parse c = Some ps" "ps \<noteq> []" "ci_client_id i \<notin> cp_client_id ` set ps"
  shows "\<exists>r m. load_from_file parse (Contents c) = Inr r \<and> verify_identity show_time r now i = Inl (AuthFailed m)"
  using assms policies_foldl [of "with_unknown_client_policy Deny" ps "ci_client_id i"]
  by (auto simp: load_from_file_def verify_identity_def suspension_at_def lookup_policy_def with_unknown_client_policy_def)

theorem enrolment_denies_strangers_witness:
  "\<exists>r m. load_from_file (\<lambda>_. Some [policy_default_for ''enrolled'']) (Contents ''x'') = Inr r \<and>
     verify_identity (\<lambda>_. ''t'') r 0 sample_identity = Inl (AuthFailed m)"
  using enrolment_denies_strangers [of "\<lambda>_. Some [policy_default_for ''enrolled'']" "''x''"
      "[policy_default_for ''enrolled'']" sample_identity "\<lambda>_. ''t''" 0]
  by (simp add: sample_identity_def from_dev_header_def policy_default_for_def)

end
