(* ===== verification/NodeKeys.thy ===== *)
theory NodeKeys
  imports Config Crypto Identity
begin

text \<open>
  The keys of a node (\<^verbatim>\<open>provision_keys\<close> and its helpers in \<^verbatim>\<open>cordon-core/src/node.rs\<close>) and
  what they authorise: administrative commands and the privileges of enrolled clients.

  The process environment is a map, a file is what reading it gives, and keys drawn from
  the operating system are arguments.
\<close>

datatype KeyProvenance = CmkDerived | Ephemeral | Local

definition provenance_as_str :: "KeyProvenance \<Rightarrow> string" where
  "provenance_as_str p = (case p of CmkDerived \<Rightarrow> ''cmk_derived'' | Ephemeral \<Rightarrow> ''ephemeral'' | Local \<Rightarrow> ''local'')"

record NodeKeys =
  master :: "string option"
  key_principal :: string
  admin_vk :: "string option"
  enclave_key :: string
  provenance :: KeyProvenance
  insecure_admin :: bool
  allow_unregistered_models :: bool

datatype file_read = Contents string | NotFound | ReadError string

record key_env =
  env_var :: "string \<rightharpoonup> string"
  read_file :: "string \<Rightarrow> file_read"
  generated_log_key :: string
  generated_enclave_key :: string
  generated_seed :: string
  seed_dir_error :: "string option"
  seed_open_error :: "string option"
  seed_write_error :: "string option"

definition env_flag :: "key_env \<Rightarrow> string \<Rightarrow> bool" where
  "env_flag K name = (case env_var K name of Some v \<Rightarrow> v = ''true'' \<or> v = ''1'' | None \<Rightarrow> False)"

definition file_error :: "file_read \<Rightarrow> string" where
  "file_error f = (case f of ReadError e \<Rightarrow> e | _ \<Rightarrow> ''No such file or directory (os error 2)'')"

definition load_cmk_hex_from_env :: "key_env \<Rightarrow> string option" where
  "load_cmk_hex_from_env K = (case env_var K ''CORDON_CMK_FILE'' of
     Some path \<Rightarrow> (case read_file K path of Contents s \<Rightarrow> Some s | _ \<Rightarrow> None)
   | None \<Rightarrow> env_var K ''CORDON_CMK'')"

definition load_cmk_hex :: "key_env \<Rightarrow> string option \<Rightarrow> string option CordonResult" where
  "load_cmk_hex K configured = (case configured of
     Some path \<Rightarrow> (case read_file K path of
        Contents s \<Rightarrow> Inr (Some s)
      | f \<Rightarrow> Inl (KeyError (''cannot read the Client Master Key at '' @ path @ '': '' @ file_error f)))
   | None \<Rightarrow> Inr (load_cmk_hex_from_env K))"

text \<open>The seed, and the contents written when the file had to be created.\<close>

definition load_or_create_local_seed :: "crypto_env \<Rightarrow> key_env \<Rightarrow> string \<Rightarrow> (string \<times> string option) CordonResult" where
  "load_or_create_local_seed C K path = (case read_file K path of
     Contents t \<Rightarrow> (case hex_decode C (trim t) of
        Inl _ \<Rightarrow> Inl (KeyError (path @ '' does not hold a hex key seed''))
      | Inr b \<Rightarrow> if length b \<noteq> 32 then Inl (KeyError (path @ '' does not hold a 32-byte key seed'')) else Inr (b, None))
   | ReadError e \<Rightarrow> Inl (KeyError (''cannot read '' @ path @ '': '' @ e))
   | NotFound \<Rightarrow> (case seed_dir_error K of
        Some e \<Rightarrow> Inl (KeyError (''cannot create the directory of '' @ path @ '': '' @ e))
      | None \<Rightarrow> (case seed_open_error K of
          Some e \<Rightarrow> Inl (KeyError (''cannot create '' @ path @ '': '' @ e))
        | None \<Rightarrow> (case seed_write_error K of
            Some e \<Rightarrow> Inl (KeyError (''cannot write '' @ path @ '': '' @ e))
          | None \<Rightarrow> Inr (generated_seed K, Some (crypto_env.hex_encode C (generated_seed K)))))))"

definition key_result :: "'a CryptoResult \<Rightarrow> 'a CordonResult" where
  "key_result r = (case r of Inl e \<Rightarrow> Inl (KeyError (crypto_error_to_string e)) | Inr x \<Rightarrow> Inr x)"

definition principal_of :: "key_env \<Rightarrow> CordonConfig \<Rightarrow> string" where
  "principal_of K c = (case cc_key_principal c of
     Some p \<Rightarrow> if trim p \<noteq> [] then trim p
       else (case env_var K ''CORDON_CLIENT_ID'' of Some v \<Rightarrow> v | None \<Rightarrow> ''operator'')
   | None \<Rightarrow> (case env_var K ''CORDON_CLIENT_ID'' of Some v \<Rightarrow> v | None \<Rightarrow> ''operator''))"

definition cmk_keys :: "crypto_env \<Rightarrow> key_env \<Rightarrow> CordonConfig \<Rightarrow> string \<Rightarrow> (string \<times> NodeKeys) CordonResult" where
  "cmk_keys C K c cmk_hex = (let p = principal_of K c; d = cc_deployment_id c in
     case master_from_hex C (trim cmk_hex) of
       Inl e \<Rightarrow> Inl (KeyError (''invalid Client Master Key: '' @ crypto_error_to_string e))
     | Inr m \<Rightarrow> (case key_result (derive_log_signing_key C m d p) of Inl e \<Rightarrow> Inl e
     | Inr log_key \<Rightarrow> (case key_result (derive_admin_key C m d p) of Inl e \<Rightarrow> Inl e
     | Inr admin \<Rightarrow> (case key_result (derive_enclave_key C m d p) of Inl e \<Rightarrow> Inl e
     | Inr enclave \<Rightarrow> Inr (log_key, \<lparr>master = Some m, key_principal = p, admin_vk = Some (verifying_key C admin),
         enclave_key = enclave, provenance = CmkDerived, insecure_admin = env_flag K ''CORDON_INSECURE_ADMIN'',
         allow_unregistered_models = env_flag K ''CORDON_ALLOW_UNREGISTERED_MODELS''\<rparr>)))))"

definition machine_keys :: "key_env \<Rightarrow> CordonConfig \<Rightarrow> string \<Rightarrow> KeyProvenance \<Rightarrow> NodeKeys" where
  "machine_keys K c enclave prov = \<lparr>master = None, key_principal = principal_of K c, admin_vk = None,
     enclave_key = enclave, provenance = prov, insecure_admin = env_flag K ''CORDON_INSECURE_ADMIN'',
     allow_unregistered_models = env_flag K ''CORDON_ALLOW_UNREGISTERED_MODELS''\<rparr>"

definition no_cmk_keys :: "crypto_env \<Rightarrow> key_env \<Rightarrow> CordonConfig \<Rightarrow> (string \<times> NodeKeys) CordonResult" where
  "no_cmk_keys C K c =
     (if mode c \<noteq> Light then Inl (KeyError (''no Client Master Key is provisioned, but the node is in '' @ mode_display (mode c) @ '' mode. Without a CMK the node signs its own audit log with a key it generated, so the log carries no non-repudiation. Set cmk_path or CORDON_CMK_FILE, or run in Light mode.''))
      else (case local_key_path c of
        Some path \<Rightarrow> (case load_or_create_local_seed C K path of Inl e \<Rightarrow> Inl e
          | Inr (seed, _) \<Rightarrow>
              (case key_result (derive_log_signing_key C seed (cc_deployment_id c) ''cordon-local-key'') of Inl e \<Rightarrow> Inl e
               | Inr log_key \<Rightarrow> (case key_result (derive_enclave_key C seed (cc_deployment_id c) ''cordon-local-key'') of Inl e \<Rightarrow> Inl e
               | Inr enclave \<Rightarrow> Inr (log_key, machine_keys K c enclave Local))))
      | None \<Rightarrow> Inr (generated_log_key K, machine_keys K c (generated_enclave_key K) Ephemeral)))"

definition provision_keys :: "crypto_env \<Rightarrow> key_env \<Rightarrow> CordonConfig \<Rightarrow> (string \<times> NodeKeys) CordonResult" where
  "provision_keys C K c =
     (if mode c \<noteq> Light \<and> env_flag K ''CORDON_INSECURE_ADMIN''
      then Inl (ConfigError (''CORDON_INSECURE_ADMIN is set but the node is in '' @ mode_display (mode c) @ '' mode. Unsigned admin commands are a development-only facility.''))
      else if mode c \<noteq> Light \<and> env_flag K ''CORDON_ALLOW_UNREGISTERED_MODELS''
      then Inl (ConfigError (''CORDON_ALLOW_UNREGISTERED_MODELS is set but the node is in '' @ mode_display (mode c) @ '' mode. Bypassing the model-store gate is a development-only facility.''))
      else (case load_cmk_hex K (cmk_path c) of Inl e \<Rightarrow> Inl e
        | Inr (Some cmk_hex) \<Rightarrow> cmk_keys C K c cmk_hex
        | Inr None \<Rightarrow> no_cmk_keys C K c))"

subsection \<open>Authorisation\<close>

definition admin_canonical :: "string \<Rightarrow> string \<Rightarrow> string" where
  "admin_canonical action prms = ''CORDON_ADMIN:'' @ action @ '':'' @ prms"

definition authorize_admin :: "crypto_env \<Rightarrow> NodeKeys \<Rightarrow> string \<Rightarrow> string \<Rightarrow> string \<Rightarrow> unit CordonResult" where
  "authorize_admin C k action prms signature_hex = (case admin_vk k of
     None \<Rightarrow> if insecure_admin k then Inr ()
       else Inl (AdminRejected ''no admin key is provisioned, so the admin API is disabled. Provision a Client Master Key, or set CORDON_INSECURE_ADMIN=true in Light mode.'')
   | Some vk \<Rightarrow> (case sig_from_hex C (trim signature_hex) of
       Inl _ \<Rightarrow> Inl (AdminRejected ''malformed admin signature (expected 128 hex characters)'')
     | Inr sg \<Rightarrow> (case vk_verify C vk (admin_canonical action prms) sg of
         Inl _ \<Rightarrow> Inl (AdminRejected (''invalid admin signature for action '' @ [CHR 0x27] @ action @ [CHR 0x27]))
       | Inr _ \<Rightarrow> Inr ())))"

definition enforces_client_privileges :: "IdentityRegistry \<Rightarrow> bool" where
  "enforces_client_privileges r \<longleftrightarrow> unknown_client r = Deny"

definition client_may_administer ::
  "(datetime \<Rightarrow> string) \<Rightarrow> IdentityRegistry \<Rightarrow> datetime \<Rightarrow> ClientIdentity \<Rightarrow> unit CordonResult" where
  "client_may_administer show_time r now i =
     (if \<not> enforces_client_privileges r then Inr ()
      else (case verify_identity show_time r now i of Inl e \<Rightarrow> Inl e
        | Inr p \<Rightarrow> if \<not> cp_admin_allowed p
            then Inl (AdminRejected (''client '' @ ci_client_id i @ '' is not enrolled for administrative actions. Set admin_allowed = true for it in the client registry.''))
            else Inr ()))"

definition client_may_read_audit_log ::
  "(datetime \<Rightarrow> string) \<Rightarrow> IdentityRegistry \<Rightarrow> datetime \<Rightarrow> ClientIdentity \<Rightarrow> unit CordonResult" where
  "client_may_read_audit_log show_time r now i =
     (if \<not> enforces_client_privileges r then Inr ()
      else (case verify_identity show_time r now i of Inl e \<Rightarrow> Inl e
        | Inr p \<Rightarrow> if \<not> cp_log_export_allowed p
            then Inl (AuthFailed (''client '' @ ci_client_id i @ '' is not permitted to read the audit log. Set log_export_allowed = true for it in the client registry.''))
            else Inr ()))"

definition bundle_key_for :: "crypto_env \<Rightarrow> NodeKeys \<Rightarrow> string \<Rightarrow> string option" where
  "bundle_key_for C k bid = (case master k of None \<Rightarrow> None
     | Some m \<Rightarrow> (case derive_bundle_key C m bid (key_principal k) of Inl _ \<Rightarrow> None | Inr b \<Rightarrow> Some b))"

subsection \<open>Properties\<close>

lemma provisioned_outside_light:
  assumes "provision_keys C K c = Inr (lk, k)" "mode c \<noteq> Light"
  shows "\<not> insecure_admin k \<and> \<not> allow_unregistered_models k \<and> provenance k = CmkDerived
    \<and> (\<exists>m a. master k = Some m \<and> derive_admin_key C m (cc_deployment_id c) (key_principal k) = Inr a
         \<and> admin_vk k = Some (verifying_key C a))"
  using assms by (auto simp: provision_keys_def no_cmk_keys_def cmk_keys_def key_result_def Let_def
      split: if_splits sum.splits option.splits)


definition sample_key_env :: key_env where
  "sample_key_env = \<lparr>env_var = [''CORDON_CMK'' \<mapsto> CHR ''h'' # replicate 32 (CHR ''k'')], read_file = (\<lambda>_. NotFound),
     generated_log_key = [], generated_enclave_key = [], generated_seed = [], seed_dir_error = None,
     seed_open_error = None, seed_write_error = None\<rparr>"


text \<open>A signed command cannot be replayed as another whose action holds no colon.\<close>

lemma admin_canonical_inj:
  "CHR '':'' \<notin> set a \<Longrightarrow> CHR '':'' \<notin> set a' \<Longrightarrow> admin_canonical a p = admin_canonical a' p' \<Longrightarrow> a = a' \<and> p = p'"
  using split_at_colon[of a a' p p'] by (simp add: admin_canonical_def)

text \<open>
  A master-key file named by the environment that cannot be read counts as no key: a Light
  node then starts on keys of its own.
\<close>

lemma unreadable_cmk_file_falls_back:
  assumes "mode c = Light" "cmk_path c = None" "local_key_path c = None"
    and "env_var K ''CORDON_CMK_FILE'' = Some path" "read_file K path = ReadError e"
  shows "\<exists>lk k. provision_keys C K c = Inr (lk, k) \<and> provenance k = Ephemeral"
  using assms by (simp add: provision_keys_def load_cmk_hex_def load_cmk_hex_from_env_def no_cmk_keys_def machine_keys_def)

end
