(* ===== verification/X509Chain.thy ===== *)
theory X509Chain
  imports Parsing
begin

text \<open>
  Walking a certificate chain to a pinned root, \<^verbatim>\<open>cordon-crypto/src/x509_chain.rs\<close>, and the
  third-party code the attestation verifiers call: X.509 parsing (\<^verbatim>\<open>x509_parser\<close>), signature
  verification (\<^verbatim>\<open>ring\<close>), SHA-256 and the codecs are the fields of \<open>attest_env\<close>.
\<close>

datatype ring_algorithm =
  RSA_PSS_2048_8192_SHA384 | RSA_PKCS1_2048_8192_SHA384 | RSA_PKCS1_2048_8192_SHA256
| RSA_PSS_2048_8192_SHA256 | ECDSA_P384_SHA384_ASN1 | ECDSA_P256_SHA256_ASN1
| ECDSA_P384_SHA384_FIXED | ECDSA_P256_SHA256_FIXED

record certificate =
  cert_issuer :: bytes
  cert_subject :: bytes
  cert_tbs :: bytes
  cert_signature :: bytes
  cert_algorithm :: string
  cert_key :: bytes

record attest_env =
  ae_sha256 :: "bytes \<Rightarrow> bytes"
  ae_hex :: "bytes \<Rightarrow> string"
  ae_unhex :: "string \<Rightarrow> string + bytes"
  ae_unb64 :: "string \<Rightarrow> string + bytes"
  ae_x509 :: "bytes \<Rightarrow> string + certificate"
  ae_valid_now :: "certificate \<Rightarrow> bool"
  ae_verify :: "ring_algorithm \<Rightarrow> bytes \<Rightarrow> bytes \<Rightarrow> bytes \<Rightarrow> bool"
  ae_rsa_verify :: "ring_algorithm \<Rightarrow> bytes \<Rightarrow> bytes \<Rightarrow> bytes \<Rightarrow> bytes \<Rightarrow> bool"

definition parse_certificate :: "attest_env \<Rightarrow> string \<Rightarrow> bytes \<Rightarrow> certificate CryptoResult" where
  "parse_certificate E what der = (case ae_x509 E der of
     Inl e \<Rightarrow> Inl (AttestationFailed (what @ '' is not valid DER X.509: '' @ e)) | Inr c \<Rightarrow> Inr c)"

definition chain_algorithm :: "string \<Rightarrow> ring_algorithm option" where
  "chain_algorithm oid =
     (if oid = ''1.2.840.113549.1.1.10'' then Some RSA_PSS_2048_8192_SHA384
      else if oid = ''1.2.840.113549.1.1.12'' then Some RSA_PKCS1_2048_8192_SHA384
      else if oid = ''1.2.840.113549.1.1.11'' then Some RSA_PKCS1_2048_8192_SHA256
      else if oid = ''1.2.840.10045.4.3.3'' then Some ECDSA_P384_SHA384_ASN1
      else if oid = ''1.2.840.10045.4.3.2'' then Some ECDSA_P256_SHA256_ASN1
      else None)"

definition verify_signed_by :: "attest_env \<Rightarrow> bytes \<Rightarrow> bytes \<Rightarrow> bool CryptoResult" where
  "verify_signed_by E child_der parent_der =
     and_then (parse_certificate E ''certificate'' child_der) (\<lambda>child.
     and_then (parse_certificate E ''issuer'' parent_der) (\<lambda>parent.
       if cert_issuer child \<noteq> cert_subject parent then Inr False
       else (case chain_algorithm (cert_algorithm child) of
         Some alg \<Rightarrow> Inr (ae_verify E alg (cert_key parent) (cert_tbs child) (cert_signature child))
       | None \<Rightarrow> Inl (AttestationFailed (''certificate is signed with algorithm '' @ cert_algorithm child
           @ '', which Cordon does not verify. AMD'' @ [CHR 0x27] @ ''s chain uses RSASSA-PSS with SHA-384 and AWS'' @ [CHR 0x27]
           @ ''s uses ECDSA with SHA-384.'')))))"

fun verify_chain_to_root :: "attest_env \<Rightarrow> bytes \<Rightarrow> bytes list \<Rightarrow> bytes \<Rightarrow> bool CryptoResult" where
  "verify_chain_to_root E child [] anchor = verify_signed_by E child anchor"
| "verify_chain_to_root E child (parent # ps) anchor =
     and_then (verify_signed_by E child parent) (\<lambda>ok.
       if \<not> ok then Inr False else verify_chain_to_root E parent ps anchor)"

definition is_currently_valid :: "attest_env \<Rightarrow> bytes \<Rightarrow> bool CryptoResult" where
  "is_currently_valid E der = and_then (parse_certificate E ''certificate'' der) (\<lambda>c. Inr (ae_valid_now E c))"

definition public_key_bytes :: "attest_env \<Rightarrow> bytes \<Rightarrow> bytes CryptoResult" where
  "public_key_bytes E der = and_then (parse_certificate E ''certificate'' der) (\<lambda>c. Inr (cert_key c))"

subsection \<open>What a chain establishes\<close>

text \<open>
  A certificate endorses another when both parse, the names link and the signature over the
  child's body holds under the parent's key.
\<close>

definition endorsed_by :: "attest_env \<Rightarrow> bytes \<Rightarrow> bytes \<Rightarrow> bool" where
  "endorsed_by E child_der parent_der \<longleftrightarrow> (\<exists>child parent alg. ae_x509 E child_der = Inr child \<and> ae_x509 E parent_der = Inr parent
     \<and> cert_issuer child = cert_subject parent \<and> chain_algorithm (cert_algorithm child) = Some alg
     \<and> ae_verify E alg (cert_key parent) (cert_tbs child) (cert_signature child))"

lemma parse_certificate_Inr [simp]: "parse_certificate E what der = Inr c \<longleftrightarrow> ae_x509 E der = Inr c"
  by (simp add: parse_certificate_def split: sum.split)

lemma verify_signed_by_True: "verify_signed_by E child parent = Inr True \<longleftrightarrow> endorsed_by E child parent"
  by (auto simp: verify_signed_by_def endorsed_by_def split: option.splits if_splits)

inductive chains_to :: "attest_env \<Rightarrow> bytes \<Rightarrow> bytes list \<Rightarrow> bytes \<Rightarrow> bool" for E where
  direct: "endorsed_by E leaf anchor \<Longrightarrow> chains_to E leaf [] anchor"
| link: "endorsed_by E leaf parent \<Longrightarrow> chains_to E parent ps anchor \<Longrightarrow> chains_to E leaf (parent # ps) anchor"

inductive_simps chains_to_Nil [simp]: "chains_to E leaf [] anchor"
inductive_simps chains_to_Cons [simp]: "chains_to E leaf (p # ps) anchor"

lemma verify_chain_True: "verify_chain_to_root E leaf ps anchor = Inr True \<longleftrightarrow> chains_to E leaf ps anchor"
  by (induction ps arbitrary: leaf) (auto simp: verify_signed_by_True split: if_splits)

subsection \<open>A sample environment\<close>

definition sample_attest_env :: attest_env where
  "sample_attest_env = \<lparr>ae_sha256 = id, ae_hex = string_of_bytes, ae_unhex = (\<lambda>s. Inr (bytes_of s)),
     ae_unb64 = (\<lambda>s. Inr (bytes_of s)), ae_x509 = (\<lambda>b. Inr \<lparr>cert_issuer = [], cert_subject = [], cert_tbs = b, cert_signature = [],
       cert_algorithm = ''1.2.840.10045.4.3.3'', cert_key = b\<rparr>), ae_valid_now = (\<lambda>_. True),
     ae_verify = (\<lambda>_ _ _ _. True), ae_rsa_verify = (\<lambda>_ _ _ _ _. True)\<rparr>"

end
