(* ===== verification/Tpm2.thy ===== *)
theory Tpm2
  imports X509Chain
begin

text \<open>
  TPM 2.0 structures and the verification of a quote, \<^verbatim>\<open>cordon-crypto/src/tpm2.rs\<close>.  A reader
  is its offset, which only messages show, with what is left of the input.
\<close>

definition TPM_GENERATED_VALUE :: nat where "TPM_GENERATED_VALUE = 0xFF544347"
definition TPM_ST_ATTEST_QUOTE :: nat where "TPM_ST_ATTEST_QUOTE = 0x8018"
definition TPM_ALG_RSA :: nat where "TPM_ALG_RSA = 0x0001"
definition TPM_ALG_ECC :: nat where "TPM_ALG_ECC = 0x0023"
definition TPM_ALG_SHA256 :: nat where "TPM_ALG_SHA256 = 0x000B"
definition TPM_ALG_NULL :: nat where "TPM_ALG_NULL = 0x0010"
definition TPM_ALG_RSASSA :: nat where "TPM_ALG_RSASSA = 0x0014"
definition TPM_ALG_RSAPSS :: nat where "TPM_ALG_RSAPSS = 0x0016"
definition TPM_ALG_ECDSA :: nat where "TPM_ALG_ECDSA = 0x0018"

lemmas tpm_constants = TPM_GENERATED_VALUE_def TPM_ST_ATTEST_QUOTE_def TPM_ALG_RSA_def TPM_ALG_ECC_def
  TPM_ALG_SHA256_def TPM_ALG_NULL_def TPM_ALG_RSASSA_def TPM_ALG_RSAPSS_def TPM_ALG_ECDSA_def

subsection \<open>The reader\<close>

type_synonym tpm_reader = "nat \<times> bytes"

definition tpm_take :: "nat \<Rightarrow> string \<Rightarrow> tpm_reader \<Rightarrow> CryptoError + (bytes \<times> tpm_reader)" where
  "tpm_take n what r = (case r of (off, bs) \<Rightarrow>
     if length bs < n
     then Inl (AttestationFailed (''TPM structure truncated: wanted '' @ show_nat n @ '' bytes for '' @ what @ '' at offset ''
            @ show_nat off @ '', '' @ show_nat (length bs) @ '' remain''))
     else Inr (take n bs, off + n, drop n bs))"

definition tpm_int :: "nat \<Rightarrow> string \<Rightarrow> tpm_reader \<Rightarrow> CryptoError + (nat \<times> tpm_reader)" where
  "tpm_int n what r = and_then (tpm_take n what r) (\<lambda>(b, r'). Inr (be_value b, r'))"

abbreviation (input) tpm_u8 :: "string \<Rightarrow> tpm_reader \<Rightarrow> CryptoError + (nat \<times> tpm_reader)" where "tpm_u8 \<equiv> tpm_int 1"
abbreviation (input) tpm_u16 :: "string \<Rightarrow> tpm_reader \<Rightarrow> CryptoError + (nat \<times> tpm_reader)" where "tpm_u16 \<equiv> tpm_int 2"
abbreviation (input) tpm_u32 :: "string \<Rightarrow> tpm_reader \<Rightarrow> CryptoError + (nat \<times> tpm_reader)" where "tpm_u32 \<equiv> tpm_int 4"
abbreviation (input) tpm_u64 :: "string \<Rightarrow> tpm_reader \<Rightarrow> CryptoError + (nat \<times> tpm_reader)" where "tpm_u64 \<equiv> tpm_int 8"

definition sized_buffer :: "string \<Rightarrow> tpm_reader \<Rightarrow> CryptoError + (bytes \<times> tpm_reader)" where
  "sized_buffer what r = and_then (tpm_u16 what r) (\<lambda>(len, r'). tpm_take len what r')"

subsection \<open>The quote\<close>

record PcrSelection =
  sel_hash_alg :: nat
  sel_indices :: "nat list"

record AttestQuote =
  qualified_signer :: bytes
  extra_data :: bytes
  clock :: nat
  reset_count :: nat
  restart_count :: nat
  clock_safe :: bool
  firmware_version :: nat
  pcr_selections :: "PcrSelection list"
  pcr_digest :: bytes

text \<open>The index is cast to eight bits, so it wraps in a mask of more than 32 bytes.\<close>

definition mask_indices :: "bytes \<Rightarrow> nat list" where
  "mask_indices sel = concat (map (\<lambda>(byte_index, byte).
     map (\<lambda>b. (byte_index * 8) mod 256 + b) (filter (\<lambda>b. byte AND push_bit b 1 \<noteq> 0) [0..<8])) (zip [0..<length sel] sel))"

definition read_selection :: "tpm_reader \<Rightarrow> CryptoError + (PcrSelection \<times> tpm_reader)" where
  "read_selection r = and_then (tpm_u16 ''selection hashAlg'' r) (\<lambda>(alg, r1).
     and_then (tpm_u8 ''sizeofSelect'' r1) (\<lambda>(size_of_select, r2).
     and_then (tpm_take size_of_select ''pcrSelect'' r2) (\<lambda>(sel, r3).
       Inr (\<lparr>sel_hash_alg = alg, sel_indices = mask_indices sel\<rparr>, r3))))"

fun read_selections :: "nat \<Rightarrow> tpm_reader \<Rightarrow> CryptoError + (PcrSelection list \<times> tpm_reader)" where
  "read_selections 0 r = Inr ([], r)"
| "read_selections (Suc n) r = and_then (read_selection r) (\<lambda>(s, r1).
     and_then (read_selections n r1) (\<lambda>(ss, r2). Inr (s # ss, r2)))"

definition parse_attest :: "bytes \<Rightarrow> AttestQuote CryptoResult" where
  "parse_attest bs =
     and_then (tpm_u32 ''magic'' (0, bs)) (\<lambda>(magic, r).
     if magic \<noteq> TPM_GENERATED_VALUE
     then Inl (AttestationFailed (''not a TPM-generated attestation: magic is 0x'' @ show_hex 8 magic @ '', expected 0x'' @ show_hex 8 TPM_GENERATED_VALUE))
     else and_then (tpm_u16 ''type'' r) (\<lambda>(structure_type, r).
     if structure_type \<noteq> TPM_ST_ATTEST_QUOTE
     then Inl (AttestationFailed (''attestation is type 0x'' @ show_hex 4 structure_type @ '', expected a PCR quote (0x'' @ show_hex 4 TPM_ST_ATTEST_QUOTE @ '')''))
     else and_then (sized_buffer ''qualifiedSigner'' r) (\<lambda>(signer, r).
     and_then (sized_buffer ''extraData'' r) (\<lambda>(extra, r).
     and_then (tpm_u64 ''clock'' r) (\<lambda>(clk, r).
     and_then (tpm_u32 ''resetCount'' r) (\<lambda>(resets, r).
     and_then (tpm_u32 ''restartCount'' r) (\<lambda>(restarts, r).
     and_then (tpm_u8 ''safe'' r) (\<lambda>(safe, r).
     and_then (tpm_u64 ''firmwareVersion'' r) (\<lambda>(fw, r).
     and_then (tpm_u32 ''pcrSelect count'' r) (\<lambda>(n, r).
     if n > 16 then Inl (AttestationFailed (''implausible PCR selection count '' @ show_nat n))
     else and_then (read_selections n r) (\<lambda>(sels, r).
     and_then (sized_buffer ''pcrDigest'' r) (\<lambda>(dig, r).
       Inr \<lparr>qualified_signer = signer, extra_data = extra, clock = clk, reset_count = resets, restart_count = restarts,
         clock_safe = (safe \<noteq> 0), firmware_version = fw, pcr_selections = sels, pcr_digest = dig\<rparr>))))))))))))"

definition sha256_indices :: "AttestQuote \<Rightarrow> nat list" where
  "sha256_indices q = concat (map sel_indices (filter (\<lambda>s. sel_hash_alg s = TPM_ALG_SHA256) (pcr_selections q)))"

subsection \<open>Signatures and keys\<close>

record TpmSignature =
  sig_alg :: nat
  sig_hash_alg :: nat
  sig_bytes :: bytes

text \<open>Both halves are padded to the longer of the two.\<close>

definition pad_r_s :: "bytes \<Rightarrow> bytes \<Rightarrow> bytes" where
  "pad_r_s r s = (let width = max (length r) (length s) in
     replicate (width - length r) 0 @ r @ replicate (width - length s) 0 @ s)"

definition parse_signature :: "bytes \<Rightarrow> TpmSignature CryptoResult" where
  "parse_signature bs =
     and_then (tpm_u16 ''sigAlg'' (0, bs)) (\<lambda>(alg, r).
     and_then (tpm_u16 ''hashAlg'' r) (\<lambda>(hash, r).
     if alg = TPM_ALG_RSASSA \<or> alg = TPM_ALG_RSAPSS
     then and_then (sized_buffer ''sig'' r) (\<lambda>(sg, r). Inr \<lparr>sig_alg = alg, sig_hash_alg = hash, sig_bytes = sg\<rparr>)
     else if alg = TPM_ALG_ECDSA
     then and_then (sized_buffer ''signatureR'' r) (\<lambda>(rp, r). and_then (sized_buffer ''signatureS'' r) (\<lambda>(sp, r).
       Inr \<lparr>sig_alg = alg, sig_hash_alg = hash, sig_bytes = pad_r_s rp sp\<rparr>))
     else Inl (AttestationFailed (''unsupported TPM signature algorithm 0x'' @ show_hex 4 alg))))"

datatype TpmPublicKey = Rsa bytes bytes | EcP256 bytes

text \<open>Optional parameters: present unless the algorithm is null.\<close>

definition skip_unless_null :: "nat \<Rightarrow> string list \<Rightarrow> tpm_reader \<Rightarrow> CryptoError + tpm_reader" where
  "skip_unless_null alg whats r = (if alg \<noteq> TPM_ALG_NULL
     then foldl (\<lambda>acc what. and_then acc (\<lambda>r. and_then (tpm_u16 what r) (\<lambda>(_, r'). Inr r'))) (Inr r) whats else Inr r)"

definition trim_exponent :: "nat \<Rightarrow> bytes" where
  "trim_exponent v = (let bs = be_bytes 4 v; sig = dropWhile (\<lambda>b. b = 0) bs in if sig = [] then drop 3 bs else sig)"

definition parse_rsa :: "tpm_reader \<Rightarrow> TpmPublicKey CryptoResult" where
  "parse_rsa r =
     and_then (tpm_u16 ''symmetric.algorithm'' r) (\<lambda>(sym, r).
     and_then (skip_unless_null sym [''symmetric.keyBits'', ''symmetric.mode''] r) (\<lambda>r.
     and_then (tpm_u16 ''scheme.scheme'' r) (\<lambda>(scheme, r).
     and_then (skip_unless_null scheme [''scheme.hashAlg''] r) (\<lambda>r.
     and_then (tpm_u16 ''keyBits'' r) (\<lambda>(_, r).
     and_then (tpm_u32 ''exponent'' r) (\<lambda>(exponent_raw, r).
     and_then (sized_buffer ''unique.rsa'' r) (\<lambda>(modulus, r).
       if modulus = [] then Inl (AttestationFailed ''TPM public area carries an empty RSA modulus'')
       else Inr (Rsa modulus (trim_exponent (if exponent_raw = 0 then 65537 else exponent_raw))))))))))"

definition pad32 :: "bytes \<Rightarrow> bytes" where
  "pad32 x = replicate (32 - length x) 0 @ x"

definition parse_ecc :: "tpm_reader \<Rightarrow> TpmPublicKey CryptoResult" where
  "parse_ecc r =
     and_then (tpm_u16 ''symmetric.algorithm'' r) (\<lambda>(sym, r).
     and_then (skip_unless_null sym [''symmetric.keyBits'', ''symmetric.mode''] r) (\<lambda>r.
     and_then (tpm_u16 ''scheme.scheme'' r) (\<lambda>(scheme, r).
     and_then (skip_unless_null scheme [''scheme.hashAlg''] r) (\<lambda>r.
     and_then (tpm_u16 ''curveID'' r) (\<lambda>(curve_id, r).
     and_then (tpm_u16 ''kdf.scheme'' r) (\<lambda>(kdf, r).
     and_then (skip_unless_null kdf [''kdf.hashAlg''] r) (\<lambda>r.
     if curve_id \<noteq> 3
     then Inl (AttestationFailed (''unsupported TPM ECC curve 0x'' @ show_hex 4 curve_id @ ''; only NIST P-256 is verified''))
     else and_then (sized_buffer ''unique.x'' r) (\<lambda>(x, r). and_then (sized_buffer ''unique.y'' r) (\<lambda>(y, r).
       Inr (EcP256 (4 # pad32 x @ pad32 y)))))))))))"

definition parse_public :: "bytes \<Rightarrow> TpmPublicKey CryptoResult" where
  "parse_public bs =
     and_then (tpm_u16 ''type'' (0, bs)) (\<lambda>(key_type, r).
     and_then (tpm_u16 ''nameAlg'' r) (\<lambda>(_, r).
     and_then (tpm_u32 ''objectAttributes'' r) (\<lambda>(_, r).
     and_then (sized_buffer ''authPolicy'' r) (\<lambda>(_, r).
     if key_type = TPM_ALG_RSA then parse_rsa r
     else if key_type = TPM_ALG_ECC then parse_ecc r
     else Inl (AttestationFailed (''unsupported TPM key type 0x'' @ show_hex 4 key_type))))))"

definition key_verify :: "attest_env \<Rightarrow> TpmPublicKey \<Rightarrow> bytes \<Rightarrow> TpmSignature \<Rightarrow> unit CryptoResult" where
  "key_verify E key message sg =
     (if sig_hash_alg sg \<noteq> TPM_ALG_SHA256
      then Inl (AttestationFailed (''TPM quote is hashed with algorithm 0x'' @ show_hex 4 (sig_hash_alg sg) @ ''; Cordon verifies SHA-256 quotes''))
      else (case key of
        Rsa n e \<Rightarrow>
          if sig_alg sg = TPM_ALG_RSASSA
          then ensure (ae_rsa_verify E RSA_PKCS1_2048_8192_SHA256 n e message (sig_bytes sg)) CryptoSignatureInvalid
          else if sig_alg sg = TPM_ALG_RSAPSS
          then ensure (ae_rsa_verify E RSA_PSS_2048_8192_SHA256 n e message (sig_bytes sg)) CryptoSignatureInvalid
          else Inl (AttestationFailed (''signature algorithm 0x'' @ show_hex 4 (sig_alg sg) @ '' does not match the attestation key (RSA)''))
      | EcP256 point \<Rightarrow>
          if sig_alg sg = TPM_ALG_ECDSA
          then ensure (ae_verify E ECDSA_P256_SHA256_FIXED point message (sig_bytes sg)) CryptoSignatureInvalid
          else Inl (AttestationFailed (''signature algorithm 0x'' @ show_hex 4 (sig_alg sg) @ '' does not match the attestation key (ECDSA P-256)''))))"

subsection \<open>Verification\<close>

definition compute_pcr_digest :: "attest_env \<Rightarrow> bytes list \<Rightarrow> bytes" where
  "compute_pcr_digest E values = ae_sha256 E (concat values)"

record TpmQuoteVerification =
  tq_signature_valid :: bool
  tq_nonce_matches :: bool
  tq_pcr_digest_matches :: bool
  tq_ak_is_trusted :: bool

definition tq_fully_verified :: "TpmQuoteVerification \<Rightarrow> bool" where
  "tq_fully_verified v \<longleftrightarrow> tq_signature_valid v \<and> tq_nonce_matches v \<and> tq_pcr_digest_matches v"

definition verify_quote :: "attest_env \<Rightarrow> bytes \<Rightarrow> bytes \<Rightarrow> bytes \<Rightarrow> bytes \<Rightarrow> (nat \<times> bytes) list \<Rightarrow> TpmQuoteVerification CryptoResult" where
  "verify_quote E attest_message signature ak_public expected_extra_data claimed_pcrs =
     and_then (parse_attest attest_message) (\<lambda>attest.
     and_then (parse_signature signature) (\<lambda>sg.
     and_then (parse_public ak_public) (\<lambda>key.
       let claimed_sorted = sort_key fst claimed_pcrs in
       Inr \<lparr>tq_signature_valid = (key_verify E key attest_message sg = Inr ()),
            tq_nonce_matches = ct_eq (extra_data attest) expected_extra_data,
            tq_pcr_digest_matches = (if map fst claimed_sorted \<noteq> sha256_indices attest then False
              else ct_eq (compute_pcr_digest E (map snd claimed_sorted)) (pcr_digest attest)),
            tq_ak_is_trusted = False\<rparr>)))"

subsection \<open>What a verified quote establishes\<close>

lemma key_verify_Inr:
  "key_verify E key msg sg = Inr () \<longleftrightarrow> sig_hash_alg sg = TPM_ALG_SHA256 \<and>
     (case key of
        Rsa n e \<Rightarrow> sig_alg sg = TPM_ALG_RSASSA \<and> ae_rsa_verify E RSA_PKCS1_2048_8192_SHA256 n e msg (sig_bytes sg)
          \<or> sig_alg sg = TPM_ALG_RSAPSS \<and> ae_rsa_verify E RSA_PSS_2048_8192_SHA256 n e msg (sig_bytes sg)
      | EcP256 p \<Rightarrow> sig_alg sg = TPM_ALG_ECDSA \<and> ae_verify E ECDSA_P256_SHA256_FIXED p msg (sig_bytes sg))"
  by (auto simp: key_verify_def tpm_constants split: TpmPublicKey.split)

lemma verify_quote_Inr:
  "verify_quote E m s k x c = Inr v \<longleftrightarrow> (\<exists>attest sg key. parse_attest m = Inr attest \<and> parse_signature s = Inr sg \<and>
     parse_public k = Inr key \<and>
     v = \<lparr>tq_signature_valid = (key_verify E key m sg = Inr ()), tq_nonce_matches = (extra_data attest = x),
          tq_pcr_digest_matches = (map fst (sort_key fst c) = sha256_indices attest \<and>
            compute_pcr_digest E (map snd (sort_key fst c)) = pcr_digest attest),
          tq_ak_is_trusted = False\<rparr>)"
  by (auto simp: verify_quote_def Let_def)

text \<open>The boundaries between register values are not part of what is hashed.\<close>

lemma quote_sees_concatenation:
  assumes "map fst (sort_key fst c) = map fst (sort_key fst c')"
    and "concat (map snd (sort_key fst c)) = concat (map snd (sort_key fst c'))"
  shows "verify_quote E m s k x c = verify_quote E m s k x c'"
proof -
  have "compute_pcr_digest E (map snd (sort_key fst c)) = compute_pcr_digest E (map snd (sort_key fst c'))"
    using assms(2) by (simp add: compute_pcr_digest_def)
  then show ?thesis unfolding verify_quote_def Let_def assms(1) by (simp only:)
qed

definition full_width :: "(nat \<times> bytes) list \<Rightarrow> bool" where
  "full_width c \<longleftrightarrow> list_all (\<lambda>(_, b). length b = 32) c"

lemma full_width_sorted: "full_width c \<Longrightarrow> b \<in> set (map snd (sort_key fst c)) \<Longrightarrow> length b = 32"
  by (auto simp: full_width_def list_all_iff)

text \<open>C39. A quote binds the register values claimed beside it, provided each is the 32 bytes
  of a SHA-256 register: two such claims that match the same signed message are the same
  claim, register by register, or the two sequences of values are a collision of the hash
  function.\<close>

theorem quote_binds_full_width_registers:
  assumes "verify_quote E m s k x c = Inr v" "tq_pcr_digest_matches v" "full_width c"
    and "verify_quote E m s' k' x' c' = Inr v'" "tq_pcr_digest_matches v'" "full_width c'"
  shows "sort_key fst c = sort_key fst c' 
    \<or> collides (ae_sha256 E) (concat (map snd (sort_key fst c))) (concat (map snd (sort_key fst c')))"
proof -
  let ?s = "sort_key fst c" and ?s' = "sort_key fst c'"
  have i: "map fst ?s = map fst ?s'" and h: "ae_sha256 E (concat (map snd ?s)) = ae_sha256 E (concat (map snd ?s'))"
    using assms(1,2,4,5) by (auto simp: verify_quote_Inr compute_pcr_digest_def)
  have "length (map snd ?s) = length (map snd ?s')" using arg_cong[OF i, of length] by simp
  moreover have "\<forall>(a, b) \<in> set (zip (map snd ?s) (map snd ?s')). length a = length b"
  proof (rule ballI)
    fix p
    assume "p \<in> set (zip (map snd ?s) (map snd ?s'))"
    then have "fst p \<in> set (map snd ?s)" "snd p \<in> set (map snd ?s')"
      by (metis prod.collapse set_zip_leftD, metis prod.collapse set_zip_rightD)
    then show "case p of (a, b) \<Rightarrow> length a = length b"
      using full_width_sorted[OF assms(3)] full_width_sorted[OF assms(6)] by (simp add: case_prod_unfold)
  qed
  ultimately have "concat (map snd ?s) = concat (map snd ?s') \<Longrightarrow> map snd ?s = map snd ?s'"
    by (intro concat_injective)
  then have "concat (map snd ?s) = concat (map snd ?s') \<Longrightarrow> ?s = ?s'"
    using i by (metis zip_map_fst_snd)
  then show ?thesis using h unfolding collides_def by blast
qed

text \<open>A quote of registers 0 and 1 that answers the challenge \<open>0xAA\<close>, under an RSA key.\<close>

definition sample_attest :: "bytes \<Rightarrow> bytes" where
  "sample_attest digest = [0xFF, 0x54, 0x43, 0x47, 0x80, 0x18, 0, 0, 0, 1, 0xAA] @ replicate 16 0 @ [1] @ replicate 8 0
     @ [0, 0, 0, 1, 0, 0x0B, 1, 3] @ be_bytes 2 (length digest) @ digest"

definition sample_tpm_signature :: bytes where
  "sample_tpm_signature = [0, 0x14, 0, 0x0B, 0, 1, 7]"

definition sample_ak :: bytes where
  "sample_ak = [0, 1, 0, 0x0B, 0, 0, 0, 0, 0, 0, 0, 0x10, 0, 0x10, 8, 0, 0, 0, 0, 0, 0, 1, 9]"

lemmas tpm_reader_defs = tpm_int_def tpm_take_def sized_buffer_def be_value_def

lemma sample_attest_parses:
  assumes "length d < 65536"
  shows "parse_attest (sample_attest d) = Inr \<lparr>qualified_signer = [], extra_data = [0xAA], clock = 0, reset_count = 0,
    restart_count = 0, clock_safe = True, firmware_version = 0,
    pcr_selections = [\<lparr>sel_hash_alg = 11, sel_indices = [0, 1]\<rparr>], pcr_digest = d\<rparr>"
proof -
  have "mask_indices [3] = [0, 1]" by code_simp
  moreover have "foldl (\<lambda>acc b. acc * 256 + unat b) 0 (replicate k (0 :: 8 word)) = (0 :: nat)" for k
    by (induction k) simp_all
  moreover have "sized_buffer ''pcrDigest'' (off, be_bytes 2 (length d) @ d) = Inr (d, off + 2 + length d, [])" for off
    using assms by (simp add: sized_buffer_def tpm_int_def tpm_take_def be_value_be_bytes del: be_bytes.simps)
  ultimately show ?thesis
    unfolding parse_attest_def sample_attest_def
    by (simp add: tpm_int_def tpm_take_def sized_buffer_def[of "''extraData''"] sized_buffer_def[of "''qualifiedSigner''"]
        be_value_def tpm_constants read_selection_def del: be_bytes.simps)
qed

lemma sample_signature_parses: "parse_signature sample_tpm_signature = Inr \<lparr>sig_alg = 20, sig_hash_alg = 11, sig_bytes = [7]\<rparr>"
  by (simp add: parse_signature_def sample_tpm_signature_def tpm_reader_defs tpm_constants)

lemma sample_ak_parses: "\<exists>e. parse_public sample_ak = Inr (Rsa [9] e)"
  by (simp add: parse_public_def parse_rsa_def sample_ak_def skip_unless_null_def tpm_reader_defs tpm_constants)

lemma sample_quote_verifies:
  assumes "length (a @ b) < 65536"
  shows "verify_quote sample_attest_env (sample_attest (a @ b)) sample_tpm_signature sample_ak [0xAA] [(0, a), (1, b)]
    = Inr \<lparr>tq_signature_valid = True, tq_nonce_matches = True, tq_pcr_digest_matches = True, tq_ak_is_trusted = False\<rparr>"
  using sample_attest_parses[OF assms] sample_signature_parses sample_ak_parses
  by (auto simp: verify_quote_Inr key_verify_Inr sha256_indices_def compute_pcr_digest_def sample_attest_env_def tpm_constants)

theorem quote_binds_full_width_registers_witness:
  "tq_fully_verified (projr (verify_quote sample_attest_env (sample_attest (replicate 32 1 @ replicate 32 2)) sample_tpm_signature
       sample_ak [0xAA] [(1, replicate 32 2), (0, replicate 32 1)]))
   \<and> sort_key fst [(0, replicate 32 1), (1, replicate 32 2)] = sort_key fst [(1, replicate 32 2), (0 :: nat, replicate 32 (1 :: 8 word))]"
proof -
  let ?c = "[(0, replicate 32 1), (1, replicate 32 2)]" and ?c' = "[(1, replicate 32 2), (0, replicate 32 1)]"
  have l: "length (replicate 32 (1 :: 8 word) @ replicate 32 2) < 65536" by simp
  have w: "full_width ?c" "full_width ?c'" by (simp_all add: full_width_def)
  have q: "verify_quote E m s k x ?c' = verify_quote E m s k x ?c" for E m s k x
    by (rule quote_sees_concatenation) simp_all
  note c = sample_quote_verifies[OF l]
  note c' = c[folded q]
  show ?thesis
    using quote_binds_full_width_registers[OF c _ w(1) c' _ w(2)] c'
    by (simp add: tq_fully_verified_def collides_def sample_attest_env_def)
qed

text \<open>Without that proviso the claim is not bound: nothing checks the width of a claimed
  value, so a report may move bytes from one register to the next and keep every verdict of
  the same quote.\<close>

theorem register_bytes_can_move:
  assumes "i < j" "verify_quote E m s k x [(i, a), (j, b @ d)] = Inr v"
  shows "verify_quote E m s k x [(i, a @ b), (j, d)] = Inr v"
  using quote_sees_concatenation[of "[(i, a @ b), (j, d)]" "[(i, a), (j, b @ d)]" E m s k x] assms by simp

theorem register_bytes_can_move_witness:
  "\<exists>v. verify_quote sample_attest_env (sample_attest [1, 2, 3]) sample_tpm_signature sample_ak [0xAA] [(0, [1] @ [2]), (1, [3])] = Inr v
     \<and> tq_fully_verified v"
proof -
  have "verify_quote sample_attest_env (sample_attest [1, 2, 3]) sample_tpm_signature sample_ak [0xAA] [(0, [1]), (1, [2] @ [3])]
     = Inr \<lparr>tq_signature_valid = True, tq_nonce_matches = True, tq_pcr_digest_matches = True, tq_ak_is_trusted = False\<rparr>"
    using sample_quote_verifies[of "[1]" "[2] @ [3]"] by simp
  from register_bytes_can_move[OF _ this] show ?thesis by (simp add: tq_fully_verified_def)
qed

text \<open>Two short scalars are padded to each other and not to the curve: the result is not the
  64 bytes of a P-256 signature.\<close>

lemma short_scalars_stay_short: "length r < 32 \<Longrightarrow> length s < 32 \<Longrightarrow> length (pad_r_s r s) < 64"
  by (simp add: pad_r_s_def Let_def)

end
