(* ===== verification/SevSnp.thy ===== *)
theory SevSnp
  imports X509Chain
begin

text \<open>
  AMD SEV-SNP attestation reports, \<^verbatim>\<open>cordon-crypto/src/sev_snp.rs\<close>.  Fields read at fixed
  offsets are little-endian; a \<^verbatim>\<open>u64\<close> whose bits matter is a 64-bit word.
\<close>

definition REPORT_SIZE :: nat where "REPORT_SIZE = 0x4A0"
definition SIGNED_PREFIX_LEN :: nat where "SIGNED_PREFIX_LEN = 0x2A0"
definition SIG_ALGO_ECDSA_P384_SHA384 :: nat where "SIG_ALGO_ECDSA_P384_SHA384 = 1"
definition P384_SCALAR_LEN :: nat where "P384_SCALAR_LEN = 48"
definition SIG_FIELD_LEN :: nat where "SIG_FIELD_LEN = 72"

lemmas snp_constants = REPORT_SIZE_def SIGNED_PREFIX_LEN_def SIG_ALGO_ECDSA_P384_SHA384_def P384_SCALAR_LEN_def SIG_FIELD_LEN_def

record TcbVersion =
  tcb_bootloader :: "8 word"
  tcb_tee :: "8 word"
  tcb_snp :: "8 word"
  tcb_microcode :: "8 word"
  tcb_raw :: "64 word"

definition tcb_parse :: "64 word \<Rightarrow> TcbVersion" where
  "tcb_parse raw = (let b = le_bytes 8 (unat raw) in
     \<lparr>tcb_bootloader = b ! 0, tcb_tee = b ! 1, tcb_snp = b ! 6, tcb_microcode = b ! 7, tcb_raw = raw\<rparr>)"

definition is_at_least :: "TcbVersion \<Rightarrow> TcbVersion \<Rightarrow> bool" where
  "is_at_least v least \<longleftrightarrow> tcb_bootloader v \<ge> tcb_bootloader least \<and> tcb_tee v \<ge> tcb_tee least
     \<and> tcb_snp v \<ge> tcb_snp least \<and> tcb_microcode v \<ge> tcb_microcode least"

record GuestPolicy =
  gp_raw :: "64 word"
  abi_major :: "8 word"
  abi_minor :: "8 word"
  smt_allowed :: bool
  migrate_ma_allowed :: bool
  debug_allowed :: bool
  single_socket_required :: bool

definition policy_parse :: "64 word \<Rightarrow> GuestPolicy" where
  "policy_parse raw = \<lparr>gp_raw = raw, abi_major = ucast (drop_bit 8 raw AND 0xFF), abi_minor = ucast (raw AND 0xFF),
     smt_allowed = (raw AND push_bit 16 1 \<noteq> 0), migrate_ma_allowed = (raw AND push_bit 18 1 \<noteq> 0),
     debug_allowed = (raw AND push_bit 19 1 \<noteq> 0), single_socket_required = (raw AND push_bit 20 1 \<noteq> 0)\<rparr>"

record SevSnpReport =
  sr_version :: nat
  guest_svn :: nat
  guest_policy :: GuestPolicy
  family_id :: bytes
  image_id :: bytes
  vmpl :: nat
  signature_algo :: nat
  current_tcb :: TcbVersion
  platform_info :: "64 word"
  report_data :: bytes
  measurement :: bytes
  host_data :: bytes
  id_key_digest :: bytes
  author_key_digest :: bytes
  report_id :: bytes
  report_id_ma :: bytes
  reported_tcb :: TcbVersion
  chip_id :: bytes
  committed_tcb :: TcbVersion
  launch_tcb :: TcbVersion
  report_raw :: bytes

definition read_array :: "nat \<Rightarrow> bytes \<Rightarrow> nat \<Rightarrow> bytes" where
  "read_array n bs off = take n (drop off bs)"

definition read_u32 :: "bytes \<Rightarrow> nat \<Rightarrow> nat" where
  "read_u32 bs off = le_value (read_array 4 bs off)"

definition read_u64 :: "bytes \<Rightarrow> nat \<Rightarrow> 64 word" where
  "read_u64 bs off = word_of_nat (le_value (read_array 8 bs off))"

definition parse_report :: "bytes \<Rightarrow> SevSnpReport CryptoResult" where
  "parse_report bs =
     (if length bs < REPORT_SIZE
      then Inl (AttestationFailed (''SEV-SNP report is '' @ show_nat (length bs) @ '' bytes, expected at least '' @ show_nat REPORT_SIZE))
      else Inr \<lparr>sr_version = read_u32 bs 0x000, guest_svn = read_u32 bs 0x004, guest_policy = policy_parse (read_u64 bs 0x008),
        family_id = read_array 16 bs 0x010, image_id = read_array 16 bs 0x020, vmpl = read_u32 bs 0x030,
        signature_algo = read_u32 bs 0x034, current_tcb = tcb_parse (read_u64 bs 0x038), platform_info = read_u64 bs 0x040,
        report_data = read_array 64 bs 0x050, measurement = read_array 48 bs 0x090, host_data = read_array 32 bs 0x0C0,
        id_key_digest = read_array 48 bs 0x0E0, author_key_digest = read_array 48 bs 0x110,
        report_id = read_array 32 bs 0x140, report_id_ma = read_array 32 bs 0x160,
        reported_tcb = tcb_parse (read_u64 bs 0x180), chip_id = read_array 64 bs 0x1A0,
        committed_tcb = tcb_parse (read_u64 bs 0x1E0), launch_tcb = tcb_parse (read_u64 bs 0x1F0),
        report_raw = take REPORT_SIZE bs\<rparr>)"

definition signed_prefix :: "SevSnpReport \<Rightarrow> bytes" where
  "signed_prefix r = take SIGNED_PREFIX_LEN (report_raw r)"

definition measurement_hex :: "attest_env \<Rightarrow> SevSnpReport \<Rightarrow> string" where
  "measurement_hex E r = ae_hex E (measurement r)"

definition chip_id_hex :: "attest_env \<Rightarrow> SevSnpReport \<Rightarrow> string" where
  "chip_id_hex E r = ae_hex E (chip_id r)"

text \<open>One scalar: reversed, its padding checked and dropped.\<close>

definition scalar_be :: "bytes \<Rightarrow> bytes CryptoResult" where
  "scalar_be scalar = (let be = rev scalar; leading = length be - P384_SCALAR_LEN in
     if list_ex (\<lambda>b. b \<noteq> 0) (take leading be)
     then Inl (AttestationFailed ''SEV-SNP signature scalar is wider than P-384 permits'')
     else Inr (drop leading be))"

definition signature_r_s :: "SevSnpReport \<Rightarrow> bytes CryptoResult" where
  "signature_r_s r = (let field = drop SIGNED_PREFIX_LEN (take REPORT_SIZE (report_raw r)) in
     and_then (scalar_be (take SIG_FIELD_LEN field)) (\<lambda>a.
     and_then (scalar_be (take SIG_FIELD_LEN (drop SIG_FIELD_LEN field))) (\<lambda>b. Inr (a @ b))))"

definition vcek_kds_path :: "attest_env \<Rightarrow> SevSnpReport \<Rightarrow> string \<Rightarrow> string" where
  "vcek_kds_path E r product = (let t = reported_tcb r in
     ''/vcek/v1/'' @ product @ ''/'' @ chip_id_hex E r @ ''?blSPL='' @ show_nat (unat (tcb_bootloader t))
     @ ''&teeSPL='' @ show_nat (unat (tcb_tee t)) @ ''&snpSPL='' @ show_nat (unat (tcb_snp t))
     @ ''&ucodeSPL='' @ show_nat (unat (tcb_microcode t)))"

record SevSnpExpectations =
  se_measurement :: string
  se_minimum_tcb :: TcbVersion
  se_refuse_debuggable_guest :: bool
  se_expected_vmpl :: nat

definition snp_expectations_new :: "string \<Rightarrow> SevSnpExpectations" where
  "snp_expectations_new m = \<lparr>se_measurement = m,
     se_minimum_tcb = \<lparr>tcb_bootloader = 0, tcb_tee = 0, tcb_snp = 0, tcb_microcode = 0, tcb_raw = 0\<rparr>,
     se_refuse_debuggable_guest = True, se_expected_vmpl = 0\<rparr>"

record SevSnpVerification =
  sv_report_signature_valid :: bool
  sv_certificate_chain_valid :: bool
  sv_report_data_matches :: bool
  sv_measurement_matches :: bool
  sv_tcb_acceptable :: bool
  sv_policy_acceptable :: bool

definition sv_fully_verified :: "SevSnpVerification \<Rightarrow> bool" where
  "sv_fully_verified v \<longleftrightarrow> sv_report_signature_valid v \<and> sv_certificate_chain_valid v \<and> sv_report_data_matches v
     \<and> sv_measurement_matches v \<and> sv_tcb_acceptable v \<and> sv_policy_acceptable v"

definition sv_first_failure :: "SevSnpVerification \<Rightarrow> string option" where
  "sv_first_failure v =
     (if \<not> sv_certificate_chain_valid v then Some ''the VCEK does not chain to the AMD root supplied, so this report is not known to come from AMD silicon''
      else if \<not> sv_report_signature_valid v then Some (''the report'' @ [CHR 0x27] @ ''s signature does not verify under its VCEK'')
      else if \<not> sv_report_data_matches v then Some (''the report does not commit to this verifier'' @ [CHR 0x27] @ ''s challenge; it is a replay, or it does not bind this node'' @ [CHR 0x27] @ ''s signing key'')
      else if \<not> sv_measurement_matches v then Some ''the guest launch measurement does not match the pinned value''
      else if \<not> sv_tcb_acceptable v then Some (''the platform'' @ [CHR 0x27] @ ''s reported TCB is below the pinned minimum'')
      else if \<not> sv_policy_acceptable v then Some (''the guest'' @ [CHR 0x27] @ ''s launch policy permits debugging or runs at an unexpected VMPL, so the hypervisor may be able to read its memory'')
      else None)"

definition vcek_public_point :: "attest_env \<Rightarrow> bytes \<Rightarrow> bytes CryptoResult" where
  "vcek_public_point E vcek_der = and_then (parse_certificate E ''VCEK'' vcek_der) (\<lambda>cert.
     let point = cert_key cert in
     if length point \<noteq> 1 + P384_SCALAR_LEN * 2 \<or> point ! 0 \<noteq> 4
     then Inl (AttestationFailed (''VCEK does not carry an uncompressed P-384 public point ('' @ show_nat (length point) @ '' bytes)''))
     else Inr point)"

text \<open>The walk from the VCEK; an empty chain is not a passing one.\<close>

fun walk_chain :: "attest_env \<Rightarrow> bytes \<Rightarrow> bytes list \<Rightarrow> bool CryptoResult" where
  "walk_chain E child [] = Inr True"
| "walk_chain E child (parent # ps) = and_then (verify_signed_by E child parent) (\<lambda>ok.
     if \<not> ok then Inr False else walk_chain E parent ps)"

definition verify_report :: "attest_env \<Rightarrow> bytes \<Rightarrow> bytes \<Rightarrow> bytes list \<Rightarrow> bytes \<Rightarrow> SevSnpExpectations
   \<Rightarrow> (SevSnpReport \<times> SevSnpVerification) CryptoResult" where
  "verify_report E report_bytes vcek_der chain_der expected_challenge x =
     and_then (parse_report report_bytes) (\<lambda>r.
     if signature_algo r \<noteq> SIG_ALGO_ECDSA_P384_SHA384
     then Inl (AttestationFailed (''SEV-SNP report declares signature algorithm '' @ show_nat (signature_algo r) @ '', expected ''
            @ show_nat SIG_ALGO_ECDSA_P384_SHA384 @ '' (ECDSA P-384 with SHA-384)''))
     else and_then (vcek_public_point E vcek_der) (\<lambda>point.
     and_then (signature_r_s r) (\<lambda>sg.
     and_then (if chain_der = [] then Inr False else walk_chain E vcek_der chain_der) (\<lambda>chain_valid.
       Inr (r, \<lparr>sv_report_signature_valid = ae_verify E ECDSA_P384_SHA384_FIXED point (signed_prefix r) sg,
         sv_certificate_chain_valid = chain_valid,
         sv_report_data_matches = ct_eq (report_data r) expected_challenge,
         sv_measurement_matches = (if se_measurement x = [] then False
           else ct_eq (bytes_of (measurement_hex E r)) (bytes_of (to_lower (se_measurement x)))),
         sv_tcb_acceptable = is_at_least (reported_tcb r) (se_minimum_tcb x),
         sv_policy_acceptable = (vmpl r = se_expected_vmpl x
           \<and> \<not> (se_refuse_debuggable_guest x \<and> debug_allowed (guest_policy r)))\<rparr>)))))"

subsection \<open>What a verified report establishes\<close>

lemma sv_first_failure_None: "sv_first_failure v = None \<longleftrightarrow> sv_fully_verified v"
  by (simp add: sv_first_failure_def sv_fully_verified_def)

lemma walk_chain_snoc: "walk_chain E leaf (ps @ [anchor]) = Inr True \<longleftrightarrow> chains_to E leaf ps anchor"
  by (induction ps arbitrary: leaf) (auto simp: verify_signed_by_True split: if_splits)

lemma scalar_be_value: "length s = SIG_FIELD_LEN \<Longrightarrow> scalar_be s = Inr b \<Longrightarrow> length b = 48 \<and> be_value b = le_value s"
proof -
  assume l: "length s = SIG_FIELD_LEN" and b: "scalar_be s = Inr b"
  have z: "\<forall>x \<in> set (take 24 (rev s)). x = 0" and bd: "b = drop 24 (rev s)"
    using l b by (auto simp: scalar_be_def Let_def snp_constants list_ex_iff split: if_splits)
  have "foldl (\<lambda>acc b. acc * 256 + unat b) 0 zs = (0 :: nat)" if "\<forall>x \<in> set zs. x = 0" for zs :: bytes
    using that by (induction zs) auto
  then have "be_value (take 24 (rev s) @ drop 24 (rev s)) = be_value (drop 24 (rev s))"
    using z unfolding be_value_def foldl_append by simp
  then show ?thesis
    using l bd by (simp add: le_value_def snp_constants)
qed

text \<open>Every field lies in the signed prefix.\<close>

lemma read_prefix: "off + n \<le> m \<Longrightarrow> take m bs = take m bs' \<Longrightarrow> read_array n bs off = read_array n bs' off"
proof -
  assume l: "off + n \<le> m" and e: "take m bs = take m bs'"
  have t: "read_array n xs off = read_array n (take m xs) off" for xs
    unfolding read_array_def drop_take take_take using l by (simp add: min_absorb1)
  show ?thesis using t[of bs] t[of bs'] unfolding e by simp
qed

lemma parsed_fields_signed:
  assumes "parse_report bs = Inr r" "parse_report bs' = Inr r'" "take SIGNED_PREFIX_LEN bs = take SIGNED_PREFIX_LEN bs'"
  shows "r\<lparr>report_raw := []\<rparr> = r'\<lparr>report_raw := []\<rparr> \<and> signed_prefix r = signed_prefix r'"
proof -
  have f: "read_array n bs off = read_array n bs' off" if "off + n \<le> 0x2A0" for n off
    by (rule read_prefix[OF that assms(3)[unfolded SIGNED_PREFIX_LEN_def]])
  have "read_u32 bs off = read_u32 bs' off" if "off + 4 \<le> 0x2A0" for off
    using f[OF that] by (simp add: read_u32_def)
  moreover have "read_u64 bs off = read_u64 bs' off" if "off + 8 \<le> 0x2A0" for off
    using f[OF that] by (simp add: read_u64_def)
  moreover have "take SIGNED_PREFIX_LEN (take REPORT_SIZE bs) = take SIGNED_PREFIX_LEN (take REPORT_SIZE bs')"
    using assms(3) by (simp add: snp_constants)
  ultimately show ?thesis
    using assms(1,2) f by (auto simp: parse_report_def signed_prefix_def split: if_splits)
qed

text \<open>C40. Nothing outside the signed part of a report can change what it is taken to say: two
  reports with the same first 0x2A0 bytes yield the same fields and the same verdict on
  chain, challenge, measurement, firmware and launch policy, whatever else they carry.\<close>

theorem snp_verdict_rests_on_signed_prefix:
  assumes "verify_report E b vcek chain ch x = Inr (r, v)" "verify_report E b' vcek chain ch x = Inr (r', v')"
    and "take SIGNED_PREFIX_LEN b = take SIGNED_PREFIX_LEN b'"
  shows "r\<lparr>report_raw := []\<rparr> = r'\<lparr>report_raw := []\<rparr>
    \<and> v\<lparr>sv_report_signature_valid := s\<rparr> = v'\<lparr>sv_report_signature_valid := s\<rparr>"
proof -
  have "parse_report b = Inr r" "parse_report b' = Inr r'"
    using assms(1,2) by (auto simp: verify_report_def split: if_splits)
  from parsed_fields_signed[OF this assms(3)]
  have e: "r\<lparr>report_raw := []\<rparr> = r'\<lparr>report_raw := []\<rparr>" by blast
  then have "report_data r = report_data r'" "measurement r = measurement r'" "reported_tcb r = reported_tcb r'"
    "vmpl r = vmpl r'" "guest_policy r = guest_policy r'"
    by (metis SevSnpReport.select_convs SevSnpReport.update_convs SevSnpReport.surjective)+
  then show ?thesis
    using assms(1,2) e by (auto simp: verify_report_def measurement_hex_def split: if_splits)
qed

text \<open>A report of the right size, signed with the expected algorithm.\<close>

definition sample_report :: bytes where
  "sample_report = replicate 0x34 0 @ [1] @ replicate 0x46B 0"

lemma sample_report_length [simp]: "length sample_report = 0x4A0"
  by (simp add: sample_report_def)

lemma le_value_zeros [simp]: "le_value (replicate n 0) = 0"
proof -
  have "foldl (\<lambda>acc b. acc * 256 + unat b) 0 (replicate n (0 :: 8 word)) = (0 :: nat)" by (induction n) simp_all
  then show ?thesis by (simp add: le_value_def be_value_def)
qed

lemma sample_report_fields:
  "read_u32 (sample_report @ t) 0x34 = 1" "drop 0x2A0 sample_report = replicate 0x200 0"
  by (simp_all add: sample_report_def read_u32_def read_array_def le_value_def be_value_def numeral_eq_Suc)

lemma sample_report_verifies:
  "\<exists>r v. verify_report sample_attest_env (sample_report @ t) (4 # replicate 96 0) [[1]] ch x = Inr (r, v)"
  by (auto simp: verify_report_def parse_report_def vcek_public_point_def signature_r_s_def scalar_be_def sample_report_fields
      snp_constants list_ex_iff Let_def verify_signed_by_def sample_attest_env_def chain_algorithm_def)

theorem snp_verdict_rests_on_signed_prefix_witness:
  "\<exists>r v r' v'. verify_report sample_attest_env sample_report (4 # replicate 96 0) [[1]] (replicate 64 0) \<lparr>se_measurement = ''m'', se_minimum_tcb = tcb_parse 0, se_refuse_debuggable_guest = True, se_expected_vmpl = 0\<rparr> = Inr (r, v)
     \<and> verify_report sample_attest_env (sample_report @ [9]) (4 # replicate 96 0) [[1]] (replicate 64 0) \<lparr>se_measurement = ''m'', se_minimum_tcb = tcb_parse 0, se_refuse_debuggable_guest = True, se_expected_vmpl = 0\<rparr> = Inr (r', v')
     \<and> v\<lparr>sv_report_signature_valid := True\<rparr> = v'\<lparr>sv_report_signature_valid := True\<rparr>"
proof -
  obtain r v where a: "verify_report sample_attest_env sample_report (4 # replicate 96 0) [[1]] (replicate 64 0) \<lparr>se_measurement = ''m'', se_minimum_tcb = tcb_parse 0, se_refuse_debuggable_guest = True, se_expected_vmpl = 0\<rparr> = Inr (r, v)"
    using sample_report_verifies[of "[]"] unfolding append_Nil2 by blast
  obtain r' v' where b: "verify_report sample_attest_env (sample_report @ [9]) (4 # replicate 96 0) [[1]] (replicate 64 0) \<lparr>se_measurement = ''m'', se_minimum_tcb = tcb_parse 0, se_refuse_debuggable_guest = True, se_expected_vmpl = 0\<rparr> = Inr (r', v')"
    using sample_report_verifies[of "[9]"] by blast
  show ?thesis
    using snp_verdict_rests_on_signed_prefix[OF a b] a b by (auto simp: snp_constants)
qed

text \<open>What a passing verification of a report with a pinned root says.\<close>

lemma snp_fully_verified:
  assumes "verify_report E b vcek (ps @ [anchor]) ch x = Inr (r, v)" "sv_fully_verified v"
  shows "\<exists>point sg. vcek_public_point E vcek = Inr point \<and> signature_r_s r = Inr sg \<and> parse_report b = Inr r
    \<and> ae_verify E ECDSA_P384_SHA384_FIXED point (signed_prefix r) sg \<and> chains_to E vcek ps anchor
    \<and> report_data r = ch \<and> measurement_hex E r = to_lower (se_measurement x) \<and> se_measurement x \<noteq> []
    \<and> is_at_least (reported_tcb r) (se_minimum_tcb x) \<and> vmpl r = se_expected_vmpl x
    \<and> (se_refuse_debuggable_guest x \<longrightarrow> \<not> debug_allowed (guest_policy r))"
  using assms by (auto simp: verify_report_def sv_fully_verified_def walk_chain_snoc split: if_splits)

end
