(* ===== verification/Cbor.thy ===== *)
theory Cbor
  imports Parsing
begin

text \<open>
  The CBOR reader for attestation documents, \<^verbatim>\<open>cordon-crypto/src/cbor.rs\<close>.  The reader's
  position is what is left of the document; the count of items is threaded through.  A text
  string is its UTF-8 bytes.
\<close>

definition MAX_DEPTH :: nat where "MAX_DEPTH = 16"
definition MAX_ITEMS :: nat where "MAX_ITEMS = 4096"

datatype CborValue =
  Unsigned nat
| Negative int
| Bytes bytes
| Text string
| Array "CborValue list"
| Map "(CborValue \<times> CborValue) list"
| Bool bool
| Null

subsection \<open>Accessors\<close>

fun type_name :: "CborValue \<Rightarrow> string" where
  "type_name (Unsigned _) = ''an unsigned integer''"
| "type_name (Negative _) = ''a negative integer''"
| "type_name (Bytes _) = ''a byte string''"
| "type_name (Text _) = ''a text string''"
| "type_name (Array _) = ''an array''"
| "type_name (Map _) = ''a map''"
| "type_name (Bool _) = ''a boolean''"
| "type_name Null = ''null''"

definition type_error :: "string \<Rightarrow> string \<Rightarrow> CborValue \<Rightarrow> CryptoError" where
  "type_error field expected found = AttestationFailed
     (''`'' @ field @ ''` should be '' @ expected @ '', but the document has '' @ type_name found)"

definition as_bytes :: "string \<Rightarrow> CborValue \<Rightarrow> bytes CryptoResult" where
  "as_bytes field v = (case v of Bytes b \<Rightarrow> Inr b | _ \<Rightarrow> Inl (type_error field ''a byte string'' v))"

definition as_text :: "string \<Rightarrow> CborValue \<Rightarrow> string CryptoResult" where
  "as_text field v = (case v of Text s \<Rightarrow> Inr s | _ \<Rightarrow> Inl (type_error field ''a text string'' v))"

definition as_u64 :: "string \<Rightarrow> CborValue \<Rightarrow> nat CryptoResult" where
  "as_u64 field v = (case v of Unsigned n \<Rightarrow> Inr n | _ \<Rightarrow> Inl (type_error field ''an unsigned integer'' v))"

definition as_i64 :: "string \<Rightarrow> CborValue \<Rightarrow> int CryptoResult" where
  "as_i64 field v = (case v of
     Unsigned n \<Rightarrow> if n < 2 ^ 63 then Inr (int n) else Inl (AttestationFailed (field @ '' is too large to be an integer''))
   | Negative i \<Rightarrow> Inr i
   | _ \<Rightarrow> Inl (type_error field ''an integer'' v))"

definition as_array :: "string \<Rightarrow> CborValue \<Rightarrow> CborValue list CryptoResult" where
  "as_array field v = (case v of Array xs \<Rightarrow> Inr xs | _ \<Rightarrow> Inl (type_error field ''an array'' v))"

definition as_map :: "string \<Rightarrow> CborValue \<Rightarrow> (CborValue \<times> CborValue) list CryptoResult" where
  "as_map field v = (case v of Map es \<Rightarrow> Inr es | _ \<Rightarrow> Inl (type_error field ''a map'' v))"

definition is_null :: "CborValue \<Rightarrow> bool" where
  "is_null v \<longleftrightarrow> v = Null"

text \<open>\<^verbatim>\<open>get\<close>: the loop over the entries, with what was found so far.\<close>

fun get_loop :: "string \<Rightarrow> CborValue option \<Rightarrow> (CborValue \<times> CborValue) list \<Rightarrow> CborValue option CryptoResult" where
  "get_loop key found [] = Inr found"
| "get_loop key found ((k, v) # es) =
     (if k = Text key
      then (if found \<noteq> None then Inl (AttestationFailed (''the attestation document carries the key `'' @ key
              @ ''` more than once; a verifier cannot tell which one the signer meant''))
            else get_loop key (Some v) es)
      else get_loop key found es)"

definition get :: "string \<Rightarrow> CborValue \<Rightarrow> CborValue option CryptoResult" where
  "get key v = and_then (as_map key v) (get_loop key None)"

definition require :: "string \<Rightarrow> CborValue \<Rightarrow> CborValue CryptoResult" where
  "require key v = and_then (get key v) (\<lambda>r. case r of
     Some x \<Rightarrow> if \<not> is_null x then Inr x else Inl (AttestationFailed (''the attestation document has no `'' @ key @ ''`''))
   | None \<Rightarrow> Inl (AttestationFailed (''the attestation document has no `'' @ key @ ''`'')))"

definition int_key :: "int \<Rightarrow> CborValue \<Rightarrow> bool" where
  "int_key key k = (case k of Unsigned n \<Rightarrow> n < 2 ^ 63 \<and> int n = key | Negative i \<Rightarrow> i = key | _ \<Rightarrow> False)"

definition get_int :: "int \<Rightarrow> string \<Rightarrow> CborValue \<Rightarrow> CborValue option CryptoResult" where
  "get_int key field v = and_then (as_map field v) (\<lambda>es. Inr (map_option snd (find (\<lambda>(k, _). int_key key k) es)))"

subsection \<open>The reader\<close>

definition cbor_take :: "nat \<Rightarrow> bytes \<Rightarrow> CryptoError + (bytes \<times> bytes)" where
  "cbor_take n bs =
     (if n > length bs
      then Inl (AttestationFailed (''the CBOR document declares '' @ show_nat (n - length bs) @ '' more bytes than it contains''))
      else Inr (take n bs, drop n bs))"

definition cbor_byte :: "bytes \<Rightarrow> CryptoError + (8 word \<times> bytes)" where
  "cbor_byte bs = and_then (cbor_take 1 bs) (\<lambda>(b, r). Inr (hd b, r))"

definition sized_argument :: "nat \<Rightarrow> bytes \<Rightarrow> CryptoError + (nat \<times> bytes)" where
  "sized_argument n bs = and_then (cbor_take n bs) (\<lambda>(b, r). Inr (be_value b, r))"

definition argument :: "8 word \<Rightarrow> bytes \<Rightarrow> CryptoError + (nat \<times> bytes)" where
  "argument initial bs = (let n = unat (initial AND 0x1F) in
     if n \<le> 23 then Inr (n, bs)
     else if n = 24 then sized_argument 1 bs
     else if n = 25 then sized_argument 2 bs
     else if n = 26 then sized_argument 4 bs
     else if n = 27 then sized_argument 8 bs
     else if n = 31 then Inl (AttestationFailed ''the CBOR document uses an indefinite-length item, which an attestation document does not'')
     else Inl (AttestationFailed (''the CBOR document uses reserved additional information '' @ show_nat n)))"

definition cbor_length :: "nat \<Rightarrow> string \<Rightarrow> bytes \<Rightarrow> CryptoError + nat" where
  "cbor_length declared unit bs =
     (if declared > length bs
      then Inl (AttestationFailed (''the CBOR document declares '' @ show_nat declared @ '' '' @ unit @ '' but only ''
             @ show_nat (length bs) @ '' bytes remain''))
      else Inr declared)"

definition count_item :: "nat \<Rightarrow> CryptoError + nat" where
  "count_item k = (if k + 1 > MAX_ITEMS
     then Inl (AttestationFailed (''the CBOR document holds more than '' @ show_nat MAX_ITEMS
            @ '' items; an attestation document holds fewer than a hundred''))
     else Inr (k + 1))"

definition simple_value :: "nat \<Rightarrow> CborValue CryptoResult" where
  "simple_value n = (if n = 20 then Inr (Bool False) else if n = 21 then Inr (Bool True) else if n = 22 then Inr Null
     else if n = 23 then Inl (AttestationFailed ''the CBOR document holds `undefined`, which is not a value a verifier can act on'')
     else Inl (AttestationFailed (''the CBOR document holds simple value or float '' @ show_nat n
            @ '', which an attestation document does not use'')))"

definition text_value :: "bytes \<Rightarrow> CborValue CryptoResult" where
  "text_value raw = (case from_utf8 raw of Some s \<Rightarrow> Inr (Text s)
     | None \<Rightarrow> Inl (AttestationFailed ''the CBOR document holds a text string that is not valid UTF-8''))"

definition negative_value :: "nat \<Rightarrow> CborValue CryptoResult" where
  "negative_value n = (if n < 2 ^ 63 then Inr (Negative (- 1 - int n))
     else Inl (AttestationFailed ''the CBOR document holds a negative integer too large to represent''))"

text \<open>
  \<^verbatim>\<open>value\<close> with its two loops.  The recursion ends because every nested call is one
  deeper and the depth is bounded, and each loop counts its elements down.
\<close>

function (sequential)
  cbor_value :: "nat \<Rightarrow> nat \<Rightarrow> bytes \<Rightarrow> CryptoError + ((CborValue \<times> nat) \<times> bytes)" and
  cbor_items :: "nat \<Rightarrow> nat \<Rightarrow> nat \<Rightarrow> bytes \<Rightarrow> CryptoError + ((CborValue list \<times> nat) \<times> bytes)" and
  cbor_entries :: "nat \<Rightarrow> nat \<Rightarrow> nat \<Rightarrow> bytes \<Rightarrow> CryptoError + (((CborValue \<times> CborValue) list \<times> nat) \<times> bytes)" where
  "cbor_value depth k bs =
     (if depth > MAX_DEPTH
      then Inl (AttestationFailed (''the CBOR document nests more than '' @ show_nat MAX_DEPTH @ '' deep''))
      else and_then (count_item k) (\<lambda>k1. and_then (cbor_byte bs) (\<lambda>(initial, r0).
        let major = unat (drop_bit 5 initial) in
        if major = 0 then and_then (argument initial r0) (\<lambda>(n, r). Inr ((Unsigned n, k1), r))
        else if major = 1 then and_then (argument initial r0) (\<lambda>(n, r). and_then (negative_value n) (\<lambda>v. Inr ((v, k1), r)))
        else if major = 2 then and_then (argument initial r0) (\<lambda>(n, r).
          and_then (cbor_length n ''bytes'' r) (\<lambda>len. and_then (cbor_take len r) (\<lambda>(b, r'). Inr ((Bytes b, k1), r'))))
        else if major = 3 then and_then (argument initial r0) (\<lambda>(n, r).
          and_then (cbor_length n ''bytes of text'' r) (\<lambda>len. and_then (cbor_take len r) (\<lambda>(b, r').
            and_then (text_value b) (\<lambda>v. Inr ((v, k1), r')))))
        else if major = 4 then and_then (argument initial r0) (\<lambda>(n, r).
          and_then (cbor_length n ''array elements'' r) (\<lambda>count.
            and_then (cbor_items (Suc depth) count k1 r) (\<lambda>((xs, k2), r'). Inr ((Array xs, k2), r'))))
        else if major = 5 then and_then (argument initial r0) (\<lambda>(n, r).
          and_then (cbor_length n ''map entries'' r) (\<lambda>count.
            and_then (cbor_entries (Suc depth) count k1 r) (\<lambda>((es, k2), r'). Inr ((Map es, k2), r'))))
        else if major = 6 then Inl (AttestationFailed ''the CBOR document uses a tag, which an attestation document does not'')
        else and_then (simple_value (unat (initial AND 0x1F))) (\<lambda>v. Inr ((v, k1), r0)))))"
| "cbor_items depth 0 k bs = Inr (([], k), bs)"
| "cbor_items depth (Suc n) k bs =
     and_then (cbor_value depth k bs) (\<lambda>((v, k1), r).
       and_then (cbor_items depth n k1 r) (\<lambda>((vs, k2), r'). Inr ((v # vs, k2), r')))"
| "cbor_entries depth 0 k bs = Inr (([], k), bs)"
| "cbor_entries depth (Suc n) k bs =
     and_then (cbor_value depth k bs) (\<lambda>((key, k1), r).
       and_then (cbor_value depth k1 r) (\<lambda>((v, k2), r').
         and_then (cbor_entries depth n k2 r') (\<lambda>((es, k3), r''). Inr (((key, v) # es, k3), r''))))"
  by pat_completeness auto

termination
  by (relation "measures [\<lambda>x. case x of Inl (d, _) \<Rightarrow> 17 - d | Inr (Inl (d, _)) \<Rightarrow> 17 - d | Inr (Inr (d, _)) \<Rightarrow> 17 - d,
      \<lambda>x. case x of Inl _ \<Rightarrow> 0 | Inr (Inl (_, n, _)) \<Rightarrow> n | Inr (Inr (_, n, _)) \<Rightarrow> n]")
    (auto simp: MAX_DEPTH_def)

declare cbor_value.simps [simp del]

definition decode :: "bytes \<Rightarrow> CborValue CryptoResult" where
  "decode bs = and_then (cbor_value 0 0 bs) (\<lambda>((v, _), rest).
     if rest \<noteq> [] then Inl (AttestationFailed (show_nat (length rest)
            @ '' bytes remain after the end of the CBOR document; something has been appended to it''))
     else Inr v)"

subsection \<open>The writer\<close>

definition initial_byte :: "nat \<Rightarrow> nat \<Rightarrow> 8 word" where
  "initial_byte major a = push_bit 5 (word_of_nat major) OR word_of_nat a"

definition write_header :: "nat \<Rightarrow> nat \<Rightarrow> bytes" where
  "write_header major a =
     (if a \<le> 23 then [initial_byte major a]
      else if a \<le> 0xFF then initial_byte major 24 # be_bytes 1 a
      else if a \<le> 0xFFFF then initial_byte major 25 # be_bytes 2 a
      else if a \<le> 0xFFFFFFFF then initial_byte major 26 # be_bytes 4 a
      else initial_byte major 27 # be_bytes 8 a)"

definition write_bytes :: "bytes \<Rightarrow> bytes" where
  "write_bytes b = write_header 2 (length b) @ b"

definition write_text :: "string \<Rightarrow> bytes" where
  "write_text s = write_header 3 (length s) @ bytes_of s"

definition sig_structure_single_signer :: "bytes \<Rightarrow> bytes \<Rightarrow> bytes \<Rightarrow> bytes" where
  "sig_structure_single_signer protected external_aad payload =
     write_header 4 4 @ write_text ''Signature1'' @ write_bytes protected @ write_bytes external_aad @ write_bytes payload"

subsection \<open>What a value weighs\<close>

text \<open>The items of a value, and its items together with the bytes its strings hold.\<close>

fun items_of :: "CborValue \<Rightarrow> nat" where
  "items_of (Array xs) = Suc (sum_list (map items_of xs))"
| "items_of (Map es) = Suc (sum_list (map (\<lambda>(k, v). items_of k + items_of v) es))"
| "items_of _ = 1"

fun weight :: "CborValue \<Rightarrow> nat" where
  "weight (Array xs) = Suc (sum_list (map weight xs))"
| "weight (Map es) = Suc (sum_list (map (\<lambda>(k, v). weight k + weight v) es))"
| "weight (Bytes b) = Suc (length b)"
| "weight (Text s) = Suc (length s)"
| "weight _ = 1"

fun fits :: "nat \<Rightarrow> CborValue \<Rightarrow> bool" where
  "fits d (Array xs) \<longleftrightarrow> d \<le> MAX_DEPTH \<and> list_all (fits (Suc d)) xs"
| "fits d (Map es) \<longleftrightarrow> d \<le> MAX_DEPTH \<and> list_all (\<lambda>(k, v). fits (Suc d) k \<and> fits (Suc d) v) es"
| "fits d _ \<longleftrightarrow> d \<le> MAX_DEPTH"

fun wf_value :: "CborValue \<Rightarrow> bool" where
  "wf_value (Unsigned n) \<longleftrightarrow> n < 2 ^ 64"
| "wf_value (Negative i) \<longleftrightarrow> - (2 ^ 63) \<le> i \<and> i < 0"
| "wf_value (Bytes b) \<longleftrightarrow> length b < 2 ^ 64"
| "wf_value (Text s) \<longleftrightarrow> length s < 2 ^ 64 \<and> valid_utf8 (map of_char s)"
| "wf_value (Array xs) \<longleftrightarrow> length xs < 2 ^ 64 \<and> list_all wf_value xs"
| "wf_value (Map es) \<longleftrightarrow> length es < 2 ^ 64 \<and> list_all (\<lambda>(k, v). wf_value k \<and> wf_value v) es"
| "wf_value _ \<longleftrightarrow> True"

lemma items_le_weight: "items_of v \<le> weight v"
proof (induction v rule: items_of.induct)
  case (1 xs)
  then show ?case by (auto intro!: sum_list_mono)
next
  case (2 es)
  then show ?case by (auto intro!: sum_list_mono add_mono)
qed auto

lemma items_pos: "0 < items_of v"
  by (cases v) auto

subsection \<open>The parts of the reader\<close>

lemma be_value_bound: "be_value b < 256 ^ length b"
proof (induction b rule: rev_induct)
  case (snoc x xs)
  have "be_value xs * 256 + unat x < (be_value xs + 1) * 256"
    using unsigned_less[of x, where ?'a = nat] by simp
  also have "\<dots> \<le> 256 ^ length xs * 256"
    using snoc by (intro mult_right_mono) auto
  finally show ?case by (simp add: be_value_snoc mult.commute)
qed (simp add: be_value_def)

lemma cbor_take_Inr: "cbor_take n bs = Inr (b, r) \<longleftrightarrow> bs = b @ r \<and> length b = n"
  by (auto simp: cbor_take_def)

lemma cbor_byte_Inr: "cbor_byte bs = Inr (b, r) \<longleftrightarrow> bs = b # r"
  by (cases bs) (auto simp: cbor_byte_def cbor_take_def)

lemma sized_argument_Inr:
  "sized_argument n bs = Inr (a, r) \<longleftrightarrow> (\<exists>b. bs = b @ r \<and> length b = n \<and> a = be_value b)"
  by (auto simp: sized_argument_def cbor_take_Inr)

lemma cbor_length_Inr: "cbor_length n u bs = Inr m \<longleftrightarrow> n \<le> length bs \<and> m = n"
  by (auto simp: cbor_length_def)

lemma count_item_Inr: "count_item k = Inr k1 \<longleftrightarrow> k1 = Suc k \<and> k1 \<le> MAX_ITEMS"
  by (auto simp: count_item_def)

lemma string_of_bytes_of [simp]: "string_of_bytes (bytes_of s) = s"
  by (simp add: string_of_bytes_def bytes_of_def unat_of_nat comp_def map_idI)

lemma of_char_string_of_bytes [simp]: "map of_char (string_of_bytes b) = map unat b"
proof -
  have "of_char (char_of (unat w) :: char) = unat w" for w :: "8 word"
    using unsigned_less[of w, where ?'a = nat] by (simp add: take_bit_eq_mod)
  then show ?thesis by (simp add: string_of_bytes_def)
qed

lemma bytes_of_string_of_bytes [simp]: "bytes_of (string_of_bytes b) = b"
  by (metis string_of_bytes_of string_of_bytes_inj)

lemma unat_bytes_of [simp]: "map unat (bytes_of s) = map of_char s"
  by (metis of_char_string_of_bytes string_of_bytes_of)

lemma text_value_Inr: "text_value b = Inr v \<longleftrightarrow> valid_utf8 (map unat b) \<and> v = Text (string_of_bytes b)"
  by (auto simp: text_value_def from_utf8_def)

lemma negative_value_Inr: "negative_value n = Inr v \<longleftrightarrow> n < 2 ^ 63 \<and> v = Negative (- 1 - int n)"
  by (auto simp: negative_value_def)

lemma simple_value_Inr: "simple_value n = Inr v \<Longrightarrow> v \<in> {Bool False, Bool True, Null}"
  by (auto simp: simple_value_def split: if_splits)

lemmas reader_Inr = cbor_take_Inr cbor_byte_Inr cbor_length_Inr count_item_Inr text_value_Inr negative_value_Inr

lemma argument_Inr:
  assumes "argument i bs = Inr (n, r)"
  obtains u where "bs = u @ r" "n < 2 ^ 64" "\<And>r'. argument i (u @ r') = Inr (n, r')"
proof -
  have "\<exists>u. bs = u @ r \<and> n < 2 ^ 64 \<and> (\<forall>r'. argument i (u @ r') = Inr (n, r'))"
  proof (cases "unat (i AND 0x1F) \<le> 23")
    case True
    then show ?thesis using assms by (intro exI[of _ "[]"]) (simp add: argument_def)
  next
    case False
    have lt: "be_value b < 18446744073709551616" if "length b \<in> {1, 2, 4, 8}" for b
      using be_value_bound[of b] that by auto
    show ?thesis
      using assms False by (auto simp: argument_def Let_def sized_argument_Inr lt split: if_splits)
  qed
  then show thesis using that by blast
qed

subsection \<open>Every accepted document is bounded\<close>

lemma sum_list_ge_length: "(\<And>x. x \<in> set xs \<Longrightarrow> (1::nat) \<le> f x) \<Longrightarrow> length xs \<le> sum_list (map f xs)"
  by (induction xs) fastforce+

lemma weight_pos: "1 \<le> weight v"
  using items_le_weight[of v] items_pos[of v] by simp

lemma cbor_value_Cons:
  assumes "d \<le> MAX_DEPTH" "Suc k \<le> MAX_ITEMS"
  shows "cbor_value d k (i # r0) =
    (let major = unat (drop_bit 5 i) in
     if major = 0 then and_then (argument i r0) (\<lambda>(n, r). Inr ((Unsigned n, Suc k), r))
     else if major = 1 then and_then (argument i r0) (\<lambda>(n, r). and_then (negative_value n) (\<lambda>v. Inr ((v, Suc k), r)))
     else if major = 2 then and_then (argument i r0) (\<lambda>(n, r).
       and_then (cbor_length n ''bytes'' r) (\<lambda>len. and_then (cbor_take len r) (\<lambda>(b, r'). Inr ((Bytes b, Suc k), r'))))
     else if major = 3 then and_then (argument i r0) (\<lambda>(n, r).
       and_then (cbor_length n ''bytes of text'' r) (\<lambda>len. and_then (cbor_take len r) (\<lambda>(b, r').
         and_then (text_value b) (\<lambda>v. Inr ((v, Suc k), r')))))
     else if major = 4 then and_then (argument i r0) (\<lambda>(n, r).
       and_then (cbor_length n ''array elements'' r) (\<lambda>count.
         and_then (cbor_items (Suc d) count (Suc k) r) (\<lambda>((xs, k2), r'). Inr ((Array xs, k2), r'))))
     else if major = 5 then and_then (argument i r0) (\<lambda>(n, r).
       and_then (cbor_length n ''map entries'' r) (\<lambda>count.
         and_then (cbor_entries (Suc d) count (Suc k) r) (\<lambda>((es, k2), r'). Inr ((Map es, k2), r'))))
     else if major = 6 then Inl (AttestationFailed ''the CBOR document uses a tag, which an attestation document does not'')
     else and_then (simple_value (unat (i AND 0x1F))) (\<lambda>v. Inr ((v, Suc k), r0)))"
proof -
  have "count_item k = Inr (Suc k)" "cbor_byte (i # r0) = Inr (i, r0)"
    using assms(2) by (simp_all add: count_item_Inr cbor_byte_Inr)
  then show ?thesis
    using assms(1) by (simp add: cbor_value.simps)
qed

lemma cbor_value_guard:
  assumes "cbor_value d k bs = Inr ((v, k'), rest)"
  obtains i r0 where "d \<le> MAX_DEPTH" "Suc k \<le> MAX_ITEMS" "bs = i # r0"
  using assms by (auto simp: cbor_value.simps reader_Inr split: if_splits)

lemma cbor_reads_leaf:
  assumes g: "d \<le> MAX_DEPTH" "Suc k \<le> MAX_ITEMS"
    and run: "cbor_value d k (i # r0) = Inr ((v, k'), rest)" and m: "unat (drop_bit 5 i) \<notin> {4, 5}"
  shows "k' = k + items_of v \<and> k' \<le> MAX_ITEMS \<and> fits d v \<and> wf_value v \<and>
    (\<exists>u. i # r0 = u @ rest \<and> weight v \<le> length u \<and> (\<forall>r'. cbor_value d k (u @ r') = Inr ((v, k'), r')))"
proof (cases "unat (drop_bit 5 i) \<in> {0, 1, 2, 3}")
  case True
  note unf = cbor_value_Cons[OF g, of i]
  obtain n r where a: "argument i r0 = Inr (n, r)"
    using run m True by (auto simp: unf Let_def split: if_splits)
  obtain u where u: "r0 = u @ r" "n < 2 ^ 64" "\<And>r'. argument i (u @ r') = Inr (n, r')"
    using argument_Inr[OF a] by blast
  show ?thesis
  proof (cases "unat (drop_bit 5 i) \<in> {0, 1}")
    case True
    then show ?thesis
      using run a u g by (auto simp: unf reader_Inr intro!: exI[of _ "i # u"])
  next
    case False
    then obtain b where b: "r = b @ rest" "length b = n"
      "v = Bytes b \<and> unat (drop_bit 5 i) = 2 \<or> v = Text (string_of_bytes b) \<and> valid_utf8 (map unat b) \<and> unat (drop_bit 5 i) = 3"
      "k' = Suc k"
      using run a True by (auto simp: unf reader_Inr)
    have "length (string_of_bytes b) = length b" by (simp add: string_of_bytes_def)
    then show ?thesis
      using b u g by (auto simp: unf cbor_length_def cbor_take_def text_value_def from_utf8_def intro!: exI[of _ "i # u @ b"])
  qed
next
  case False
  note unf = cbor_value_Cons[OF g, of i]
  obtain w where "simple_value (unat (i AND 0x1F)) = Inr w" "v = w" "k' = Suc k" "rest = r0" "unat (drop_bit 5 i) \<noteq> 6"
    using run m False by (auto simp: unf Let_def split: if_splits)
  then show ?thesis
    using simple_value_Inr[of "unat (i AND 0x1F)" w] m False g by (auto simp: unf Let_def run intro!: exI[of _ "[i]"])
qed

text \<open>What reading a value, a run of values or a run of entries establishes.\<close>

lemma cbor_reads:
  "cbor_value d k bs = Inr ((v, k'), rest) \<Longrightarrow>
     k' = k + items_of v \<and> k' \<le> MAX_ITEMS \<and> fits d v \<and> wf_value v \<and>
     (\<exists>u. bs = u @ rest \<and> weight v \<le> length u \<and> (\<forall>r'. cbor_value d k (u @ r') = Inr ((v, k'), r')))"
  "cbor_items d n k bs = Inr ((vs, k'), rest) \<Longrightarrow>
     length vs = n \<and> k' = k + sum_list (map items_of vs) \<and> (k \<le> MAX_ITEMS \<longrightarrow> k' \<le> MAX_ITEMS) \<and>
     list_all (fits d) vs \<and> list_all wf_value vs \<and>
     (\<exists>u. bs = u @ rest \<and> sum_list (map weight vs) \<le> length u \<and> (\<forall>r'. cbor_items d n k (u @ r') = Inr ((vs, k'), r')))"
  "cbor_entries d n k bs = Inr ((es, k'), rest) \<Longrightarrow>
     length es = n \<and> k' = k + sum_list (map (\<lambda>(a, b). items_of a + items_of b) es) \<and> (k \<le> MAX_ITEMS \<longrightarrow> k' \<le> MAX_ITEMS) \<and>
     list_all (\<lambda>(a, b). fits d a \<and> fits d b) es \<and> list_all (\<lambda>(a, b). wf_value a \<and> wf_value b) es \<and>
     (\<exists>u. bs = u @ rest \<and> sum_list (map (\<lambda>(a, b). weight a + weight b) es) \<le> length u \<and>
       (\<forall>r'. cbor_entries d n k (u @ r') = Inr ((es, k'), r')))"
proof (induction d k bs and d n k bs and d n k bs arbitrary: v k' rest and vs k' rest and es k' rest
    rule: cbor_value_cbor_items_cbor_entries.induct)
  case (1 d k bs)
  obtain i r0 where g: "d \<le> MAX_DEPTH" "Suc k \<le> MAX_ITEMS" and bs: "bs = i # r0"
    using cbor_value_guard[OF "1.prems"] by blast
  note unf = cbor_value_Cons[OF g, of i]
  let ?m = "unat (drop_bit 5 i)"
  have run: "cbor_value d k (i # r0) = Inr ((v, k'), rest)" using "1.prems" bs by simp
  have pre: "\<not> MAX_DEPTH < d" "count_item k = Inr (Suc k)" "cbor_byte bs = Inr (i, r0)"
    using g bs by (simp_all add: reader_Inr)
  consider (leaf) "?m \<notin> {4, 5}" | (array) "?m = 4" | (dict) "?m = 5" by blast
  then show ?case
  proof cases
    case leaf
    show ?thesis unfolding bs by (rule cbor_reads_leaf[OF g run leaf])
  next
    case array
    then obtain n r xs where a: "argument i r0 = Inr (n, r)" "n \<le> length r"
      and xs: "cbor_items (Suc d) n (Suc k) r = Inr ((xs, k'), rest)" and v: "v = Array xs"
      using run by (auto simp: unf reader_Inr)
    have ix: "length xs = n \<and> k' = Suc k + sum_list (map items_of xs) \<and> (Suc k \<le> MAX_ITEMS \<longrightarrow> k' \<le> MAX_ITEMS) \<and>
      list_all (fits (Suc d)) xs \<and> list_all wf_value xs \<and>
      (\<exists>u. r = u @ rest \<and> sum_list (map weight xs) \<le> length u \<and> (\<forall>r'. cbor_items (Suc d) n (Suc k) (u @ r') = Inr ((xs, k'), r')))"
      by (rule "1.IH"(1)[OF pre refl refl _ _ _ _ _ a(1) refl _ xs]) (use array a in \<open>simp_all add: reader_Inr\<close>)
    obtain ua where ua: "r0 = ua @ r" "n < 2 ^ 64" "\<And>r'. argument i (ua @ r') = Inr (n, r')"
      using argument_Inr[OF a(1)] by blast
    obtain u where u: "r = u @ rest" "sum_list (map weight xs) \<le> length u"
      "\<And>r'. cbor_items (Suc d) n (Suc k) (u @ r') = Inr ((xs, k'), r')"
      using ix by blast
    have "length xs \<le> length u" using u(2) sum_list_ge_length[of xs weight] weight_pos by force
    then have "cbor_value d k ((i # ua @ u) @ r') = Inr ((v, k'), r')" for r'
      using array ix by (simp add: unf ua u v cbor_length_def)
    then show ?thesis
      using ix g v bs ua u by (auto intro!: exI[of _ "i # ua @ u"])
  next
    case dict
    then obtain n r es where a: "argument i r0 = Inr (n, r)" "n \<le> length r"
      and es: "cbor_entries (Suc d) n (Suc k) r = Inr ((es, k'), rest)" and v: "v = Map es"
      using run by (auto simp: unf reader_Inr)
    have ie: "length es = n \<and> k' = Suc k + sum_list (map (\<lambda>(a, b). items_of a + items_of b) es) \<and> (Suc k \<le> MAX_ITEMS \<longrightarrow> k' \<le> MAX_ITEMS) \<and>
      list_all (\<lambda>(a, b). fits (Suc d) a \<and> fits (Suc d) b) es \<and> list_all (\<lambda>(a, b). wf_value a \<and> wf_value b) es \<and>
      (\<exists>u. r = u @ rest \<and> sum_list (map (\<lambda>(a, b). weight a + weight b) es) \<le> length u \<and>
        (\<forall>r'. cbor_entries (Suc d) n (Suc k) (u @ r') = Inr ((es, k'), r')))"
      by (rule "1.IH"(2)[OF pre refl refl _ _ _ _ _ _ a(1) refl _ es]) (use dict a in \<open>simp_all add: reader_Inr\<close>)
    obtain ua where ua: "r0 = ua @ r" "n < 2 ^ 64" "\<And>r'. argument i (ua @ r') = Inr (n, r')"
      using argument_Inr[OF a(1)] by blast
    obtain u where u: "r = u @ rest" "sum_list (map (\<lambda>(a, b). weight a + weight b) es) \<le> length u"
      "\<And>r'. cbor_entries (Suc d) n (Suc k) (u @ r') = Inr ((es, k'), r')"
      using ie by blast
    have "length es \<le> length u"
      using u(2) sum_list_ge_length[of es "\<lambda>(a, b). weight a + weight b"] weight_pos by (force simp: trans_le_add1)
    then have "cbor_value d k ((i # ua @ u) @ r') = Inr ((v, k'), r')" for r'
      using dict ie by (simp add: unf ua u v cbor_length_def)
    then show ?thesis
      using ie g v bs ua u by (auto intro!: exI[of _ "i # ua @ u"])
  qed
next
  case (2 depth k bs)
  then show ?case by simp
next
  case (3 depth n k bs)
  then obtain v k1 r ws where v: "cbor_value depth k bs = Inr ((v, k1), r)"
    and ws: "cbor_items depth n k1 r = Inr ((ws, k'), rest)" and vs: "vs = v # ws"
    by auto
  note iv = "3.IH"(1)[OF v]
  note iw = "3.IH"(2)[OF v refl refl ws]
  obtain u where u: "bs = u @ r" "weight v \<le> length u" "\<And>r'. cbor_value depth k (u @ r') = Inr ((v, k1), r')"
    using iv by blast
  obtain w where w: "r = w @ rest" "sum_list (map weight ws) \<le> length w" "\<And>r'. cbor_items depth n k1 (w @ r') = Inr ((ws, k'), r')"
    using iw by blast
  show ?case
    using iv iw u w vs by (auto intro!: exI[of _ "u @ w"])
next
  case (4 depth k bs)
  then show ?case by simp
next
  case (5 depth n k bs)
  then obtain a k1 r b k2 r2 fs where a: "cbor_value depth k bs = Inr ((a, k1), r)"
    and b: "cbor_value depth k1 r = Inr ((b, k2), r2)"
    and fs: "cbor_entries depth n k2 r2 = Inr ((fs, k'), rest)" and es: "es = (a, b) # fs"
    by auto
  note ia = "5.IH"(1)[OF a]
  note ib = "5.IH"(2)[OF a refl refl b]
  note ifs = "5.IH"(3)[OF a refl refl b refl refl fs]
  obtain u where u: "bs = u @ r" "weight a \<le> length u" "\<And>r'. cbor_value depth k (u @ r') = Inr ((a, k1), r')"
    using ia by blast
  obtain w where w: "r = w @ r2" "weight b \<le> length w" "\<And>r'. cbor_value depth k1 (w @ r') = Inr ((b, k2), r')"
    using ib by blast
  obtain x where x: "r2 = x @ rest" "sum_list (map (\<lambda>(a, b). weight a + weight b) fs) \<le> length x"
    "\<And>r'. cbor_entries depth n k2 (x @ r') = Inr ((fs, k'), r')"
    using ifs by blast
  show ?case
    using ia ib ifs u w x es by (auto intro!: exI[of _ "u @ w @ x"])
qed

subsection \<open>Encoding and decoding\<close>

text \<open>The encoding the reader accepts, with every header in its shortest form.\<close>

fun encode :: "CborValue \<Rightarrow> bytes" where
  "encode (Unsigned n) = write_header 0 n"
| "encode (Negative i) = write_header 1 (nat (- 1 - i))"
| "encode (Bytes b) = write_bytes b"
| "encode (Text s) = write_text s"
| "encode (Array xs) = write_header 4 (length xs) @ concat (map encode xs)"
| "encode (Map es) = write_header 5 (length es) @ concat (map (\<lambda>(k, v). encode k @ encode v) es)"
| "encode (Bool b) = [initial_byte 7 (if b then 21 else 20)]"
| "encode Null = [initial_byte 7 22]"

lemma initial_byte_parts:
  assumes "m < 8" "a < 32"
  shows "unat (drop_bit 5 (initial_byte m a)) = m" "unat (initial_byte m a AND 0x1F) = a"
proof -
  have "list_all (\<lambda>m. list_all (\<lambda>a. unat (drop_bit 5 (initial_byte m a)) = m \<and> unat (initial_byte m a AND 0x1F) = a) [0..<32]) [0..<8]"
    by code_simp
  then show "unat (drop_bit 5 (initial_byte m a)) = m" "unat (initial_byte m a AND 0x1F) = a"
    using assms by (auto simp: list_all_iff)
qed

lemma argument_header:
  assumes "m < 8" "n < 2 ^ 64"
  obtains i u where "write_header m n = i # u" "unat (drop_bit 5 i) = m" "\<And>r. argument i (u @ r) = Inr (n, r)"
proof -
  have sized: "sized_argument k (be_bytes k n @ r) = Inr (n, r)" if "n < 256 ^ k" for k r
    using that by (auto simp: sized_argument_Inr be_value_be_bytes)
  have "\<exists>i u. write_header m n = i # u \<and> unat (drop_bit 5 i) = m \<and> (\<forall>r. argument i (u @ r) = Inr (n, r))"
    using assms sized[of 1] sized[of 2] sized[of 4] sized[of 8]
    by (auto simp: write_header_def argument_def initial_byte_parts simp del: be_bytes.simps)
  then show thesis using that by blast
qed

definition decodes :: "nat \<Rightarrow> CborValue \<Rightarrow> bool" where
  "decodes d v \<longleftrightarrow> (\<forall>k rest. k + items_of v \<le> MAX_ITEMS \<longrightarrow> cbor_value d k (encode v @ rest) = Inr ((v, k + items_of v), rest))"

lemma cbor_items_encode:
  "\<forall>v \<in> set vs. decodes d v \<Longrightarrow> k + sum_list (map items_of vs) \<le> MAX_ITEMS \<Longrightarrow>
   cbor_items d (length vs) k (concat (map encode vs) @ rest) = Inr ((vs, k + sum_list (map items_of vs)), rest)"
  by (induction vs arbitrary: k) (simp_all add: decodes_def add.assoc)

lemma cbor_entries_encode:
  "\<forall>(a, b) \<in> set es. decodes d a \<and> decodes d b \<Longrightarrow> k + sum_list (map (\<lambda>(a, b). items_of a + items_of b) es) \<le> MAX_ITEMS \<Longrightarrow>
   cbor_entries d (length es) k (concat (map (\<lambda>(a, b). encode a @ encode b) es) @ rest)
     = Inr ((es, k + sum_list (map (\<lambda>(a, b). items_of a + items_of b) es)), rest)"
proof (induction es arbitrary: k)
  case (Cons e es)
  obtain a b where e: "e = (a, b)" by fastforce
  have "cbor_value d k (encode a @ x) = Inr ((a, k + items_of a), x)"
    "cbor_value d (k + items_of a) (encode b @ x) = Inr ((b, k + items_of a + items_of b), x)" for x
    using Cons.prems by (simp_all add: e decodes_def)
  then show ?case
    using Cons.IH[of "k + items_of a + items_of b"] Cons.prems by (simp add: e add.assoc)
qed simp

lemma write_header_nonempty: "0 < length (write_header m n)"
  by (simp add: write_header_def)

lemma encode_nonempty: "1 \<le> length (encode v)"
  using write_header_nonempty by (cases v) (auto simp: write_bytes_def write_text_def Suc_le_eq trans_less_add1)

lemma length_concat_ge: "(\<And>x. x \<in> set xs \<Longrightarrow> 1 \<le> length (f x)) \<Longrightarrow> length xs \<le> length (concat (map f xs))"
  by (induction xs) fastforce+

lemma cbor_value_encode: "wf_value v \<Longrightarrow> fits d v \<Longrightarrow> decodes d v"
proof (induction v arbitrary: d rule: encode.induct)
  case (1 n)
  obtain i u where h: "write_header 0 n = i # u" "unat (drop_bit 5 i) = 0" "\<And>r. argument i (u @ r) = Inr (n, r)"
    using 1 argument_header[of 0 n] by auto
  show ?case
    using 1 h by (auto simp: decodes_def cbor_value_Cons)
next
  case (2 j)
  have lt: "nat (- 1 - j) < 2 ^ 64" using 2 by auto
  obtain i u where h: "write_header 1 (nat (- 1 - j)) = i # u" "unat (drop_bit 5 i) = 1" "\<And>r. argument i (u @ r) = Inr (nat (- 1 - j), r)"
    using argument_header[of 1 "nat (- 1 - j)"] lt by auto
  have "negative_value (nat (- 1 - j)) = Inr (Negative j)"
    using 2 by (auto simp: negative_value_def)
  then show ?case
    using 2 h by (auto simp: decodes_def cbor_value_Cons)
next
  case (3 b)
  obtain i u where h: "write_header 2 (length b) = i # u" "unat (drop_bit 5 i) = 2" "\<And>r. argument i (u @ r) = Inr (length b, r)"
    by (rule argument_header[of 2 "length b"]) (use 3 in simp_all)
  show ?case
    using 3 h by (auto simp: decodes_def cbor_value_Cons write_bytes_def cbor_length_def cbor_take_def)
next
  case (4 s)
  obtain i u where h: "write_header 3 (length s) = i # u" "unat (drop_bit 5 i) = 3" "\<And>r. argument i (u @ r) = Inr (length s, r)"
    by (rule argument_header[of 3 "length s"]) (use 4 in simp_all)
  show ?case
    using 4 h by (auto simp: decodes_def cbor_value_Cons write_text_def cbor_length_def cbor_take_def text_value_def from_utf8_def)
next
  case (5 xs)
  obtain i u where h: "write_header 4 (length xs) = i # u" "unat (drop_bit 5 i) = 4" "\<And>r. argument i (u @ r) = Inr (length xs, r)"
    by (rule argument_header[of 4 "length xs"]) (use 5 in simp_all)
  have d: "\<forall>v \<in> set xs. decodes (Suc d) v"
    using 5 by (auto simp: list_all_iff)
  have "length xs \<le> length (concat (map encode xs))"
    by (rule length_concat_ge) (rule encode_nonempty)
  then show ?case
    using 5 h cbor_items_encode[OF d] by (auto simp: decodes_def cbor_value_Cons cbor_length_def)
next
  case (6 es)
  obtain i u where h: "write_header 5 (length es) = i # u" "unat (drop_bit 5 i) = 5" "\<And>r. argument i (u @ r) = Inr (length es, r)"
    by (rule argument_header[of 5 "length es"]) (use 6 in simp_all)
  have d: "\<forall>(a, b) \<in> set es. decodes (Suc d) a \<and> decodes (Suc d) b"
    using 6 by (fastforce simp: list_all_iff)
  have "length es \<le> length (concat (map (\<lambda>(a, b). encode a @ encode b) es))"
  proof (rule length_concat_ge)
    fix e :: "CborValue \<times> CborValue"
    show "1 \<le> length (case e of (a, b) \<Rightarrow> encode a @ encode b)"
      using encode_nonempty[of "fst e"] by (cases e) simp
  qed
  then show ?case
    using 6 h cbor_entries_encode[OF d] by (auto simp: decodes_def cbor_value_Cons cbor_length_def)
next
  case (7 b)
  then show ?case by (auto simp: decodes_def cbor_value_Cons initial_byte_parts simple_value_def)
next
  case 8
  then show ?case by (auto simp: decodes_def cbor_value_Cons initial_byte_parts simple_value_def)
qed

interpretation cbor_rd: prefix_reader "cbor_value d k" for d k
proof unfold_locales
  fix bs rest and x :: "CborValue \<times> nat"
  assume "cbor_value d k bs = Inr (x, rest)"
  then show "\<exists>used. bs = used @ rest" using cbor_reads(1) by (metis prod.collapse)
next
  fix used rest rest' and x :: "CborValue \<times> nat"
  assume r: "cbor_value d k (used @ rest) = Inr (x, rest)"
  obtain v k' where x: "x = (v, k')" by fastforce
  show "cbor_value d k (used @ rest') = Inr (x, rest')"
    using cbor_reads(1)[OF r[unfolded x]] by (auto simp: x)
qed

subsection \<open>Properties\<close>

text \<open>C37. Reading a document ends for every input, and a document that is accepted costs no
  more than it is long: its items and the bytes its strings hold number at most the bytes of
  the document, there are at most 4096 items, nesting stays within sixteen levels below the
  root, every integer fits its 64 bits and every text is valid UTF-8.\<close>

theorem decoded_document_bounded:
  assumes "decode bs = Inr v"
  shows "weight v \<le> length bs \<and> items_of v \<le> 4096 \<and> fits 0 v \<and> wf_value v"
proof -
  obtain k where "cbor_value 0 0 bs = Inr ((v, k), [])"
    using assms by (auto simp: decode_def split: if_splits)
  then show ?thesis
    using cbor_reads(1)[of 0 0 bs v k "[]"] by (auto simp: MAX_ITEMS_def)
qed

theorem decoded_document_bounded_witness:
  "weight (Array [Unsigned 1, Bytes [255]]) \<le> length [0x82, 0x01, 0x41, 0xFF :: 8 word]"
proof -
  have "decode [0x82, 0x01, 0x41, 0xFF] = Inr (Array [Unsigned 1, Bytes [255]])"
    by code_simp
  from decoded_document_bounded[OF this] show ?thesis by blast
qed

lemma cbor_value_encode_root:
  "wf_value v \<Longrightarrow> fits 0 v \<Longrightarrow> items_of v \<le> 4096 \<Longrightarrow> cbor_value 0 0 (encode v @ r) = Inr ((v, items_of v), r)"
  using cbor_value_encode[of v 0] by (simp add: decodes_def MAX_ITEMS_def)

lemma decode_encode: "wf_value v \<Longrightarrow> fits 0 v \<Longrightarrow> items_of v \<le> 4096 \<Longrightarrow> decode (encode v) = Inr v"
  using cbor_value_encode_root[of v "[]"] by (simp add: decode_def)

text \<open>C38. Every value within the reader's limits is what its encoding decodes to, and nothing
  may follow it: with bytes appended the document is refused.\<close>

theorem cbor_round_trip:
  assumes "wf_value v" "fits 0 v" "items_of v \<le> 4096"
  shows "decode (encode v) = Inr v \<and> (\<forall>extra. extra \<noteq> [] \<longrightarrow> isl (decode (encode v @ extra)))"
  using decode_encode[OF assms] cbor_value_encode_root[OF assms] by (simp add: decode_def)

theorem cbor_round_trip_witness:
  "decode (encode (Map [(Text ''pcrs'', Array [Negative (- 35), Null])])) = Inr (Map [(Text ''pcrs'', Array [Negative (- 35), Null])])"
  using cbor_round_trip[of "Map [(Text ''pcrs'', Array [Negative (- 35), Null])]"] by (simp add: MAX_DEPTH_def)

text \<open>The structure a signature covers, read back.\<close>

lemma sig_structure_encodes:
  "sig_structure_single_signer p aad m = encode (Array [Text ''Signature1'', Bytes p, Bytes aad, Bytes m])"
  by (simp add: sig_structure_single_signer_def write_bytes_def eval_nat_numeral)

lemma sig_structure_decodes:
  "length p < 2 ^ 64 \<Longrightarrow> length aad < 2 ^ 64 \<Longrightarrow> length m < 2 ^ 64 \<Longrightarrow>
   decode (sig_structure_single_signer p aad m) = Inr (Array [Text ''Signature1'', Bytes p, Bytes aad, Bytes m])"
  unfolding sig_structure_encodes
  by (rule decode_encode) (simp_all add: MAX_DEPTH_def)

text \<open>What a signature covers determines the protected header, the additional data and
  the payload: no two documents share a signed structure, so a signature does not carry over
  to a document whose algorithm or payload was changed.\<close>

theorem signed_structure_injective:
  assumes "length p < 2 ^ 64" "length a < 2 ^ 64" "length m < 2 ^ 64"
    and "length p' < 2 ^ 64" "length a' < 2 ^ 64" "length m' < 2 ^ 64"
    and "sig_structure_single_signer p a m = sig_structure_single_signer p' a' m'"
  shows "p = p' \<and> a = a' \<and> m = m'"
  using sig_structure_decodes[OF assms(1-3)] sig_structure_decodes[OF assms(4-6)] unfolding assms(7) by simp

theorem signed_structure_injective_witness:
  "sig_structure_single_signer [1] [] [2] \<noteq> sig_structure_single_signer [1, 0x40] [] [2]"
  using signed_structure_injective[of "[1]" "[]" "[2]" "[1, 0x40]" "[]" "[2]"] by auto

subsection \<open>Keys\<close>

lemma get_loop_Inr:
  "get_loop key found es = Inr r \<Longrightarrow>
   length (filter (\<lambda>(k, _). k = Text key) es) + (if found = None then 0 else 1) \<le> 1 \<and>
   r = (case found of Some v \<Rightarrow> Some v | None \<Rightarrow> map_of es (Text key))"
proof (induction es arbitrary: found)
  case (Cons e es)
  obtain k v where e: "e = (k, v)" by fastforce
  show ?case
  proof (cases "k = Text key")
    case True
    then have n: "found = None" "get_loop key (Some v) es = Inr r"
      using Cons.prems by (auto simp: e split: if_splits)
    show ?thesis using Cons.IH[OF n(2)] True n(1) by (simp add: e)
  next
    case False
    then show ?thesis using Cons.IH[of found] Cons.prems by (simp add: e split: option.splits)
  qed
qed (simp split: option.split)

text \<open>A key that is found is found once.\<close>

lemma get_unique:
  "get key (Map es) = Inr r \<Longrightarrow> length (filter (\<lambda>(k, _). k = Text key) es) \<le> 1 \<and> r = map_of es (Text key)"
  using get_loop_Inr[of key None es r] by (simp add: get_def as_map_def)

text \<open>An integer key is found at its first entry, however many follow.\<close>

lemma get_int_takes_first:
  "get_int key field (Map ((Unsigned n, v) # es)) = Inr (Some v)" if "int n = key" "n < 2 ^ 63"
  using that by (simp add: get_int_def as_map_def int_key_def)

end
