(* ===== verification/Nitro.thy ===== *)
theory Nitro
  imports X509Chain Cbor
begin

text \<open>
  AWS Nitro Enclaves attestation documents, \<^verbatim>\<open>cordon-crypto/src/nitro.rs\<close>: the COSE envelope,
  the document in it, and its verification against what an operator pinned.
\<close>

definition COSE_HEADER_ALG :: int where "COSE_HEADER_ALG = 1"
definition COSE_ALG_ES384 :: int where "COSE_ALG_ES384 = - 35"
definition ES384_SIGNATURE_LEN :: nat where "ES384_SIGNATURE_LEN = 96"
definition PCR_LEN :: nat where "PCR_LEN = 48"
definition PCR_COUNT :: nat where "PCR_COUNT = 32"
definition MAX_NONCE_LEN :: nat where "MAX_NONCE_LEN = 512"
definition MAX_USER_DATA_LEN :: nat where "MAX_USER_DATA_LEN = 512"
definition MAX_PUBLIC_KEY_LEN :: nat where "MAX_PUBLIC_KEY_LEN = 1024"

record CoseSign1 =
  cose_protected :: bytes
  cose_payload :: bytes
  cose_signature :: bytes

definition cose_algorithm :: "bytes \<Rightarrow> int CryptoResult" where
  "cose_algorithm protected = and_then (decode protected) (\<lambda>header.
     and_then (get_int COSE_HEADER_ALG ''COSE protected header'' header) (\<lambda>r.
       case r of None \<Rightarrow> Inl (AttestationFailed ''the COSE protected header names no signature algorithm'')
       | Some v \<Rightarrow> as_i64 ''alg'' v))"

definition cose_parse :: "bytes \<Rightarrow> CoseSign1 CryptoResult" where
  "cose_parse bs =
     and_then (decode bs) (\<lambda>value.
     and_then (as_array ''COSE_Sign1'' value) (\<lambda>items.
     if length items \<noteq> 4
     then Inl (AttestationFailed (''a COSE_Sign1 structure has four elements; this one has '' @ show_nat (length items)))
     else and_then (as_bytes ''COSE protected header'' (items ! 0)) (\<lambda>protected.
     and_then (as_bytes ''COSE payload'' (items ! 2)) (\<lambda>payload.
     and_then (as_bytes ''COSE signature'' (items ! 3)) (\<lambda>sg.
     and_then (cose_algorithm protected) (\<lambda>alg.
     if alg \<noteq> COSE_ALG_ES384
     then Inl (AttestationFailed (''the document is signed with COSE algorithm '' @ show_int alg @ '', but a Nitro attestation document uses ''
            @ show_int COSE_ALG_ES384 @ '' (ES384, ECDSA P-384 with SHA-384)''))
     else if length sg \<noteq> ES384_SIGNATURE_LEN
     then Inl (AttestationFailed (''an ES384 signature is '' @ show_nat ES384_SIGNATURE_LEN @ '' bytes; this one is '' @ show_nat (length sg)))
     else if payload = []
     then Inl (AttestationFailed ''the COSE_Sign1 carries no payload, so there is no attestation document in it to verify'')
     else Inr \<lparr>cose_protected = protected, cose_payload = payload, cose_signature = sg\<rparr>))))))"

definition signed_bytes :: "CoseSign1 \<Rightarrow> bytes" where
  "signed_bytes c = sig_structure_single_signer (cose_protected c) [] (cose_payload c)"

subsection \<open>The document\<close>

record NitroAttestationDoc =
  module_id :: string
  timestamp_ms :: nat
  doc_digest :: string
  pcrs :: "(nat \<times> bytes) list"
  doc_certificate :: bytes
  cabundle :: "bytes list"
  doc_public_key :: "bytes option"
  doc_user_data :: "bytes option"
  doc_nonce :: "bytes option"

text \<open>The registers, ascending by index as a \<^verbatim>\<open>BTreeMap\<close> holds them.\<close>

fun read_pcrs :: "(nat \<times> bytes) list \<Rightarrow> (CborValue \<times> CborValue) list \<Rightarrow> (nat \<times> bytes) list CryptoResult" where
  "read_pcrs acc [] = Inr (sort_key fst acc)"
| "read_pcrs acc ((key, value) # es) =
     and_then (as_u64 ''PCR index'' key) (\<lambda>index.
     if index \<ge> PCR_COUNT
     then Inl (AttestationFailed (''the attestation document reports PCR '' @ show_nat index @ '', but the Nitro Security Module has ''
            @ show_nat PCR_COUNT @ '' of them''))
     else and_then (as_bytes ''PCR value'' value) (\<lambda>b.
     if length b \<noteq> PCR_LEN
     then Inl (AttestationFailed (''PCR '' @ show_nat index @ '' is '' @ show_nat (length b) @ '' bytes; a SHA-384 measurement is '' @ show_nat PCR_LEN))
     else if map_of acc index \<noteq> None
     then Inl (AttestationFailed (''the attestation document reports PCR '' @ show_nat index @ '' twice''))
     else read_pcrs ((index, b) # acc) es))"

fun read_bundle :: "nat \<Rightarrow> CborValue list \<Rightarrow> bytes list CryptoResult" where
  "read_bundle i [] = Inr []"
| "read_bundle i (entry # es) = and_then (as_bytes ''cabundle entry'' entry) (\<lambda>der.
     if der = [] then Inl (AttestationFailed (''cabundle entry '' @ show_nat i @ '' is empty''))
     else and_then (read_bundle (Suc i) es) (\<lambda>ds. Inr (der # ds)))"

definition optional_bytes :: "CborValue \<Rightarrow> string \<Rightarrow> nat \<Rightarrow> bytes option CryptoResult" where
  "optional_bytes doc key most = and_then (get key doc) (\<lambda>r. case r of
     None \<Rightarrow> Inr None
   | Some v \<Rightarrow> if is_null v then Inr None
     else and_then (as_bytes key v) (\<lambda>b.
       if length b > most
       then Inl (AttestationFailed (''`'' @ key @ ''` is '' @ show_nat (length b) @ '' bytes; the Nitro Security Module accepts at most '' @ show_nat most))
       else if b = [] then Inr None else Inr (Some b)))"

definition doc_parse :: "bytes \<Rightarrow> NitroAttestationDoc CryptoResult" where
  "doc_parse payload =
     and_then (decode payload) (\<lambda>doc.
     and_then (and_then (require ''module_id'' doc) (as_text ''module_id'')) (\<lambda>mid.
     if mid = [] then Inl (AttestationFailed ''the attestation document names no enclave'')
     else and_then (and_then (require ''timestamp'' doc) (as_u64 ''timestamp'')) (\<lambda>ts.
     and_then (and_then (require ''digest'' doc) (as_text ''digest'')) (\<lambda>dig.
     if dig \<noteq> ''SHA384''
     then Inl (AttestationFailed (''the attestation document declares PCR digest `'' @ dig @ ''`; Cordon verifies SHA384, which is what the Nitro Security Module emits''))
     else and_then (and_then (require ''pcrs'' doc) (as_map ''pcrs'')) (\<lambda>es.
     and_then (read_pcrs [] es) (\<lambda>ps.
     if ps = [] then Inl (AttestationFailed ''the attestation document reports no PCRs, so there is nothing in it that identifies which enclave image is running'')
     else and_then (and_then (require ''certificate'' doc) (as_bytes ''certificate'')) (\<lambda>cert.
     if cert = [] then Inl (AttestationFailed ''the attestation document carries an empty certificate'')
     else and_then (and_then (require ''cabundle'' doc) (as_array ''cabundle'')) (\<lambda>entries.
     and_then (read_bundle 0 entries) (\<lambda>bundle.
     if bundle = [] then Inl (AttestationFailed ''the attestation document carries no certificate bundle, so its leaf certificate chains to nothing'')
     else and_then (optional_bytes doc ''public_key'' MAX_PUBLIC_KEY_LEN) (\<lambda>pk.
     and_then (optional_bytes doc ''user_data'' MAX_USER_DATA_LEN) (\<lambda>ud.
     and_then (optional_bytes doc ''nonce'' MAX_NONCE_LEN) (\<lambda>nonce.
       Inr \<lparr>module_id = mid, timestamp_ms = ts, doc_digest = dig, pcrs = ps, doc_certificate = cert, cabundle = bundle,
         doc_public_key = pk, doc_user_data = ud, doc_nonce = nonce\<rparr>))))))))))))"

definition pcr_hex :: "attest_env \<Rightarrow> NitroAttestationDoc \<Rightarrow> nat \<Rightarrow> string option" where
  "pcr_hex E d index = map_option (ae_hex E) (map_of (pcrs d) index)"

definition pcrs_hex :: "attest_env \<Rightarrow> NitroAttestationDoc \<Rightarrow> (nat \<times> string) list" where
  "pcrs_hex E d = map (\<lambda>(i, v). (i, ae_hex E v)) (pcrs d)"

definition intermediates :: "NitroAttestationDoc \<Rightarrow> bytes list" where
  "intermediates d = rev (drop 1 (cabundle d))"

subsection \<open>Verification\<close>

record NitroExpectations =
  ne_root_der :: bytes
  ne_pcrs :: "(nat \<times> string) list"
  ne_max_age_seconds :: nat

record NitroVerification =
  nv_signature_valid :: bool
  nv_certificate_chain_valid :: bool
  nv_chain_currently_valid :: bool
  nv_nonce_matches :: bool
  nv_pcrs_match :: bool
  nv_fresh :: bool

definition nv_fully_verified :: "NitroVerification \<Rightarrow> bool" where
  "nv_fully_verified v \<longleftrightarrow> nv_signature_valid v \<and> nv_certificate_chain_valid v \<and> nv_chain_currently_valid v
     \<and> nv_nonce_matches v \<and> nv_pcrs_match v \<and> nv_fresh v"

definition nv_first_failure :: "NitroVerification \<Rightarrow> string option" where
  "nv_first_failure v =
     (if \<not> nv_signature_valid v then Some (''the attestation document'' @ [CHR 0x27] @ ''s signature does not verify under the certificate it carries, so the document has been altered or was never signed by an NSM'')
      else if \<not> nv_certificate_chain_valid v then Some (''the document'' @ [CHR 0x27] @ ''s certificate does not chain to the pinned AWS Nitro root, so it was signed by something other than genuine Nitro hardware; a valid signature under an unknown key proves only that its author owns that key'')
      else if \<not> nv_chain_currently_valid v then Some ''a certificate in the chain is outside its validity window; a Nitro leaf certificate lives about three hours, so this document is stale rather than forged''
      else if \<not> nv_nonce_matches v then Some (''the document does not commit to this request'' @ [CHR 0x27] @ ''s challenge, so it may be a genuine document captured from an earlier exchange and replayed'')
      else if \<not> nv_pcrs_match v then Some (''the enclave'' @ [CHR 0x27] @ ''s measurements do not match the pinned values: this is genuine Nitro hardware running something other than the image you pinned'')
      else if \<not> nv_fresh v then Some ''the attestation document is older than the configured freshness bound''
      else None)"

fun bundle_valid :: "attest_env \<Rightarrow> bool \<Rightarrow> bytes list \<Rightarrow> bool CryptoResult" where
  "bundle_valid E valid [] = Inr valid"
| "bundle_valid E valid (der # ds) = and_then (is_currently_valid E der) (\<lambda>ok. bundle_valid E (valid \<and> ok) ds)"

text \<open>\<^verbatim>\<open>saturating_mul\<close> and \<^verbatim>\<open>abs_diff\<close> on \<^verbatim>\<open>u64\<close>.\<close>

definition nitro_fresh :: "nat \<Rightarrow> nat \<Rightarrow> nat \<Rightarrow> bool" where
  "nitro_fresh max_age now_ms ts = (if max_age = 0 then True
     else nat (abs (int now_ms - int ts)) \<le> min (max_age * 1000) u64_max)"

definition verify_document :: "attest_env \<Rightarrow> bytes \<Rightarrow> bytes \<Rightarrow> NitroExpectations \<Rightarrow> nat
   \<Rightarrow> (NitroAttestationDoc \<times> NitroVerification) CryptoResult" where
  "verify_document E document expected_challenge x now_ms =
     and_then (cose_parse document) (\<lambda>envelope.
     and_then (doc_parse (cose_payload envelope)) (\<lambda>doc.
     and_then (public_key_bytes E (doc_certificate doc)) (\<lambda>key.
     and_then (if ne_root_der x = [] then Inr False
       else verify_chain_to_root E (doc_certificate doc) (intermediates doc) (ne_root_der x)) (\<lambda>chain_valid.
     and_then (is_currently_valid E (doc_certificate doc)) (\<lambda>leaf_valid.
     and_then (bundle_valid E leaf_valid (cabundle doc)) (\<lambda>currently_valid.
       Inr (doc, \<lparr>nv_signature_valid = ae_verify E ECDSA_P384_SHA384_FIXED key (signed_bytes envelope) (cose_signature envelope),
         nv_certificate_chain_valid = chain_valid, nv_chain_currently_valid = currently_valid,
         nv_nonce_matches = (if expected_challenge = [] then False
           else (case doc_nonce doc of None \<Rightarrow> False | Some n \<Rightarrow> ct_eq n expected_challenge)),
         nv_pcrs_match = (if ne_pcrs x = [] then False
           else list_all (\<lambda>(i, e). (case pcr_hex E doc i of None \<Rightarrow> False
             | Some a \<Rightarrow> ct_eq (bytes_of a) (bytes_of (to_lower e)))) (ne_pcrs x)),
         nv_fresh = nitro_fresh (ne_max_age_seconds x) now_ms (timestamp_ms doc)\<rparr>)))))))"
subsection \<open>What a verified document establishes\<close>

lemma nv_first_failure_None: "nv_first_failure v = None \<longleftrightarrow> nv_fully_verified v"
  by (simp add: nv_first_failure_def nv_fully_verified_def)

lemma read_pcrs_Inr:
  assumes "read_pcrs acc es = Inr ps" "distinct (map fst acc)" "\<forall>p \<in> set acc. fst p < PCR_COUNT \<and> length (snd p) = PCR_LEN"
  shows "distinct (map fst ps) \<and> sorted (map fst ps) \<and> (\<forall>p \<in> set ps. fst p < PCR_COUNT \<and> length (snd p) = PCR_LEN)"
  using assms
proof (induction acc es rule: read_pcrs.induct)
  case (1 acc)
  have "distinct (map fst (sort_key fst acc))"
    using 1 by (metis distinct_sort distinct_map set_sort)
  then show ?case using 1 by auto
next
  case (2 acc key val es)
  then show ?case by (auto split: if_splits simp: map_of_eq_None_iff)
qed

lemma cose_parse_Inr:
  "cose_parse bs = Inr c \<Longrightarrow> length (cose_signature c) = 96 \<and> cose_payload c \<noteq> []
     \<and> cose_algorithm (cose_protected c) = Inr COSE_ALG_ES384"
  by (auto simp: cose_parse_def ES384_SIGNATURE_LEN_def split: if_splits)

lemma doc_parse_pcrs:
  "doc_parse p = Inr d \<Longrightarrow> pcrs d \<noteq> [] \<and> distinct (map fst (pcrs d)) \<and> (\<forall>p \<in> set (pcrs d). fst p < 32 \<and> length (snd p) = 48)"
  using read_pcrs_Inr[of "[]"] by (fastforce simp: doc_parse_def PCR_COUNT_def PCR_LEN_def split: if_splits)

lemma bundle_valid_True: "bundle_valid E v ds = Inr True \<Longrightarrow> v \<and> (\<forall>d \<in> set ds. is_currently_valid E d = Inr True)"
  by (induction E v ds rule: bundle_valid.induct) auto

text \<open>A document says nothing its signer did not sign: every field of it is read from the
  payload, and the payload is a component of the structure the signature covers.\<close>

lemma verify_document_Inr:
  assumes "verify_document E d ch x now = Inr (doc, v)" "nv_fully_verified v"
  shows "\<exists>c cert. cose_parse d = Inr c \<and> doc_parse (cose_payload c) = Inr doc \<and> ae_x509 E (doc_certificate doc) = Inr cert
    \<and> ae_verify E ECDSA_P384_SHA384_FIXED (cert_key cert) (signed_bytes c) (cose_signature c)
    \<and> ne_root_der x \<noteq> [] \<and> chains_to E (doc_certificate doc) (intermediates doc) (ne_root_der x)
    \<and> (\<forall>der \<in> set (doc_certificate doc # cabundle doc). is_currently_valid E der = Inr True)
    \<and> ch \<noteq> [] \<and> doc_nonce doc = Some ch \<and> ne_pcrs x \<noteq> []
    \<and> (\<forall>(i, e) \<in> set (ne_pcrs x). pcr_hex E doc i = Some (to_lower e))
    \<and> nitro_fresh (ne_max_age_seconds x) now (timestamp_ms doc)"
proof -
  obtain c cert lv where p: "cose_parse d = Inr c" "doc_parse (cose_payload c) = Inr doc" "ae_x509 E (doc_certificate doc) = Inr cert"
    "ae_verify E ECDSA_P384_SHA384_FIXED (cert_key cert) (signed_bytes c) (cose_signature c)"
    "ne_root_der x \<noteq> []" "verify_chain_to_root E (doc_certificate doc) (intermediates doc) (ne_root_der x) = Inr True"
    "is_currently_valid E (doc_certificate doc) = Inr lv" "bundle_valid E lv (cabundle doc) = Inr True"
    "ch \<noteq> []" "doc_nonce doc = Some ch" "ne_pcrs x \<noteq> []" "nitro_fresh (ne_max_age_seconds x) now (timestamp_ms doc)"
    "list_all (\<lambda>(i, e). (case pcr_hex E doc i of None \<Rightarrow> False | Some a \<Rightarrow> ct_eq (bytes_of a) (bytes_of (to_lower e)))) (ne_pcrs x)"
    using assms by (auto simp: verify_document_def nv_fully_verified_def public_key_bytes_def split: if_splits option.splits)
  moreover have "\<forall>(i, e) \<in> set (ne_pcrs x). pcr_hex E doc i = Some (to_lower e)"
    using p(13) by (fastforce simp: list_all_iff split: option.splits)
  ultimately show ?thesis
    using bundle_valid_True[OF p(8)] by (auto simp: verify_chain_True)
qed

end
