(* ===== verification/Attestation.thy ===== *)
theory Attestation
  imports Tpm2 SevSnp Nitro
begin

text \<open>
  Attestation reports and the client-side verifier, \<^verbatim>\<open>cordon-crypto/src/attestation.rs\<close>: the
  report's parts and their canonical encoding, the challenge a platform commits to, and
  verification against what an operator pinned.  A \<^verbatim>\<open>BTreeMap\<close> is the list of its entries,
  ascending by key; the clock a Nitro document is compared with is an argument.
\<close>

definition CHALLENGE_DOMAIN :: string where "CHALLENGE_DOMAIN = ''CORDON_ATTEST_CHALLENGE_v1''"

subsection \<open>Register snapshots\<close>

type_synonym TpmPcrSet = "(nat \<times> string) list"

fun pcr_set :: "TpmPcrSet \<Rightarrow> nat \<Rightarrow> string \<Rightarrow> TpmPcrSet" where
  "pcr_set [] k v = [(k, v)]"
| "pcr_set ((k', v') # m) k v = (if k < k' then (k, v) # (k', v') # m else if k = k' then (k, v) # m else (k', v') # pcr_set m k v)"

definition pcr_get :: "TpmPcrSet \<Rightarrow> nat \<Rightarrow> string option" where
  "pcr_get m k = map_of m k"

definition strip_prefix :: "string \<Rightarrow> string \<Rightarrow> string" where
  "strip_prefix p s = (if take (length p) s = p then drop (length p) s else s)"

fun raw_values_in_index_order :: "attest_env \<Rightarrow> TpmPcrSet \<Rightarrow> (nat \<times> bytes) list" where
  "raw_values_in_index_order E [] = []"
| "raw_values_in_index_order E ((i, v) # m) = (case ae_unhex E (strip_prefix ''sha256:'' v) of
     Inl _ \<Rightarrow> raw_values_in_index_order E m
   | Inr b \<Rightarrow> (i, b) # raw_values_in_index_order E m)"

fun verify_against :: "TpmPcrSet \<Rightarrow> TpmPcrSet \<Rightarrow> unit CryptoResult" where
  "verify_against m [] = Inr ()"
| "verify_against m ((i, e) # es) = (case pcr_get m i of
     None \<Rightarrow> Inl (AttestationFailed (''PCR['' @ show_nat i @ ''] missing from attestation report''))
   | Some a \<Rightarrow> if \<not> ct_eq (bytes_of a) (bytes_of e) then Inl (PcrMismatch i e a) else verify_against m es)"

definition pcr_set_fields :: "TpmPcrSet \<Rightarrow> field list" where
  "pcr_set_fields m = FU32 (word_of_nat (length m)) # concat (map (\<lambda>(i, v). [FU8 (word_of_nat i), FBlob (bytes_of v)]) m)"

definition pcr_set_canonical :: "TpmPcrSet \<Rightarrow> bytes" where
  "pcr_set_canonical m = canonical_bytes ''pcr_set'' (pcr_set_fields m)"

subsection \<open>Quotes and evidence\<close>

record TpmQuote =
  q_pcr_values :: TpmPcrSet
  q_aik_public_key_hex :: string
  q_attest_message_hex :: string
  q_quote_signature_hex :: string
  q_nonce :: string
  q_timestamp :: datetime
  q_ek_cert_chain :: "string list"

definition has_hardware_evidence :: "TpmQuote \<Rightarrow> bool" where
  "has_hardware_evidence q \<longleftrightarrow> q_attest_message_hex q \<noteq> [] \<and> q_quote_signature_hex q \<noteq> [] \<and> q_aik_public_key_hex q \<noteq> []"

text \<open>\<^verbatim>\<open>timestamp_millis\<close> rounds towards the past.\<close>

definition timestamp_millis :: "datetime \<Rightarrow> int" where
  "timestamp_millis t = t div 1000000"

definition str_fields :: "string list \<Rightarrow> field list" where
  "str_fields ss = map (\<lambda>s. FBlob (bytes_of s)) ss"

definition tpm_quote_canonical :: "TpmQuote \<Rightarrow> bytes" where
  "tpm_quote_canonical q = canonical_bytes ''tpm_quote''
     ([FBlob (pcr_set_canonical (q_pcr_values q)), FBlob (bytes_of (q_aik_public_key_hex q)), FBlob (bytes_of (q_attest_message_hex q)),
       FBlob (bytes_of (q_quote_signature_hex q)), FBlob (bytes_of (q_nonce q)), FI64 (word_of_int (timestamp_millis (q_timestamp q))),
       FU32 (word_of_nat (length (q_ek_cert_chain q)))] @ str_fields (q_ek_cert_chain q))"

datatype TeeType = TeeIntelSgxV2 | TeeAmdSevSnp | TeeArmTrustZone | TeeSimulation

definition tee_type_display :: "TeeType \<Rightarrow> string" where
  "tee_type_display t = (case t of TeeIntelSgxV2 \<Rightarrow> ''intel_sgx_v2'' | TeeAmdSevSnp \<Rightarrow> ''amd_sev_snp''
     | TeeArmTrustZone \<Rightarrow> ''arm_trustzone'' | TeeSimulation \<Rightarrow> ''simulation'')"

record TeeQuote =
  t_tee_type :: TeeType
  t_mrenclave :: string
  t_mrsigner :: string
  t_isv_svn :: nat
  t_raw_report_b64 :: string
  t_report_signature_b64 :: string
  t_measurement_source :: string
  t_enclave_signing_key_hex :: string

definition tee_quote_canonical :: "TeeQuote \<Rightarrow> bytes" where
  "tee_quote_canonical t = canonical_bytes ''tee_quote''
     [FBlob (bytes_of (tee_type_display (t_tee_type t))), FBlob (bytes_of (t_mrenclave t)), FBlob (bytes_of (t_mrsigner t)),
      FU16 (word_of_nat (t_isv_svn t)), FBlob (bytes_of (t_raw_report_b64 t)), FBlob (bytes_of (t_report_signature_b64 t)),
      FBlob (bytes_of (t_measurement_source t)), FBlob (bytes_of (t_enclave_signing_key_hex t))]"

datatype PlatformEvidence =
  NoEvidence
| SevSnpEvidence (report_b64: string) (vcek_der_b64: string) (certificate_chain_b64: "string list")
| NitroEvidence (document_b64: string)

definition evidence_kind :: "PlatformEvidence \<Rightarrow> string" where
  "evidence_kind e = (case e of NoEvidence \<Rightarrow> ''none'' | SevSnpEvidence _ _ _ \<Rightarrow> ''amd_sev_snp'' | NitroEvidence _ \<Rightarrow> ''aws_nitro_enclaves'')"

definition evidence_canonical :: "PlatformEvidence \<Rightarrow> bytes" where
  "evidence_canonical e = canonical_bytes ''platform_evidence'' (FBlob (bytes_of (evidence_kind e)) # (case e of
     NoEvidence \<Rightarrow> []
   | SevSnpEvidence r v cs \<Rightarrow> [FBlob (bytes_of r), FBlob (bytes_of v), FU32 (word_of_nat (length cs))] @ str_fields cs
   | NitroEvidence d \<Rightarrow> [FBlob (bytes_of d)]))"

record SevSnpPins =
  sp_amd_root_der_b64 :: string
  sp_min_bootloader_svn :: "8 word"
  sp_min_tee_svn :: "8 word"
  sp_min_snp_svn :: "8 word"
  sp_min_microcode_svn :: "8 word"
  sp_refuse_debuggable_guest :: bool
  sp_expected_vmpl :: nat

definition snp_secure_defaults :: "string \<Rightarrow> SevSnpPins" where
  "snp_secure_defaults r = \<lparr>sp_amd_root_der_b64 = r, sp_min_bootloader_svn = 0, sp_min_tee_svn = 0, sp_min_snp_svn = 0,
     sp_min_microcode_svn = 0, sp_refuse_debuggable_guest = True, sp_expected_vmpl = 0\<rparr>"

record NitroPins =
  np_root_der_b64 :: string
  np_pcr_values :: "(nat \<times> string) list"
  np_max_age_seconds :: nat

definition default_nitro_max_age :: nat where "default_nitro_max_age = 300"

definition nitro_secure_defaults :: "string \<Rightarrow> NitroPins" where
  "nitro_secure_defaults r = \<lparr>np_root_der_b64 = r, np_pcr_values = [], np_max_age_seconds = default_nitro_max_age\<rparr>"

record CombinedAttestation =
  ca_tpm_quote :: TpmQuote
  ca_tee_quote :: TeeQuote
  ca_platform_evidence :: PlatformEvidence
  ca_combined_hash :: string
  ca_node_id :: string
  ca_cordon_version :: string
  ca_generated_at :: datetime

record ExpectedMeasurements =
  em_pcr_values :: TpmPcrSet
  em_mrenclave :: string
  em_mrsigner :: string
  em_min_isv_svn :: nat
  em_tee_type :: TeeType
  em_sev_snp :: "SevSnpPins option"
  em_nitro :: "NitroPins option"

definition em_is_empty :: "ExpectedMeasurements \<Rightarrow> bool" where
  "em_is_empty x = (let nitro_pins_nothing = (case em_nitro x of None \<Rightarrow> True | Some p \<Rightarrow> np_pcr_values p = []) in
     em_pcr_values x = [] \<and> em_mrenclave x = [] \<and> em_mrsigner x = [] \<and> nitro_pins_nothing)"

datatype PlatformQuoteStatus = QuoteAbsent | QuoteVerified bool

definition is_hardware_verified :: "PlatformQuoteStatus \<Rightarrow> bool" where
  "is_hardware_verified q = (case q of QuoteVerified _ \<Rightarrow> True | QuoteAbsent \<Rightarrow> False)"

record VerifiedAttestation =
  platform_quote :: PlatformQuoteStatus
  binds_signing_key :: bool
  va_measurement_source :: string

definition is_hardware_rooted :: "VerifiedAttestation \<Rightarrow> bool" where
  "is_hardware_rooted v \<longleftrightarrow> is_hardware_verified (platform_quote v) \<and> binds_signing_key v"

record AttestationReport =
  combined :: CombinedAttestation
  ar_client_nonce :: string

subsection \<open>Challenges and digests\<close>

definition challenge_bytes :: "string \<Rightarrow> string \<Rightarrow> bytes" where
  "challenge_bytes key nonce = bytes_of CHALLENGE_DOMAIN @ be_bytes 4 (length key mod 4294967296) @ bytes_of key
     @ be_bytes 4 (length nonce mod 4294967296) @ bytes_of nonce"

definition attestation_challenge :: "attest_env \<Rightarrow> string \<Rightarrow> string \<Rightarrow> bytes" where
  "attestation_challenge E key nonce = ae_sha256 E (challenge_bytes key nonce)"

definition confidential_vm_challenge :: "attest_env \<Rightarrow> string \<Rightarrow> string \<Rightarrow> bytes" where
  "confidential_vm_challenge E key nonce = (let digest = take 64 (attestation_challenge E key nonce) in
     digest @ replicate (64 - length digest) 0)"

definition compute_combined_hash :: "attest_env \<Rightarrow> TpmQuote \<Rightarrow> TeeQuote \<Rightarrow> PlatformEvidence \<Rightarrow> string" where
  "compute_combined_hash E q t e = ae_hex E (ae_sha256 E (canonical_bytes ''combined_attestation''
     [FBlob (tpm_quote_canonical q), FBlob (tee_quote_canonical t), FBlob (evidence_canonical e)]))"

subsection \<open>Verification\<close>

definition verify_combined_hash :: "attest_env \<Rightarrow> AttestationReport \<Rightarrow> unit CryptoResult" where
  "verify_combined_hash E r = (let c = combined r in
     if \<not> ct_eq (bytes_of (compute_combined_hash E (ca_tpm_quote c) (ca_tee_quote c) (ca_platform_evidence c))) (bytes_of (ca_combined_hash c))
     then Inl (AttestationFailed (''the report'' @ [CHR 0x27] @ ''s combined hash does not match its contents; it has been altered in transit''))
     else Inr ())"

definition hex_field :: "attest_env \<Rightarrow> string \<Rightarrow> string \<Rightarrow> bytes CryptoResult" where
  "hex_field E what s = (case ae_unhex E s of Inl e \<Rightarrow> Inl (AttestationFailed (''malformed '' @ what @ '': '' @ e)) | Inr b \<Rightarrow> Inr b)"

definition b64_field :: "attest_env \<Rightarrow> string \<Rightarrow> string \<Rightarrow> bytes CryptoResult" where
  "b64_field E what s = (case ae_unb64 E s of Inl e \<Rightarrow> Inl (AttestationFailed (''malformed '' @ what @ '': '' @ e)) | Inr b \<Rightarrow> Inr b)"

definition verify_tpm_quote :: "attest_env \<Rightarrow> AttestationReport \<Rightarrow> string \<Rightarrow> (PlatformQuoteStatus \<times> bool) CryptoResult" where
  "verify_tpm_quote E r nonce = (let q = ca_tpm_quote (combined r); key = t_enclave_signing_key_hex (ca_tee_quote (combined r)) in
     if \<not> has_hardware_evidence q then Inr (QuoteAbsent, False)
     else and_then (hex_field E ''quote message'' (q_attest_message_hex q)) (\<lambda>attest_message.
     and_then (hex_field E ''quote signature'' (q_quote_signature_hex q)) (\<lambda>sg.
     and_then (hex_field E ''attestation key'' (q_aik_public_key_hex q)) (\<lambda>ak_public.
     and_then (verify_quote E attest_message sg ak_public (attestation_challenge E key nonce)
        (raw_values_in_index_order E (q_pcr_values q))) (\<lambda>v.
     if \<not> tq_signature_valid v then Inl (AttestationFailed (''the platform quote'' @ [CHR 0x27] @ ''s signature does not verify under the attestation key the report supplied''))
     else if \<not> tq_pcr_digest_matches v then Inl (AttestationFailed ''the PCR values in this report do not hash to the digest the platform signed. The measurements shown are not the ones that were quoted.'')
     else if \<not> tq_nonce_matches v then Inl (AttestationFailed (''the platform quote does not commit to this verifier'' @ [CHR 0x27] @ ''s challenge. Either it is a replay of an earlier quote, or it does not bind this node'' @ [CHR 0x27] @ ''s response-signing key.''))
     else Inr (QuoteVerified (tq_ak_is_trusted v), key \<noteq> []))))))"

definition verify_nitro_evidence :: "attest_env \<Rightarrow> nat \<Rightarrow> AttestationReport \<Rightarrow> ExpectedMeasurements \<Rightarrow> string \<Rightarrow> string
   \<Rightarrow> (PlatformQuoteStatus \<times> bool) CryptoResult" where
  "verify_nitro_evidence E now_ms r x nonce doc_b64 = (case em_nitro x of
     None \<Rightarrow> Inl (AttestationFailed ''this report carries Nitro Enclaves evidence, but no AWS Nitro root                  certificate is pinned to check it against. A chain is only worth                  walking if its root is one you already trust; pin it under                  [attestation.expected.nitro].'')
   | Some pins \<Rightarrow>
     and_then (b64_field E ''Nitro attestation document'' doc_b64) (\<lambda>document.
     and_then (b64_field E ''pinned AWS Nitro root certificate'' (np_root_der_b64 pins)) (\<lambda>root_der.
     let key = t_enclave_signing_key_hex (ca_tee_quote (combined r)) in
     and_then (verify_document E document (attestation_challenge E key nonce)
        \<lparr>ne_root_der = root_der, ne_pcrs = np_pcr_values pins, ne_max_age_seconds = np_max_age_seconds pins\<rparr> now_ms) (\<lambda>(_, v).
     case nv_first_failure v of
       Some failure \<Rightarrow> Inl (AttestationFailed (''Nitro Enclaves attestation failed: '' @ failure))
     | None \<Rightarrow> Inr (QuoteVerified True, key \<noteq> [])))))"

definition snp_expectations :: "ExpectedMeasurements \<Rightarrow> SevSnpPins \<Rightarrow> SevSnpExpectations" where
  "snp_expectations x pins = \<lparr>se_measurement = em_mrenclave x,
     se_minimum_tcb = \<lparr>tcb_bootloader = sp_min_bootloader_svn pins, tcb_tee = sp_min_tee_svn pins, tcb_snp = sp_min_snp_svn pins,
       tcb_microcode = sp_min_microcode_svn pins, tcb_raw = 0\<rparr>,
     se_refuse_debuggable_guest = sp_refuse_debuggable_guest pins, se_expected_vmpl = sp_expected_vmpl pins\<rparr>"

definition verify_confidential_vm_evidence :: "attest_env \<Rightarrow> nat \<Rightarrow> AttestationReport \<Rightarrow> ExpectedMeasurements \<Rightarrow> string
   \<Rightarrow> (PlatformQuoteStatus \<times> bool) CryptoResult" where
  "verify_confidential_vm_evidence E now_ms r x nonce = (case ca_platform_evidence (combined r) of
     NoEvidence \<Rightarrow> Inr (QuoteAbsent, False)
   | NitroEvidence d \<Rightarrow> verify_nitro_evidence E now_ms r x nonce d
   | SevSnpEvidence rep vcek certs \<Rightarrow> (case em_sev_snp x of
       None \<Rightarrow> Inl (AttestationFailed ''this report carries SEV-SNP evidence, but no AMD root certificate is pinned to check it against. A chain is only worth walking if its root is one you already trust; pin it under [attestation.expected.sev_snp].'')
     | Some pins \<Rightarrow>
       and_then (b64_field E ''SEV-SNP report'' rep) (\<lambda>report_bytes.
       and_then (b64_field E ''VCEK certificate'' vcek) (\<lambda>vcek_der.
       and_then (b64_field E ''pinned AMD root certificate'' (sp_amd_root_der_b64 pins)) (\<lambda>root_der.
       and_then (try_each (b64_field E ''certificate in the VCEK chain'') certs) (\<lambda>chain.
       let key = t_enclave_signing_key_hex (ca_tee_quote (combined r)) in
       and_then (verify_report E report_bytes vcek_der (chain @ [root_der]) (confidential_vm_challenge E key nonce)
         (snp_expectations x pins)) (\<lambda>(_, v).
       case sv_first_failure v of
         Some failure \<Rightarrow> Inl (AttestationFailed (''SEV-SNP attestation failed: '' @ failure))
       | None \<Rightarrow> Inr (QuoteVerified True, key \<noteq> []))))))))"

definition verify_platform_quote :: "attest_env \<Rightarrow> nat \<Rightarrow> AttestationReport \<Rightarrow> ExpectedMeasurements \<Rightarrow> string
   \<Rightarrow> (PlatformQuoteStatus \<times> bool) CryptoResult" where
  "verify_platform_quote E now_ms r x nonce =
     (if ca_platform_evidence (combined r) \<noteq> NoEvidence then verify_confidential_vm_evidence E now_ms r x nonce
      else verify_tpm_quote E r nonce)"

definition report_verify :: "attest_env \<Rightarrow> nat \<Rightarrow> AttestationReport \<Rightarrow> ExpectedMeasurements \<Rightarrow> string \<Rightarrow> VerifiedAttestation CryptoResult" where
  "report_verify E now_ms r x nonce = (let c = combined r; t = ca_tee_quote c in
     if em_is_empty x then Inl (AttestationFailed ''no measurements are pinned, so this report cannot be verified against anything'')
     else and_then (verify_combined_hash E r) (\<lambda>_.
     if \<not> ct_eq (bytes_of (q_nonce (ca_tpm_quote c))) (bytes_of nonce) then Inl NonceMismatch
     else and_then (verify_against (q_pcr_values (ca_tpm_quote c)) (em_pcr_values x)) (\<lambda>_.
     if em_mrenclave x \<noteq> [] \<and> \<not> ct_eq (bytes_of (t_mrenclave t)) (bytes_of (em_mrenclave x))
     then Inl (EnclaveMeasurementMismatch (em_mrenclave x) (t_mrenclave t))
     else if em_mrsigner x \<noteq> [] \<and> \<not> ct_eq (bytes_of (t_mrsigner t)) (bytes_of (em_mrsigner x))
     then Inl (AttestationFailed (''MRSIGNER mismatch: expected '' @ em_mrsigner x @ '', got '' @ t_mrsigner t))
     else if t_isv_svn t < em_min_isv_svn x
     then Inl (AttestationFailed (''ISV SVN '' @ show_nat (t_isv_svn t) @ '' is below the minimum '' @ show_nat (em_min_isv_svn x)))
     else if t_tee_type t \<noteq> em_tee_type x
     then Inl (AttestationFailed (''TEE type mismatch: expected '' @ tee_type_display (em_tee_type x) @ '', got '' @ tee_type_display (t_tee_type t)))
     else and_then (verify_platform_quote E now_ms r x nonce) (\<lambda>(pq, binds).
       Inr \<lparr>platform_quote = pq, binds_signing_key = binds, va_measurement_source = t_measurement_source t\<rparr>))))"
subsection \<open>What verification establishes\<close>

lemma hex_field_Inr [simp]: "hex_field E w s = Inr b \<longleftrightarrow> ae_unhex E s = Inr b"
  by (simp add: hex_field_def split: sum.split)

lemma b64_field_Inr [simp]: "b64_field E w s = Inr b \<longleftrightarrow> ae_unb64 E s = Inr b"
  by (simp add: b64_field_def split: sum.split)

lemma verify_against_Inr: "verify_against m es = Inr () \<longleftrightarrow> (\<forall>(i, e) \<in> set es. map_of m i = Some e)"
  by (induction m es rule: verify_against.induct) (auto simp: pcr_get_def split: option.splits)

text \<open>A statement of the platform itself: signed, about this challenge, and for a
  confidential platform under a key that chains to a root the verifier pinned.\<close>

definition tpm_statement :: "attest_env \<Rightarrow> AttestationReport \<Rightarrow> bytes \<Rightarrow> bool" where
  "tpm_statement E r ch \<longleftrightarrow> (\<exists>m s k attest sg key. ae_unhex E (q_attest_message_hex (ca_tpm_quote (combined r))) = Inr m
     \<and> ae_unhex E (q_quote_signature_hex (ca_tpm_quote (combined r))) = Inr s \<and> ae_unhex E (q_aik_public_key_hex (ca_tpm_quote (combined r))) = Inr k
     \<and> parse_attest m = Inr attest \<and> parse_signature s = Inr sg \<and> parse_public k = Inr key \<and> key_verify E key m sg = Inr ()
     \<and> extra_data attest = ch
     \<and> pcr_digest attest = ae_sha256 E (concat (map snd (sort_key fst (raw_values_in_index_order E (q_pcr_values (ca_tpm_quote (combined r))))))))"

definition snp_statement :: "attest_env \<Rightarrow> ExpectedMeasurements \<Rightarrow> string \<Rightarrow> string \<Rightarrow> string list \<Rightarrow> bytes \<Rightarrow> bool" where
  "snp_statement E x rep_b64 vcek_b64 certs ch \<longleftrightarrow> (\<exists>pins anchor b vcek chain rep point sg. em_sev_snp x = Some pins
     \<and> ae_unb64 E (sp_amd_root_der_b64 pins) = Inr anchor \<and> ae_unb64 E rep_b64 = Inr b \<and> ae_unb64 E vcek_b64 = Inr vcek
     \<and> try_each (b64_field E ''certificate in the VCEK chain'') certs = Inr chain
     \<and> chains_to E vcek chain anchor \<and> parse_report b = Inr rep \<and> vcek_public_point E vcek = Inr point \<and> signature_r_s rep = Inr sg
     \<and> ae_verify E ECDSA_P384_SHA384_FIXED point (signed_prefix rep) sg
     \<and> report_data rep = ch \<and> measurement_hex E rep = to_lower (em_mrenclave x)
     \<and> is_at_least (reported_tcb rep) (se_minimum_tcb (snp_expectations x pins))
     \<and> (sp_refuse_debuggable_guest pins \<longrightarrow> \<not> debug_allowed (guest_policy rep)))"

definition nitro_statement :: "attest_env \<Rightarrow> nat \<Rightarrow> ExpectedMeasurements \<Rightarrow> string \<Rightarrow> bytes \<Rightarrow> bool" where
  "nitro_statement E now_ms x doc_b64 ch \<longleftrightarrow> (\<exists>pins anchor b c cert doc. em_nitro x = Some pins
     \<and> ae_unb64 E (np_root_der_b64 pins) = Inr anchor \<and> ae_unb64 E doc_b64 = Inr b \<and> cose_parse b = Inr c
     \<and> doc_parse (cose_payload c) = Inr doc \<and> ae_x509 E (doc_certificate doc) = Inr cert
     \<and> ae_verify E ECDSA_P384_SHA384_FIXED (cert_key cert) (signed_bytes c) (cose_signature c)
     \<and> chains_to E (doc_certificate doc) (intermediates doc) anchor
     \<and> doc_nonce doc = Some ch \<and> np_pcr_values pins \<noteq> []
     \<and> (\<forall>(i, e) \<in> set (np_pcr_values pins). pcr_hex E doc i = Some (to_lower e))
     \<and> nitro_fresh (np_max_age_seconds pins) now_ms (timestamp_ms doc))"

definition platform_statement :: "attest_env \<Rightarrow> nat \<Rightarrow> AttestationReport \<Rightarrow> ExpectedMeasurements \<Rightarrow> string \<Rightarrow> bool" where
  "platform_statement E now_ms r x nonce = (let key = t_enclave_signing_key_hex (ca_tee_quote (combined r)) in
     case ca_platform_evidence (combined r) of
       NoEvidence \<Rightarrow> tpm_statement E r (attestation_challenge E key nonce)
     | SevSnpEvidence rep vcek certs \<Rightarrow> snp_statement E x rep vcek certs (confidential_vm_challenge E key nonce)
     | NitroEvidence d \<Rightarrow> nitro_statement E now_ms x d (attestation_challenge E key nonce))"

lemma verify_tpm_quote_Verified:
  assumes "verify_tpm_quote E r nonce = Inr (QuoteVerified t, b)"
  shows "tpm_statement E r (attestation_challenge E (t_enclave_signing_key_hex (ca_tee_quote (combined r))) nonce) \<and> \<not> t"
  using assms unfolding verify_tpm_quote_def tpm_statement_def Let_def
  by (auto simp: verify_quote_Inr compute_pcr_digest_def split: if_splits)

lemma verify_nitro_Verified:
  assumes "verify_nitro_evidence E now_ms r x nonce d = Inr (pq, b)"
  shows "nitro_statement E now_ms x d (attestation_challenge E (t_enclave_signing_key_hex (ca_tee_quote (combined r))) nonce)"
proof -
  let ?ch = "attestation_challenge E (t_enclave_signing_key_hex (ca_tee_quote (combined r))) nonce"
  obtain pins anchor doc_bytes doc v where p: "em_nitro x = Some pins" "ae_unb64 E (np_root_der_b64 pins) = Inr anchor"
    "ae_unb64 E d = Inr doc_bytes" "nv_first_failure v = None"
    "verify_document E doc_bytes ?ch
      \<lparr>ne_root_der = anchor, ne_pcrs = np_pcr_values pins, ne_max_age_seconds = np_max_age_seconds pins\<rparr> now_ms = Inr (doc, v)"
    using assms by (auto simp: verify_nitro_evidence_def Let_def split: option.splits; blast)
  show ?thesis
    using verify_document_Inr[OF p(5) p(4)[unfolded nv_first_failure_None]] p(1-3)
    unfolding nitro_statement_def by fastforce
qed

lemma verify_snp_Verified:
  assumes "verify_confidential_vm_evidence E now_ms r x nonce = Inr (pq, b)"
    and "ca_platform_evidence (combined r) = SevSnpEvidence rep vcek certs"
  shows "snp_statement E x rep vcek certs (confidential_vm_challenge E (t_enclave_signing_key_hex (ca_tee_quote (combined r))) nonce)"
proof -
  let ?ch = "confidential_vm_challenge E (t_enclave_signing_key_hex (ca_tee_quote (combined r))) nonce"
  obtain pins anchor rb vd chain rp v where p: "em_sev_snp x = Some pins" "ae_unb64 E (sp_amd_root_der_b64 pins) = Inr anchor"
    "ae_unb64 E rep = Inr rb" "ae_unb64 E vcek = Inr vd" "try_each (b64_field E ''certificate in the VCEK chain'') certs = Inr chain"
    "sv_first_failure v = None" "verify_report E rb vd (chain @ [anchor]) ?ch (snp_expectations x pins) = Inr (rp, v)"
    using assms by (auto simp: verify_confidential_vm_evidence_def Let_def split: option.splits; blast)
  have "parse_report rb = Inr rp" using p(7) by (auto simp: verify_report_def split: if_splits)
  then show ?thesis
    using snp_fully_verified[OF p(7) p(6)[unfolded sv_first_failure_None]] p(1-5)
    unfolding snp_statement_def by (fastforce simp: snp_expectations_def)
qed

lemma verify_platform_quote_Verified:
  assumes "verify_platform_quote E now_ms r x nonce = Inr (QuoteVerified t, b)"
  shows "platform_statement E now_ms r x nonce \<and> (t \<longrightarrow> ca_platform_evidence (combined r) \<noteq> NoEvidence)"
proof (cases "ca_platform_evidence (combined r)")
  case NoEvidence
  then show ?thesis
    using assms verify_tpm_quote_Verified[of E r nonce t b] by (auto simp: verify_platform_quote_def platform_statement_def)
next
  case (SevSnpEvidence rep vcek certs)
  then show ?thesis
    using assms verify_snp_Verified[of E now_ms r x nonce "QuoteVerified t" b rep vcek certs]
    by (simp add: verify_platform_quote_def platform_statement_def)
next
  case (NitroEvidence d)
  then show ?thesis
    using assms verify_nitro_Verified[of E now_ms r x nonce d "QuoteVerified t" b]
    by (simp add: verify_platform_quote_def platform_statement_def verify_confidential_vm_evidence_def)
qed

lemma key_bound:
  "verify_platform_quote E now_ms r x nonce = Inr (pq, True) \<Longrightarrow> t_enclave_signing_key_hex (ca_tee_quote (combined r)) \<noteq> []"
  by (auto simp: verify_platform_quote_def verify_tpm_quote_def verify_confidential_vm_evidence_def verify_nitro_evidence_def Let_def
      split: if_splits PlatformEvidence.splits option.splits)

text \<open>The whole verdict, check by check.\<close>

definition pins_met :: "AttestationReport \<Rightarrow> ExpectedMeasurements \<Rightarrow> bool" where
  "pins_met r x \<longleftrightarrow> (let t = ca_tee_quote (combined r) in
     (\<forall>(i, e) \<in> set (em_pcr_values x). map_of (q_pcr_values (ca_tpm_quote (combined r))) i = Some e)
     \<and> (em_mrenclave x \<noteq> [] \<longrightarrow> t_mrenclave t = em_mrenclave x) \<and> (em_mrsigner x \<noteq> [] \<longrightarrow> t_mrsigner t = em_mrsigner x)
     \<and> em_min_isv_svn x \<le> t_isv_svn t \<and> t_tee_type t = em_tee_type x)"

lemma report_verify_Inr:
  "report_verify E now_ms r x nonce = Inr v \<longleftrightarrow>
     (\<exists>pq b. \<not> em_is_empty x
       \<and> ca_combined_hash (combined r) = compute_combined_hash E (ca_tpm_quote (combined r)) (ca_tee_quote (combined r)) (ca_platform_evidence (combined r))
       \<and> q_nonce (ca_tpm_quote (combined r)) = nonce \<and> pins_met r x
       \<and> verify_platform_quote E now_ms r x nonce = Inr (pq, b)
       \<and> v = \<lparr>platform_quote = pq, binds_signing_key = b, va_measurement_source = t_measurement_source (ca_tee_quote (combined r))\<rparr>)"
  unfolding report_verify_def pins_met_def Let_def verify_combined_hash_def
  using verify_against_Inr[of "q_pcr_values (ca_tpm_quote (combined r))" "em_pcr_values x"]
  by (cases "verify_platform_quote E now_ms r x nonce") (auto split: if_splits)

text \<open>A report over a TPM quote, under a hash function with the one value \<open>0xAA\<close>.\<close>

definition sample_hash_env :: attest_env where
  "sample_hash_env = sample_attest_env\<lparr>ae_sha256 := (\<lambda>_. [0xAA])\<rparr>"

definition sample_pins :: ExpectedMeasurements where
  "sample_pins = \<lparr>em_pcr_values = [(0, ''a'')], em_mrenclave = [], em_mrsigner = [], em_min_isv_svn = 0, em_tee_type = TeeSimulation,
     em_sev_snp = None, em_nitro = None\<rparr>"

definition sample_attestation :: AttestationReport where
  "sample_attestation = \<lparr>combined = \<lparr>
     ca_tpm_quote = \<lparr>q_pcr_values = [(0, ''a''), (1, ''b'')], q_aik_public_key_hex = string_of_bytes sample_ak,
       q_attest_message_hex = string_of_bytes (sample_attest [0xAA]), q_quote_signature_hex = string_of_bytes sample_tpm_signature,
       q_nonce = ''n'', q_timestamp = 0, q_ek_cert_chain = []\<rparr>,
     ca_tee_quote = \<lparr>t_tee_type = TeeSimulation, t_mrenclave = [], t_mrsigner = [], t_isv_svn = 1, t_raw_report_b64 = [],
       t_report_signature_b64 = [], t_measurement_source = ''tpm2'', t_enclave_signing_key_hex = ''k''\<rparr>,
     ca_platform_evidence = NoEvidence, ca_combined_hash = string_of_bytes [0xAA], ca_node_id = [], ca_cordon_version = [],
     ca_generated_at = 0\<rparr>, ar_client_nonce = ''n''\<rparr>"

lemma sample_hash_quote:
  "verify_quote sample_hash_env (sample_attest [0xAA]) sample_tpm_signature sample_ak [0xAA] [(0, bytes_of ''a''), (1, bytes_of ''b'')]
    = Inr \<lparr>tq_signature_valid = True, tq_nonce_matches = True, tq_pcr_digest_matches = True, tq_ak_is_trusted = False\<rparr>"
  using sample_attest_parses[of "[0xAA]"] sample_signature_parses sample_ak_parses
  by (auto simp: verify_quote_Inr key_verify_Inr sha256_indices_def compute_pcr_digest_def sample_hash_env_def sample_attest_env_def tpm_constants)

lemma sample_attestation_verifies:
  "report_verify sample_hash_env 0 sample_attestation sample_pins ''n''
   = Inr \<lparr>platform_quote = QuoteVerified False, binds_signing_key = True, va_measurement_source = ''tpm2''\<rparr>"
proof -
  have e: "ae_unhex sample_hash_env s = Inr (bytes_of s)" "ae_sha256 sample_hash_env b = [0xAA]" "ae_hex sample_hash_env = string_of_bytes" for s b
    by (simp_all add: sample_hash_env_def sample_attest_env_def)
  have n: "string_of_bytes sample_ak \<noteq> []" "string_of_bytes (sample_attest d) \<noteq> []" "string_of_bytes sample_tpm_signature \<noteq> []" for d
    by (simp_all add: sample_ak_def sample_attest_def sample_tpm_signature_def string_of_bytes_def)
  have "verify_platform_quote sample_hash_env 0 sample_attestation sample_pins ''n'' = Inr (QuoteVerified False, True)"
    using sample_hash_quote
    by (simp add: verify_platform_quote_def verify_tpm_quote_def sample_attestation_def has_hardware_evidence_def hex_field_def
        attestation_challenge_def strip_prefix_def e n)
  then show ?thesis
    by (simp add: report_verify_Inr sample_pins_def em_is_empty_def pins_met_def compute_combined_hash_def e)
       (auto simp: sample_attestation_def)
qed


text \<open>Pins under the Nitro section alone do not oblige a report to be a Nitro one: a
  report without any platform evidence verifies against them, whatever its measurements, as
  long as its own digest, the nonce and the TEE type are right.\<close>

theorem nitro_pins_do_not_require_nitro:
  assumes "em_nitro x = Some pins" "np_pcr_values pins \<noteq> []" "em_pcr_values x = []" "em_mrenclave x = []" "em_mrsigner x = []"
    and "ca_platform_evidence (combined r) = NoEvidence" "\<not> has_hardware_evidence (ca_tpm_quote (combined r))"
    and "verify_combined_hash E r = Inr ()" "q_nonce (ca_tpm_quote (combined r)) = nonce"
    and "em_min_isv_svn x \<le> t_isv_svn (ca_tee_quote (combined r))" "t_tee_type (ca_tee_quote (combined r)) = em_tee_type x"
  shows "report_verify E now_ms r x nonce = Inr \<lparr>platform_quote = QuoteAbsent, binds_signing_key = False,
    va_measurement_source = t_measurement_source (ca_tee_quote (combined r))\<rparr>"
  using assms by (simp add: report_verify_def em_is_empty_def verify_platform_quote_def verify_tpm_quote_def)

theorem nitro_pins_do_not_require_nitro_witness:
  "report_verify sample_hash_env 0 (sample_attestation\<lparr>combined := (combined sample_attestation)
       \<lparr>ca_tpm_quote := (ca_tpm_quote (combined sample_attestation))\<lparr>q_aik_public_key_hex := []\<rparr>\<rparr>\<rparr>)
     (sample_pins\<lparr>em_pcr_values := [], em_nitro := Some ((nitro_secure_defaults ''root'')\<lparr>np_pcr_values := [(0, ''image'')]\<rparr>)\<rparr>) ''n''
   = Inr \<lparr>platform_quote = QuoteAbsent, binds_signing_key = False, va_measurement_source = ''tpm2''\<rparr>"
  by (subst nitro_pins_do_not_require_nitro[where pins = "(nitro_secure_defaults ''root'')\<lparr>np_pcr_values := [(0, ''image'')]\<rparr>"])
     (simp_all add: sample_pins_def sample_attestation_def has_hardware_evidence_def verify_combined_hash_def compute_combined_hash_def
       sample_hash_env_def sample_attest_env_def)
subsection \<open>The digest covers the report\<close>

text \<open>Sizes the 32-bit lengths of the encoding represent exactly.\<close>

definition small :: "'a list \<Rightarrow> bool" where
  "small xs \<longleftrightarrow> length xs < 4294967296"

definition pcr_set_fits :: "TpmPcrSet \<Rightarrow> bool" where
  "pcr_set_fits m \<longleftrightarrow> small m \<and> list_all (\<lambda>(i, v). i < 256 \<and> small v) m"

definition quote_fits :: "TpmQuote \<Rightarrow> bool" where
  "quote_fits q \<longleftrightarrow> pcr_set_fits (q_pcr_values q) \<and> small (pcr_set_canonical (q_pcr_values q)) \<and> small (q_aik_public_key_hex q)
     \<and> small (q_attest_message_hex q) \<and> small (q_quote_signature_hex q) \<and> small (q_nonce q) \<and> small (q_ek_cert_chain q)
     \<and> list_all small (q_ek_cert_chain q) \<and> - (2 ^ 63) \<le> timestamp_millis (q_timestamp q) \<and> timestamp_millis (q_timestamp q) < 2 ^ 63"

definition tee_fits :: "TeeQuote \<Rightarrow> bool" where
  "tee_fits t \<longleftrightarrow> small (t_mrenclave t) \<and> small (t_mrsigner t) \<and> t_isv_svn t < 65536 \<and> small (t_raw_report_b64 t)
     \<and> small (t_report_signature_b64 t) \<and> small (t_measurement_source t) \<and> small (t_enclave_signing_key_hex t)"

fun evidence_fits :: "PlatformEvidence \<Rightarrow> bool" where
  "evidence_fits NoEvidence = True"
| "evidence_fits (SevSnpEvidence r v cs) = (small r \<and> small v \<and> small cs \<and> list_all small cs)"
| "evidence_fits (NitroEvidence d) = small d"

definition sections_fit :: "TpmQuote \<Rightarrow> TeeQuote \<Rightarrow> PlatformEvidence \<Rightarrow> bool" where
  "sections_fit q t e \<longleftrightarrow> quote_fits q \<and> tee_fits t \<and> evidence_fits e
     \<and> small (tpm_quote_canonical q) \<and> small (tee_quote_canonical t) \<and> small (evidence_canonical e)"

definition combined_bytes :: "TpmQuote \<Rightarrow> TeeQuote \<Rightarrow> PlatformEvidence \<Rightarrow> bytes" where
  "combined_bytes q t e = canonical_bytes ''combined_attestation''
     [FBlob (tpm_quote_canonical q), FBlob (tee_quote_canonical t), FBlob (evidence_canonical e)]"

lemma same_layout_inj:
  assumes "canonical_bytes s fs = canonical_bytes s gs" "map kind fs = map kind gs" "list_all field_fits fs" "list_all field_fits gs"
  shows "fs = gs"
  using emits_inj[OF assms(2-4)] assms(1) unfolding canonical_bytes_def canonical_bytes_emit by simp

lemma pcr_set_inj:
  assumes "pcr_set_canonical m = pcr_set_canonical m'" "pcr_set_fits m" "pcr_set_fits m'"
  shows "m = m'"
proof -
  define f where "f = (\<lambda>(i, v). [FU8 (word_of_nat i), FBlob (bytes_of v)])"
  have fit: "list_all (\<lambda>x. list_all field_fits (f x)) n" if "pcr_set_fits n" for n
    using that by (fastforce simp: list_all_iff f_def pcr_set_fits_def small_def)
  have "length m = length m' \<and> concat (map f m) = concat (map f m')"
    using counted_fields_inj[of "''pcr_set''" "[]" m f "[]" m' "[KU8, KBlob]"] assms fit
    by (auto simp: pcr_set_canonical_def pcr_set_fields_def f_def pcr_set_fits_def small_def)
  moreover have "length n = length n' \<Longrightarrow> concat (map f n) = concat (map f n') \<Longrightarrow> pcr_set_fits n \<Longrightarrow> pcr_set_fits n' \<Longrightarrow> n = n'" for n n'
  proof (induction n n' rule: list_induct2)
    case (Cons x xs y ys)
    obtain i v j w where xy: "x = (i, v)" "y = (j, w)" by fastforce
    have "(word_of_nat i :: 8 word) = word_of_nat j" using Cons.prems(1) by (simp add: f_def xy)
    then have "unat (word_of_nat i :: 8 word) = unat (word_of_nat j :: 8 word)" by simp
    then have "i = j" using Cons.prems(2,3) by (simp add: pcr_set_fits_def xy unat_of_nat)
    then show ?case using Cons by (simp add: f_def xy pcr_set_fits_def small_def)
  qed simp
  ultimately show ?thesis using assms(2,3) by blast
qed

lemma str_fields_concat: "str_fields ss = concat (map (\<lambda>s. [FBlob (bytes_of s)]) ss)"
  by (induction ss) (simp_all add: str_fields_def)

lemma str_fields_inj [simp]: "str_fields ss = str_fields ss' \<longleftrightarrow> ss = ss'"
  by (auto simp: str_fields_def inj_map_eq_map inj_def)

lemma counted_strings_inj:
  assumes "canonical_bytes s (pre @ FU32 (word_of_nat (length l)) # str_fields l) = canonical_bytes s (pre' @ FU32 (word_of_nat (length l')) # str_fields l')"
    and "map kind pre = map kind pre'" "list_all field_fits pre" "list_all field_fits pre'"
    and "small l" "small l'" "list_all small l" "list_all small l'"
  shows "pre = pre' \<and> l = l'"
  using counted_fields_inj[OF assms(1)[unfolded str_fields_concat] assms(2), of "[KBlob]"] assms(3-)
  by (auto simp: small_def list_all_iff inj_map_eq_map inj_def)

lemma millis_inj:
  assumes "(word_of_int a :: 64 word) = word_of_int b" "- (2 ^ 63) \<le> a" "a < 2 ^ 63" "- (2 ^ 63) \<le> b" "b < 2 ^ 63"
  shows "a = b"
proof -
  have "sint (word_of_int a :: 64 word) = sint (word_of_int b :: 64 word)" using assms(1) by simp
  then show ?thesis using assms(2-) by (simp add: sint_sbintrunc' signed_take_bit_int_eq_self)
qed

lemma tpm_quote_inj:
  assumes "tpm_quote_canonical q = tpm_quote_canonical q'" "quote_fits q" "quote_fits q'"
  shows "q\<lparr>q_timestamp := 0\<rparr> = q'\<lparr>q_timestamp := 0\<rparr> \<and> timestamp_millis (q_timestamp q) = timestamp_millis (q_timestamp q')"
proof -
  let ?pre = "\<lambda>q. [FBlob (pcr_set_canonical (q_pcr_values q)), FBlob (bytes_of (q_aik_public_key_hex q)), FBlob (bytes_of (q_attest_message_hex q)),
       FBlob (bytes_of (q_quote_signature_hex q)), FBlob (bytes_of (q_nonce q)), FI64 (word_of_int (timestamp_millis (q_timestamp q)))]"
  have "?pre q = ?pre q' \<and> q_ek_cert_chain q = q_ek_cert_chain q'"
    by (rule counted_strings_inj[of "''tpm_quote''"]) (use assms in \<open>simp_all add: tpm_quote_canonical_def quote_fits_def small_def\<close>)
  then show ?thesis
    using pcr_set_inj[of "q_pcr_values q" "q_pcr_values q'"] millis_inj assms(2,3) by (cases q; cases q') (simp add: quote_fits_def)
qed

lemma tee_quote_inj:
  assumes "tee_quote_canonical t = tee_quote_canonical t'" "tee_fits t" "tee_fits t'"
  shows "t = t'"
proof -
  have d: "tee_type_display a = tee_type_display b \<Longrightarrow> a = b" "small (tee_type_display a)" for a b
    by (cases a; cases b; simp add: tee_type_display_def) (cases a; simp add: tee_type_display_def small_def)
  let ?fs = "\<lambda>t. [FBlob (bytes_of (tee_type_display (t_tee_type t))), FBlob (bytes_of (t_mrenclave t)), FBlob (bytes_of (t_mrsigner t)),
      FU16 (word_of_nat (t_isv_svn t)), FBlob (bytes_of (t_raw_report_b64 t)), FBlob (bytes_of (t_report_signature_b64 t)),
      FBlob (bytes_of (t_measurement_source t)), FBlob (bytes_of (t_enclave_signing_key_hex t))]"
  have f: "?fs t = ?fs t'"
    by (rule same_layout_inj[of "''tee_quote''"]) (use assms d(2) in \<open>simp_all add: tee_quote_canonical_def tee_fits_def small_def\<close>)
  then have "unat (word_of_nat (t_isv_svn t) :: 16 word) = unat (word_of_nat (t_isv_svn t') :: 16 word)" by simp
  then have "t_isv_svn t = t_isv_svn t'" using assms(2,3) by (simp add: tee_fits_def unat_of_nat)
  then show ?thesis using f d(1) by (cases t; cases t') simp
qed
lemma evidence_kind_first:
  assumes "evidence_canonical e = evidence_canonical e'"
  shows "evidence_kind e = evidence_kind e'"
proof -
  have s: "field_fits (FBlob (bytes_of (evidence_kind a)))" for a by (cases a) (simp_all add: evidence_kind_def)
  obtain us us' where "emit (FBlob (bytes_of (evidence_kind e))) @ us = emit (FBlob (bytes_of (evidence_kind e'))) @ us'"
    using assms unfolding evidence_canonical_def canonical_bytes_def canonical_bytes_emit by auto
  from emit_append_eq[OF _ s s this] show ?thesis by simp
qed

lemma evidence_inj:
  assumes "evidence_canonical e = evidence_canonical e'" "evidence_fits e" "evidence_fits e'"
  shows "e = e'"
proof (cases e)
  case NoEvidence
  then show ?thesis using evidence_kind_first[OF assms(1)] by (cases e') (simp_all add: evidence_kind_def)
next
  case (SevSnpEvidence r v cs)
  then obtain r' v' cs' where e': "e' = SevSnpEvidence r' v' cs'"
    using evidence_kind_first[OF assms(1)] by (cases e') (simp_all add: evidence_kind_def)
  let ?pre = "\<lambda>r v. [FBlob (bytes_of (evidence_kind e)), FBlob (bytes_of r), FBlob (bytes_of v)]"
  have "?pre r v = ?pre r' v' \<and> cs = cs'"
    by (rule counted_strings_inj[of "''platform_evidence''"])
       (use assms in \<open>simp_all add: SevSnpEvidence e' evidence_canonical_def evidence_kind_def small_def\<close>)
  then show ?thesis using SevSnpEvidence e' by simp
next
  case (NitroEvidence d)
  then obtain d' where e': "e' = NitroEvidence d'"
    using evidence_kind_first[OF assms(1)] by (cases e') (simp_all add: evidence_kind_def)
  let ?fs = "\<lambda>d. [FBlob (bytes_of (evidence_kind e)), FBlob (bytes_of d)]"
  have "?fs d = ?fs d'"
    by (rule same_layout_inj[of "''platform_evidence''"])
       (use assms in \<open>simp_all add: NitroEvidence e' evidence_canonical_def evidence_kind_def small_def\<close>)
  then show ?thesis using NitroEvidence e' by simp
qed

text \<open>C36. The combined hash covers the quote, the TEE measurement and the platform evidence:
  two reports with the same hash agree in all of them (the time of the quote to the
  millisecond), or the two encodings are a collision of SHA-256.\<close>

theorem combined_hash_binds_contents:
  assumes "compute_combined_hash E q t e = compute_combined_hash E q' t' e'" "inj (ae_hex E)"
    and "sections_fit q t e" "sections_fit q' t' e'"
  shows "q\<lparr>q_timestamp := 0\<rparr> = q'\<lparr>q_timestamp := 0\<rparr> \<and> timestamp_millis (q_timestamp q) = timestamp_millis (q_timestamp q') \<and> t = t' \<and> e = e'
    \<or> collides (ae_sha256 E) (combined_bytes q t e) (combined_bytes q' t' e')"
proof (cases "combined_bytes q t e = combined_bytes q' t' e'")
  case True
  have "[FBlob (tpm_quote_canonical q), FBlob (tee_quote_canonical t), FBlob (evidence_canonical e)]
      = [FBlob (tpm_quote_canonical q'), FBlob (tee_quote_canonical t'), FBlob (evidence_canonical e')]"
    by (rule same_layout_inj[OF True[unfolded combined_bytes_def]])
       (use assms(3,4) in \<open>simp_all add: sections_fit_def small_def\<close>)
  then show ?thesis
    using tpm_quote_inj[of q q'] tee_quote_inj[of t t'] evidence_inj[of e e'] assms(3,4) by (simp add: sections_fit_def)
next
  case False
  have "ae_sha256 E (combined_bytes q t e) = ae_sha256 E (combined_bytes q' t' e')"
    using assms(1,2) by (simp add: compute_combined_hash_def combined_bytes_def inj_eq)
  then show ?thesis using False by (simp add: collides_def)
qed

lemma sample_sections_fit:
  "sections_fit ((ca_tpm_quote (combined sample_attestation))\<lparr>q_nonce := [c]\<rparr>) (ca_tee_quote (combined sample_attestation)) NoEvidence"
proof -
  have "length (sample_attest [0xAA]) = 47" by (simp add: sample_attest_def)
  moreover have "timestamp_millis 0 = 0" by (simp add: timestamp_millis_def)
  ultimately show ?thesis
    by (simp add: sections_fit_def quote_fits_def tee_fits_def small_def pcr_set_fits_def sample_attestation_def tpm_quote_canonical_def
        tee_quote_canonical_def evidence_canonical_def pcr_set_canonical_def pcr_set_fields_def canonical_bytes_def canonical_new_def
        str_fields_def writer_defs CANONICAL_VERSION_TAG_def tee_type_display_def evidence_kind_def sample_ak_def sample_tpm_signature_def
        string_of_bytes_def)
qed

theorem combined_hash_binds_contents_witness:
  "compute_combined_hash sample_attest_env ((ca_tpm_quote (combined sample_attestation))\<lparr>q_nonce := ''a''\<rparr>)
       (ca_tee_quote (combined sample_attestation)) NoEvidence
   \<noteq> compute_combined_hash sample_attest_env ((ca_tpm_quote (combined sample_attestation))\<lparr>q_nonce := ''b''\<rparr>)
       (ca_tee_quote (combined sample_attestation)) NoEvidence"
proof
  have i: "inj (ae_hex sample_attest_env)" by (simp add: sample_attest_env_def inj_def) (metis string_of_bytes_inj)
  have c: "\<not> collides (ae_sha256 sample_attest_env) a b" for a b by (simp add: collides_def sample_attest_env_def)
  assume "compute_combined_hash sample_attest_env ((ca_tpm_quote (combined sample_attestation))\<lparr>q_nonce := ''a''\<rparr>)
       (ca_tee_quote (combined sample_attestation)) NoEvidence
   = compute_combined_hash sample_attest_env ((ca_tpm_quote (combined sample_attestation))\<lparr>q_nonce := ''b''\<rparr>)
       (ca_tee_quote (combined sample_attestation)) NoEvidence"
  from combined_hash_binds_contents[OF this i sample_sections_fit sample_sections_fit] c
  show False by (simp add: sample_attestation_def)
qed
subsection \<open>A platform statement answers one challenge\<close>

lemma challenge_bytes_inj:
  assumes "challenge_bytes k n = challenge_bytes k' n'" "small k" "small k'" "small n" "small n'"
  shows "k = k' \<and> n = n'"
proof -
  have "write_blob [] (bytes_of k) @ write_blob [] (bytes_of n) = write_blob [] (bytes_of k') @ write_blob [] (bytes_of n')"
    using assms(1) by (simp add: challenge_bytes_def write_blob_def)
  then have "bytes_of k = bytes_of k' \<and> write_blob [] (bytes_of n) @ [] = write_blob [] (bytes_of n') @ []"
    using blob_append_eq[of "bytes_of k" "bytes_of k'"] assms(2,3) by (simp add: small_def)
  then show ?thesis using blob_append_eq[of "bytes_of n" "bytes_of n'" "[]" "[]"] assms(4,5) by (simp add: small_def)
qed

lemma challenge_binds:
  assumes "attestation_challenge E k n = attestation_challenge E k' n'" "small k" "small k'" "small n" "small n'"
  shows "k = k' \<and> n = n' \<or> collides (ae_sha256 E) (challenge_bytes k n) (challenge_bytes k' n')"
  using assms challenge_bytes_inj[of k n k' n'] unfolding attestation_challenge_def collides_def by blast

lemma padded_challenge_inj:
  assumes "confidential_vm_challenge E k n = confidential_vm_challenge E k' n'" "\<And>b. length (ae_sha256 E b) = dl" "dl \<le> 64"
  shows "attestation_challenge E k n = attestation_challenge E k' n'"
  using assms by (simp add: confidential_vm_challenge_def attestation_challenge_def Let_def)

lemma hardware_verified_statement:
  assumes "report_verify E now_ms r x n = Inr v" "is_hardware_verified (platform_quote v)"
  shows "platform_statement E now_ms r x n"
proof -
  obtain t b where "verify_platform_quote E now_ms r x n = Inr (QuoteVerified t, b)"
    using assms by (cases "platform_quote v") (auto simp: report_verify_Inr is_hardware_verified_def)
  then show ?thesis by (rule verify_platform_quote_Verified[THEN conjunct1])
qed

lemma tpm_statement_challenge:
  "tpm_statement E r ch \<Longrightarrow> tpm_statement E r' ch' \<Longrightarrow>
   q_attest_message_hex (ca_tpm_quote (combined r)) = q_attest_message_hex (ca_tpm_quote (combined r')) \<Longrightarrow> ch = ch'"
  unfolding tpm_statement_def by auto

lemma snp_statement_challenge: "snp_statement E x rep v c ch \<Longrightarrow> snp_statement E x' rep v' c' ch' \<Longrightarrow> ch = ch'"
  unfolding snp_statement_def by auto

lemma nitro_statement_challenge: "nitro_statement E now x d ch \<Longrightarrow> nitro_statement E now' x' d ch' \<Longrightarrow> ch = ch'"
  unfolding nitro_statement_def by auto

text \<open>Two reports carrying the same signed statement answer the same challenge.\<close>

lemma same_statement_same_challenge:
  assumes "platform_statement E now r x n" "platform_statement E now' r' x' n'"
    and "ca_platform_evidence (combined r) = ca_platform_evidence (combined r')"
    and "q_attest_message_hex (ca_tpm_quote (combined r)) = q_attest_message_hex (ca_tpm_quote (combined r'))"
    and "\<And>b. length (ae_sha256 E b) = dl" "dl \<le> 64"
  shows "attestation_challenge E (t_enclave_signing_key_hex (ca_tee_quote (combined r))) n
    = attestation_challenge E (t_enclave_signing_key_hex (ca_tee_quote (combined r'))) n'"
proof -
  note st = assms(1,2)[unfolded platform_statement_def Let_def assms(3)]
  show ?thesis
  proof (cases "ca_platform_evidence (combined r')")
    case NoEvidence
    then show ?thesis using st by (intro tpm_statement_challenge[OF _ _ assms(4)]) simp_all
  next
    case (SevSnpEvidence rep vcek certs)
    show ?thesis
      by (rule padded_challenge_inj[OF _ assms(5,6)], rule snp_statement_challenge) (use st SevSnpEvidence in simp_all)
  next
    case (NitroEvidence d)
    show ?thesis by (rule nitro_statement_challenge) (use st NitroEvidence in simp_all)
  qed
qed

text \<open>C6. A signed platform statement answers one client and speaks for one key: if two
  accepted reports carry the same TPM message and evidence, whoever checked them and whenever,
  they declare the same signing key and answer the same nonce, or the two challenges are a
  collision of SHA-256.\<close>

theorem statement_serves_one_nonce_and_key:
  assumes "report_verify E now r x n = Inr v" "is_hardware_verified (platform_quote v)"
    and "report_verify E now' r' x' n' = Inr v'" "is_hardware_verified (platform_quote v')"
    and "ca_platform_evidence (combined r) = ca_platform_evidence (combined r')"
    and "q_attest_message_hex (ca_tpm_quote (combined r)) = q_attest_message_hex (ca_tpm_quote (combined r'))"
    and "k = t_enclave_signing_key_hex (ca_tee_quote (combined r))" "k' = t_enclave_signing_key_hex (ca_tee_quote (combined r'))"
    and "\<And>b. length (ae_sha256 E b) = dl" "dl \<le> 64" "small k" "small k'" "small n" "small n'"
  shows "k = k' \<and> n = n' \<or> collides (ae_sha256 E) (challenge_bytes k n) (challenge_bytes k' n')"
  using same_statement_same_challenge[OF hardware_verified_statement[OF assms(1,2)] hardware_verified_statement[OF assms(3,4)] assms(5,6,9,10)]
  by (intro challenge_binds) (use assms(7,8,11-) in simp_all)

theorem statement_serves_one_nonce_and_key_witness:
  "platform_quote (projr (report_verify sample_hash_env 0 sample_attestation sample_pins ''n'')) = QuoteVerified False
   \<and> (''k'' = ''k'' \<and> ''n'' = ''n'' \<or> collides (ae_sha256 sample_hash_env) (challenge_bytes ''k'' ''n'') (challenge_bytes ''k'' ''n''))"
proof -
  have k: "''k'' = t_enclave_signing_key_hex (ca_tee_quote (combined sample_attestation))" by (simp add: sample_attestation_def)
  have l: "length (ae_sha256 sample_hash_env b) = 1" for b by (simp add: sample_hash_env_def)
  have h: "is_hardware_verified (platform_quote \<lparr>platform_quote = QuoteVerified False, binds_signing_key = True, va_measurement_source = ''tpm2''\<rparr>)"
    by (simp add: is_hardware_verified_def)
  show ?thesis
    using statement_serves_one_nonce_and_key[OF sample_attestation_verifies h sample_attestation_verifies h refl refl k k l]
      sample_attestation_verifies by (simp add: small_def)
qed

end
