(* ===== verification/PlatformProbes.thy ===== *)
theory PlatformProbes
  imports Attestation Errors
begin

text \<open>
  The platform probes of a node: the TPM through \<^verbatim>\<open>tpm2-tools\<close> (\<^verbatim>\<open>cordon-core/src/tpm.rs\<close>) and
  the confidential-VM report interface (\<^verbatim>\<open>cordon-core/src/confidential_vm.rs\<close>).  What commands
  and files answer are the records \<open>tpm_host\<close> and \<open>tsm_device\<close>.
\<close>

subsection \<open>The TPM\<close>

datatype command_outcome = NotRunnable string | CommandFailed string | CommandOutput string

text \<open>
  \<open>th_ak_ctx\<close> is the path in \<^verbatim>\<open>CORDON_TPM_AK_CTX\<close> when the file exists, \<open>th_workspace n\<close> the
  \<open>n\<close>-th private directory asked for, \<open>th_file\<close> what the files hold after the commands ran.
\<close>

record tpm_host =
  th_run :: "string list \<Rightarrow> command_outcome"
  th_ak_ctx :: "string option"
  th_workspace :: "nat \<Rightarrow> string + string"
  th_file :: "string \<Rightarrow> string + bytes"
  th_b64 :: "bytes \<Rightarrow> string"

record TpmQuoteResult =
  message_hex :: string
  signature_hex :: string
  aik_public_key_hex :: string
  ek_cert_chain :: "string list"

definition run_command :: "tpm_host \<Rightarrow> string list \<Rightarrow> string CordonResult" where
  "run_command H args = (case args of
     [] \<Rightarrow> Inl (Internal ''empty command'')
   | cmd # _ \<Rightarrow> (case th_run H args of
       NotRunnable e \<Rightarrow> Inl (AttestationInvalid (cmd @ '' is not runnable: '' @ e))
     | CommandFailed err \<Rightarrow> Inl (AttestationInvalid (cmd @ '' failed: '' @ trim err))
     | CommandOutput out \<Rightarrow> Inr out))"

definition tpm_is_available :: "tpm_host \<Rightarrow> bool" where
  "tpm_is_available H \<longleftrightarrow> (case run_command H [''tpm2_pcrread'', ''sha256:0''] of Inr _ \<Rightarrow> True | Inl _ \<Rightarrow> False)"

fun join_comma :: "string list \<Rightarrow> string" where
  "join_comma [] = []"
| "join_comma [s] = s"
| "join_comma (s # ss) = s @ '','' @ join_comma ss"

definition pcr_selection :: "nat list \<Rightarrow> string" where
  "pcr_selection indices = ''sha256:'' @ join_comma (map show_nat indices)"

text \<open>\<^verbatim>\<open>str::parse::<u8>\<close>: an optional plus sign, digits, at most 255.\<close>

definition digit :: "char \<Rightarrow> bool" where
  "digit c \<longleftrightarrow> 48 \<le> (of_char c :: nat) \<and> (of_char c :: nat) \<le> 57"

definition parse_u8 :: "string \<Rightarrow> nat option" where
  "parse_u8 s = (let d = (case s of c # r \<Rightarrow> if c = CHR ''+'' then r else s | [] \<Rightarrow> []);
     n = foldl (\<lambda>acc c. acc * 10 + (of_char c - 48)) 0 d in
     if d = [] \<or> \<not> list_all digit d \<or> n > 255 then None else Some n)"

definition split_once :: "char \<Rightarrow> string \<Rightarrow> (string \<times> string) option" where
  "split_once c s = (if c \<in> set s then Some (takeWhile (\<lambda>x. x \<noteq> c) s, tl (dropWhile (\<lambda>x. x \<noteq> c) s)) else None)"

fun trim_start_0x :: "string \<Rightarrow> string" where
  "trim_start_0x (a # b # s) = (if a = CHR ''0'' \<and> b = CHR ''x'' then trim_start_0x s else a # b # s)"
| "trim_start_0x s = s"

definition parse_pcr_line :: "TpmPcrSet \<Rightarrow> string \<Rightarrow> TpmPcrSet" where
  "parse_pcr_line m line = (case split_once (CHR '':'') (trim line) of
     None \<Rightarrow> m
   | Some (index_part, value_part) \<Rightarrow> (case parse_u8 (trim index_part) of
       None \<Rightarrow> m
     | Some index \<Rightarrow> let v = to_lower (trim_start_0x (trim value_part)) in
         if v \<noteq> [] \<and> list_all hex_digit v then pcr_set m index (''sha256:'' @ v) else m))"

definition parse_pcrread :: "string \<Rightarrow> TpmPcrSet" where
  "parse_pcrread text = foldl parse_pcr_line [] (lines text)"

definition tpm_read_pcrs :: "tpm_host \<Rightarrow> nat list \<Rightarrow> TpmPcrSet CordonResult" where
  "tpm_read_pcrs H indices = (if indices = [] then Inr []
     else and_then (run_command H [''tpm2_pcrread'', pcr_selection indices]) (\<lambda>out. Inr (parse_pcrread out)))"

definition private_workspace :: "tpm_host \<Rightarrow> nat \<Rightarrow> string CordonResult" where
  "private_workspace H n = (case th_workspace H n of
     Inl e \<Rightarrow> Inl (AttestationInvalid (''cannot create a private directory for TPM output: '' @ e)) | Inr p \<Rightarrow> Inr p)"

definition read_ak_public :: "tpm_host \<Rightarrow> attest_env \<Rightarrow> string \<Rightarrow> string option" where
  "read_ak_public H E ak_ctx = (case private_workspace H 1 of Inl _ \<Rightarrow> None
   | Inr ws \<Rightarrow> let out = ws @ ''/ak-public.bin'' in
     (case run_command H [''tpm2_readpublic'', ''-c'', ak_ctx, ''-o'', out, ''-f'', ''tpmt''] of Inl _ \<Rightarrow> None
      | Inr _ \<Rightarrow> (case th_file H out of Inl _ \<Rightarrow> None | Inr b \<Rightarrow> Some (ae_hex E b))))"

definition read_ek_certificate_chain :: "tpm_host \<Rightarrow> string list" where
  "read_ek_certificate_chain H = (case private_workspace H 2 of Inl _ \<Rightarrow> []
   | Inr ws \<Rightarrow> let out = ws @ ''/ek-cert.der'' in
     (case run_command H [''tpm2_nvread'', ''0x01c00002'', ''-o'', out] of Inl _ \<Rightarrow> []
      | Inr _ \<Rightarrow> (case th_file H out of Inl _ \<Rightarrow> [] | Inr der \<Rightarrow> [th_b64 H der])))"

definition tpm_file :: "tpm_host \<Rightarrow> string \<Rightarrow> string \<Rightarrow> bytes CordonResult" where
  "tpm_file H what path = (case th_file H path of
     Inl e \<Rightarrow> Inl (AttestationInvalid (''cannot read quote '' @ what @ '': '' @ e)) | Inr b \<Rightarrow> Inr b)"

definition tpm_quote :: "tpm_host \<Rightarrow> attest_env \<Rightarrow> nat list \<Rightarrow> bytes \<Rightarrow> TpmQuoteResult CordonResult" where
  "tpm_quote H E indices challenge = (case th_ak_ctx H of
     None \<Rightarrow> Inl (AttestationInvalid ''CORDON_TPM_AK_CTX is unset or points at a missing file. Provision an Attestation Key with tpm2_createak and set the variable to its context file; without one the TPM cannot sign a quote.'')
   | Some ak_ctx \<Rightarrow>
     and_then (private_workspace H 0) (\<lambda>ws.
     let msg_path = ws @ ''/quote.msg''; sig_path = ws @ ''/quote.sig'' in
     and_then (run_command H [''tpm2_quote'', ''-c'', ak_ctx, ''-l'', pcr_selection indices, ''-q'', ae_hex E challenge,
        ''-m'', msg_path, ''-s'', sig_path, ''-g'', ''sha256'']) (\<lambda>_.
     and_then (tpm_file H ''message'' msg_path) (\<lambda>m.
     and_then (tpm_file H ''signature'' sig_path) (\<lambda>s.
       Inr \<lparr>message_hex = ae_hex E m, signature_hex = ae_hex E s,
         aik_public_key_hex = (case read_ak_public H E ak_ctx of None \<Rightarrow> [] | Some k \<Rightarrow> k),
         ek_cert_chain = read_ek_certificate_chain H\<rparr>)))))"

subsection \<open>The confidential-VM report interface\<close>

definition REPORT_DATA_LEN :: nat where "REPORT_DATA_LEN = 64"

datatype ConfidentialPlatform = PlatformSevSnp | PlatformTdx | PlatformUnknown

definition starts_with :: "string \<Rightarrow> string \<Rightarrow> bool" where
  "starts_with p s \<longleftrightarrow> take (length p) s = p"

definition from_provider :: "string \<Rightarrow> ConfidentialPlatform" where
  "from_provider provider = (let name = trim provider in
     if starts_with ''sev_guest'' name then PlatformSevSnp
     else if starts_with ''tdx_guest'' name then PlatformTdx else PlatformUnknown)"

definition platform_as_str :: "ConfidentialPlatform \<Rightarrow> string" where
  "platform_as_str p = (case p of PlatformSevSnp \<Rightarrow> ''amd_sev_snp'' | PlatformTdx \<Rightarrow> ''intel_tdx'' | PlatformUnknown \<Rightarrow> ''unknown'')"

text \<open>One request's directory: whether it can be made, whether the input can be written,
  and what the kernel answers to the sixty-four bytes written.\<close>

record tsm_device =
  tsm_available :: bool
  tsm_create :: "(string \<times> string) + unit"
  tsm_write :: "string + unit"
  tsm_outblob :: "bytes \<Rightarrow> string + bytes"
  tsm_provider :: "string + string"
  tsm_auxblob :: "string + bytes"

record HardwareReport =
  hr_platform :: ConfidentialPlatform
  hr_report :: bytes
  hr_certificates :: bytes

definition create_entry :: "tsm_device \<Rightarrow> unit CordonResult" where
  "create_entry D = (case tsm_create D of
     Inl (path, e) \<Rightarrow> Inl (AttestationInvalid (''cannot create a TSM report entry at '' @ path @ '': '' @ e @ ''. The node needs write access to configfs; check that it is mounted and that the service account can use it.''))
   | Inr _ \<Rightarrow> Inr ())"

definition write_input :: "tsm_device \<Rightarrow> unit CordonResult" where
  "write_input D = (case tsm_write D of
     Inl e \<Rightarrow> Inl (AttestationInvalid (''cannot set the report challenge: '' @ e)) | Inr _ \<Rightarrow> Inr ())"

definition read_binary :: "string \<Rightarrow> string + bytes \<Rightarrow> bytes CordonResult" where
  "read_binary name r = (case r of Inl e \<Rightarrow> Inl (AttestationInvalid (''cannot read '' @ name @ '': '' @ e)) | Inr b \<Rightarrow> Inr b)"

definition or_default :: "'e + 'a list \<Rightarrow> 'a list" where
  "or_default r = (case r of Inl _ \<Rightarrow> [] | Inr x \<Rightarrow> x)"

definition request_report :: "tsm_device \<Rightarrow> bytes \<Rightarrow> HardwareReport CordonResult" where
  "request_report D rdata =
     (if length rdata > REPORT_DATA_LEN
      then Inl (AttestationInvalid (''report data is '' @ show_nat (length rdata) @ '' bytes; a hardware report commits to at most '' @ show_nat REPORT_DATA_LEN))
      else if \<not> tsm_available D
      then Inl (AttestationInvalid ''no confidential-VM report interface at /sys/kernel/config/tsm/report. This node is not running inside an AMD SEV-SNP or Intel TDX guest, or the kernel predates 6.7 and does not expose configfs-tsm. Cordon will not substitute a weaker measurement for one it was told to produce.'')
      else let padded = rdata @ replicate (REPORT_DATA_LEN - length rdata) 0 in
        and_then (create_entry D) (\<lambda>_.
        and_then (write_input D) (\<lambda>_.
        and_then (read_binary ''outblob'' (tsm_outblob D padded)) (\<lambda>rep.
        if rep = [] then Inl (AttestationInvalid ''the platform returned an empty attestation report'')
        else Inr \<lparr>hr_platform = from_provider (trim (or_default (tsm_provider D))), hr_report = rep,
               hr_certificates = or_default (tsm_auxblob D)\<rparr>))))"

subsection \<open>The certificate table\<close>

record CachedCertificates =
  vcek :: "bytes option"
  ask :: "bytes option"
  ark :: "bytes option"

definition CERT_TABLE_ENTRY_LEN :: nat where "CERT_TABLE_ENTRY_LEN = 24"

definition GUID_VCEK :: bytes where
  "GUID_VCEK = [0x8d, 0x75, 0xda, 0x63, 0x64, 0xe6, 0x64, 0x45, 0xad, 0xc5, 0xf4, 0xb9, 0x3b, 0xe8, 0xac, 0xcd]"
definition GUID_ASK :: bytes where
  "GUID_ASK = [0x79, 0xb3, 0xb7, 0x4a, 0xac, 0xbb, 0xe4, 0x4f, 0xa0, 0x2f, 0x05, 0xae, 0xf3, 0x27, 0xc7, 0x82]"
definition GUID_ARK :: bytes where
  "GUID_ARK = [0xa4, 0x06, 0xb4, 0xc0, 0x03, 0xa8, 0x52, 0x49, 0x97, 0x43, 0x3f, 0xb6, 0x01, 0x4c, 0xd0, 0xae]"

definition store_certificate :: "bytes \<Rightarrow> bytes \<Rightarrow> CachedCertificates \<Rightarrow> CachedCertificates" where
  "store_certificate guid der c =
     (if guid = GUID_VCEK then c\<lparr>vcek := Some der\<rparr> else if guid = GUID_ASK then c\<lparr>ask := Some der\<rparr>
      else if guid = GUID_ARK then c\<lparr>ark := Some der\<rparr> else c)"

text \<open>One entry: a GUID, an offset and a length; \<open>None\<close> is the terminator.\<close>

definition table_entry :: "bytes \<Rightarrow> nat \<Rightarrow> CachedCertificates \<Rightarrow> CachedCertificates option" where
  "table_entry blob offset c = (let entry = take CERT_TABLE_ENTRY_LEN (drop offset blob); guid = take 16 entry;
     blob_offset = le_value (take 4 (drop 16 entry)); blob_len = le_value (take 4 (drop 20 entry)); stop = blob_offset + blob_len in
     if list_all (\<lambda>b. b = 0) guid then None
     else if stop \<le> length blob then Some (store_certificate guid (take blob_len (drop blob_offset blob)) c)
     else Some c)"

text \<open>The loop over entries: nothing in its shape says that it ends.\<close>

partial_function (option) table_loop :: "bytes \<Rightarrow> nat \<Rightarrow> CachedCertificates \<Rightarrow> CachedCertificates option" where
  "table_loop blob offset c =
     (if offset + CERT_TABLE_ENTRY_LEN \<le> length blob
      then (case table_entry blob offset c of None \<Rightarrow> Some c
            | Some c' \<Rightarrow> table_loop blob (offset + CERT_TABLE_ENTRY_LEN) c')
      else Some c)"

declare table_loop.simps [code]

definition no_certificates :: CachedCertificates where
  "no_certificates = \<lparr>vcek = None, ask = None, ark = None\<rparr>"

definition parse_certificate_table :: "bytes \<Rightarrow> CachedCertificates option" where
  "parse_certificate_table blob = (if blob = [] then Some no_certificates else table_loop blob 0 no_certificates)"
subsection \<open>What the probes guarantee\<close>

definition slice_of :: "bytes \<Rightarrow> bytes \<Rightarrow> bool" where
  "slice_of blob d \<longleftrightarrow> (\<exists>off. off + length d \<le> length blob \<and> d = take (length d) (drop off blob))"

definition slices :: "bytes \<Rightarrow> CachedCertificates \<Rightarrow> bool" where
  "slices blob c \<longleftrightarrow> (\<forall>d. vcek c = Some d \<or> ask c = Some d \<or> ark c = Some d \<longrightarrow> slice_of blob d)"

lemma slice_ofI: "off + n \<le> length blob \<Longrightarrow> slice_of blob (take n (drop off blob))"
  unfolding slice_of_def by (intro exI[of _ off]) simp

lemma table_entry_slices:
  assumes "table_entry blob offset c = Some c'" "slices blob c"
  shows "slices blob c'"
  using assms slice_ofI[of _ _ blob]
  by (auto simp: table_entry_def store_certificate_def slices_def Let_def split: if_splits)

lemma table_loop_returns:
  "slices blob c \<Longrightarrow> \<exists>r. table_loop blob offset c = Some r \<and> slices blob r"
proof (induction "length blob - offset" arbitrary: offset c rule: less_induct)
  case less
  show ?case
  proof (cases "offset + CERT_TABLE_ENTRY_LEN \<le> length blob")
    case True
    show ?thesis
    proof (cases "table_entry blob offset c")
      case None
      then show ?thesis using True less.prems by (simp add: table_loop.simps[of blob offset])
    next
      case (Some c')
      have "length blob - (offset + CERT_TABLE_ENTRY_LEN) < length blob - offset"
        using True by (simp add: CERT_TABLE_ENTRY_LEN_def)
      from less.hyps[OF this table_entry_slices[OF Some less.prems]]
      show ?thesis using True Some by (simp add: table_loop.simps[of blob offset])
    qed
  next
    case False
    then show ?thesis using less.prems by (simp add: table_loop.simps[of blob offset])
  qed
qed

text \<open>Reading the certificate table ends on every blob a host may supply, and every
  certificate it yields is a stretch of that blob, whatever offsets and lengths the entries
  name.\<close>

theorem certificate_table_returns_slices:
  "\<exists>c. parse_certificate_table blob = Some c \<and> slices blob c"
  using table_loop_returns[of blob no_certificates 0]
  by (simp add: parse_certificate_table_def no_certificates_def slices_def)

lemma pcr_set_keys: "set (map fst (pcr_set m k v)) = insert k (set (map fst m))"
  by (induction m k v rule: pcr_set.induct) auto

lemma pcr_set_sorted: "sorted_wrt (<) (map fst m) \<Longrightarrow> sorted_wrt (<) (map fst (pcr_set m k v))"
proof (induction m k v rule: pcr_set.induct)
  case (2 k' v' m k v)
  have "\<forall>x \<in> set (map fst (pcr_set m k v)). k' < x" if "k' < k"
    using 2(2) that unfolding pcr_set_keys by auto
  then show ?case using 2 by auto
qed simp

lemma map_of_pcr_set: "sorted_wrt (<) (map fst m) \<Longrightarrow> map_of (pcr_set m k v) = (map_of m)(k \<mapsto> v)"
proof (induction m k v rule: pcr_set.induct)
  case (2 k' v' m k v)
  then show ?case by (auto simp: fun_eq_iff)
qed (simp add: fun_eq_iff)

lemma parse_u8_byte: "parse_u8 s = Some n \<Longrightarrow> n < 256"
  by (auto simp: parse_u8_def Let_def split: if_splits list.splits)

definition registers_ok :: "TpmPcrSet \<Rightarrow> bool" where
  "registers_ok m \<longleftrightarrow> sorted_wrt (<) (map fst m) \<and> list_all (\<lambda>i. i < 256) (map fst m)"

lemma parse_pcr_line_ok: "registers_ok m \<Longrightarrow> registers_ok (parse_pcr_line m l)"
  unfolding parse_pcr_line_def Let_def registers_ok_def list_all_iff
  by (auto simp only: pcr_set_keys insert_iff split: option.splits if_splits prod.splits intro: pcr_set_sorted parse_u8_byte)

text \<open>Registers come out once each, in ascending order, whatever the tool prints.\<close>

lemma parse_pcrread_ok: "registers_ok (parse_pcrread t)"
proof -
  have "registers_ok m \<Longrightarrow> registers_ok (foldl parse_pcr_line m ls)" for m ls
    by (induction ls arbitrary: m) (simp_all add: parse_pcr_line_ok)
  then show ?thesis by (simp add: parse_pcrread_def registers_ok_def)
qed

text \<open>The padding of the request is the padding of the verifier.\<close>

lemma request_report_Inr:
  "request_report D ch = Inr hr \<Longrightarrow> length ch \<le> 64 \<and> tsm_available D
     \<and> tsm_outblob D (ch @ replicate (64 - length ch) 0) = Inr (hr_report hr) \<and> hr_report hr \<noteq> []
     \<and> hr_certificates hr = or_default (tsm_auxblob D)"
  by (auto simp: request_report_def Let_def REPORT_DATA_LEN_def read_binary_def split: if_splits sum.splits)

lemma request_matches_verifier:
  assumes "request_report D (attestation_challenge E key nonce) = Inr hr"
  shows "tsm_outblob D (confidential_vm_challenge E key nonce) = Inr (hr_report hr)"
  using request_report_Inr[OF assms] by (simp add: confidential_vm_challenge_def Let_def)

end
