(* ===== verification/AttestationService.thy ===== *)
theory AttestationService
  imports Config PlatformProbes
begin

text \<open>
  The attestation service of \<^verbatim>\<open>cordon-core/src/attestation_service.rs\<close>: the measurements a
  node starts with, the reports it produces, the pins it checks them against, the clients
  that have attested it and how long that lasts.  The TPM and the confidential-VM interface
  are the devices of \<open>PlatformProbes\<close>, gathered in the record \<open>platform\<close>.
\<close>

definition CORDON_RUNTIME :: nat where "CORDON_RUNTIME = 11"
definition CORDON_CONFIG :: nat where "CORDON_CONFIG = 12"
definition MODEL_MANIFEST :: nat where "MODEL_MANIFEST = 13"
definition PCR_ALL :: "nat list" where "PCR_ALL = [0, 1, 2, 3, 4, 5, 7, 8, 9, 11, 12, 13, 14]"

record VerificationRecord =
  vr_client_id :: string
  verified_at :: datetime
  vr_combined_hash :: string
  established :: VerifiedAttestation

record AttestationService =
  as_config :: CordonConfig
  measurements :: TpmPcrSet
  mrenclave :: string
  mrsigner :: string
  verified_clients :: "(string \<times> VerificationRecord) list"
  last_attestation :: "datetime option"

record platform =
  pf_tpm :: tpm_host
  pf_tsm :: tsm_device
  pkg_version :: string
  pf_b64 :: "bytes \<Rightarrow> string"

subsection \<open>Measurements\<close>

definition read_tpm_measurements :: "platform \<Rightarrow> CordonConfig \<Rightarrow> TpmPcrSet CordonResult" where
  "read_tpm_measurements p c =
     (if \<not> tpm_is_available (pf_tpm p) then Inl (AttestationInvalid (''attestation.measurement_source is '' @ qq ''tpm2'' @ '' but no TPM is reachable. Cordon will not fall back to a software measurement in '' @ mode_display (mode c) @ '' mode: doing so would report a hardware guarantee it cannot provide. Install tpm2-tools and confirm the device, or run in Light mode.''))
      else (case tpm_read_pcrs (pf_tpm p) PCR_ALL of
        Inl e \<Rightarrow> Inl (AttestationInvalid (''cannot read TPM PCRs: '' @ cordon_error_to_string e))
      | Inr m \<Rightarrow> if m = [] then Inl (AttestationInvalid ''the TPM returned no PCR values'') else Inr m))"

definition probe_confidential_vm :: "attest_env \<Rightarrow> platform \<Rightarrow> CordonConfig \<Rightarrow> string CordonResult" where
  "probe_confidential_vm E p c =
     (if \<not> tsm_available (pf_tsm p) then Inl (AttestationInvalid (''attestation.measurement_source is '' @ qq ''sev_snp'' @ '' but this node is not running inside a confidential VM, or the kernel does not expose configfs-tsm (Linux 6.7+). Cordon will not fall back to a weaker measurement in '' @ mode_display (mode c) @ '' mode. Deploy on an SEV-SNP guest, or change the measurement source.''))
      else (case request_report (pf_tsm p) (replicate 32 0) of
        Inl e \<Rightarrow> Inl (AttestationInvalid (''the confidential-VM report interface is present but did not produce a report: '' @ cordon_error_to_string e))
      | Inr probe \<Rightarrow> (case parse_report (hr_report probe) of
          Inl e \<Rightarrow> Inl (AttestationInvalid (''the platform returned a report Cordon cannot parse: '' @ crypto_error_to_string e))
        | Inr rep \<Rightarrow>
          if debug_allowed (guest_policy rep) then Inl (AttestationInvalid ''this guest was launched with a policy that permits debugging, which lets the hypervisor read its memory. That defeats the confidentiality the deployment mode claims. Relaunch with debugging disabled.'')
          else Inr (measurement_hex E rep))))"

definition derive_measurement :: "crypto_env \<Rightarrow> CordonConfig \<Rightarrow> nat \<Rightarrow> string \<Rightarrow> string" where
  "derive_measurement C c index input = ''sha256:'' @ digest_hex C (''CORDON_SOFTWARE_MEASUREMENT_v1''
     @ ''PCR['' @ show_nat index @ '']:'' @ input @ cc_node_id c)"

definition derive_software_measurements :: "crypto_env \<Rightarrow> platform \<Rightarrow> CordonConfig \<Rightarrow> (nat \<times> string) list" where
  "derive_software_measurements C p c = [
     (CORDON_RUNTIME, derive_measurement C c CORDON_RUNTIME (''cordon-'' @ pkg_version p @ ''-'' @ cc_deployment_id c)),
     (CORDON_CONFIG, derive_measurement C c CORDON_CONFIG
        (''mode='' @ mode_display (mode c) @ '';tee='' @ tee_display (tee_preferred (tee c)))),
     (MODEL_MANIFEST, derive_measurement C c MODEL_MANIFEST ''no-model-loaded'')]"

definition software_mrenclave :: "crypto_env \<Rightarrow> platform \<Rightarrow> CordonConfig \<Rightarrow> string" where
  "software_mrenclave C p c = digest_hex C (''CORDON_ENCLAVE_v2'' @ pkg_version p @ cc_node_id c)"

definition take_measurements :: "attest_env \<Rightarrow> crypto_env \<Rightarrow> platform \<Rightarrow> AttestationService \<Rightarrow> AttestationService CordonResult" where
  "take_measurements E C p s = (let c = as_config s;
       signer = digest_hex C (''CORDON_SIGNER_v2'' @ cc_node_id c) in
     case measurement_source (attestation c) of
       Tpm2 \<Rightarrow> (case read_tpm_measurements p c of Inl e \<Rightarrow> Inl e
         | Inr m \<Rightarrow> Inr (s\<lparr>measurements := m, mrenclave := software_mrenclave C p c, mrsigner := signer\<rparr>))
     | SevSnp \<Rightarrow> (case probe_confidential_vm E p c of Inl e \<Rightarrow> Inl e
         | Inr mr \<Rightarrow> Inr (s\<lparr>measurements := [], mrenclave := mr, mrsigner := signer\<rparr>))
     | NitroEnclave \<Rightarrow> Inl (ConfigError (''attestation.measurement_source = '' @ qq ''nitro_enclave'' @ '' cannot be used to run a node. Cordon verifies Nitro attestation documents (a client can check one against a pinned AWS root), but it cannot produce one: the Nitro Security Module is reached by ioctl from inside an enclave, and an enclave has no persistent storage for the audit log and no network interface for the API. See the '' @ qq ''What is not implemented'' @ '' section of SECURITY.md. Use '' @ qq ''sev_snp'' @ '' for a confidential VM, or '' @ qq ''tpm2'' @ '' for a TPM-attested host.''))
     | SoftwareMeasurement \<Rightarrow> Inr (s\<lparr>measurements := derive_software_measurements C p c,
         mrenclave := software_mrenclave C p c, mrsigner := signer\<rparr>))"

definition service_new :: "attest_env \<Rightarrow> crypto_env \<Rightarrow> platform \<Rightarrow> CordonConfig \<Rightarrow> AttestationService CordonResult" where
  "service_new E C p c = take_measurements E C p \<lparr>as_config = c, measurements = [], mrenclave = [], mrsigner = [],
     verified_clients = [], last_attestation = None\<rparr>"

definition service_has_hardware_measurements :: "AttestationService \<Rightarrow> bool" where
  "service_has_hardware_measurements s \<longleftrightarrow> measurement_source (attestation (as_config s)) = Tpm2"

definition extend_model_manifest :: "crypto_env \<Rightarrow> AttestationService \<Rightarrow> string \<Rightarrow> AttestationService" where
  "extend_model_manifest C s manifest_hash =
     (let current = (case map_of (measurements s) MODEL_MANIFEST of Some v \<Rightarrow> v | None \<Rightarrow> [])
      in s\<lparr>measurements := pcr_set (measurements s) MODEL_MANIFEST (''sha256:'' @ digest_hex C (current @ manifest_hash))\<rparr>)"

definition measurement_snapshot_hash :: "crypto_env \<Rightarrow> AttestationService \<Rightarrow> string" where
  "measurement_snapshot_hash C s = digest_hex C
     (concat (map (\<lambda>(i, v). show_nat i @ '':'' @ v) (sort_key fst (measurements s))))"

subsection \<open>Reports\<close>

definition service_tee_type :: "TeePreference \<Rightarrow> TeeType" where
  "service_tee_type t = (case t of SgxV2 \<Rightarrow> TeeIntelSgxV2 | AmdSevSnp \<Rightarrow> TeeAmdSevSnp | ArmTrustZone \<Rightarrow> TeeArmTrustZone
     | Simulation \<Rightarrow> TeeSimulation)"

definition request_sev_snp_evidence :: "attest_env \<Rightarrow> platform \<Rightarrow> AttestationService \<Rightarrow> bytes
   \<Rightarrow> (PlatformEvidence \<times> string) CordonResult \<times> AttestationService" where
  "request_sev_snp_evidence E p s challenge = (case request_report (pf_tsm p) challenge of
     Inl e \<Rightarrow> (Inl e, s)
   | Inr hardware \<Rightarrow> (case parse_report (hr_report hardware) of
       Inl e \<Rightarrow> (Inl (AttestationInvalid (crypto_error_to_string e)), s)
     | Inr parsed \<Rightarrow>
         let mr = measurement_hex E parsed; s1 = s\<lparr>mrenclave := mr\<rparr>;
           cached = (case parse_certificate_table (hr_certificates hardware) of Some c \<Rightarrow> c | None \<Rightarrow> no_certificates);
           chain = (case ask cached of None \<Rightarrow> [] | Some der \<Rightarrow> [pf_b64 p der])
         in (Inr (SevSnpEvidence (pf_b64 p (hr_report hardware))
               (case vcek cached of None \<Rightarrow> [] | Some der \<Rightarrow> pf_b64 p der) chain, mr), s1)))"

definition quote_parts :: "attest_env \<Rightarrow> platform \<Rightarrow> MeasurementSource \<Rightarrow> bytes \<Rightarrow> TpmQuoteResult CordonResult" where
  "quote_parts E p source challenge = (case source of
     Tpm2 \<Rightarrow> (case tpm_quote (pf_tpm p) E PCR_ALL challenge of
       Inl e \<Rightarrow> Inl (AttestationInvalid (''TPM quote failed: '' @ cordon_error_to_string e @ ''. The node cannot produce a hardware attestation report.''))
     | Inr q \<Rightarrow> Inr q)
   | SoftwareMeasurement \<Rightarrow> Inr \<lparr>message_hex = [], signature_hex = [], aik_public_key_hex = [],
       ek_cert_chain = [pf_b64 p (bytes_of ''NO_HARDWARE_ATTESTATION_KEY'')]\<rparr>
   | _ \<Rightarrow> Inr \<lparr>message_hex = [], signature_hex = [], aik_public_key_hex = [], ek_cert_chain = []\<rparr>)"

definition service_evidence :: "attest_env \<Rightarrow> platform \<Rightarrow> AttestationService \<Rightarrow> bytes
   \<Rightarrow> (PlatformEvidence \<times> string) CordonResult \<times> AttestationService" where
  "service_evidence E p s challenge = (if measurement_source (attestation (as_config s)) = SevSnp
     then request_sev_snp_evidence E p s challenge else (Inr (NoEvidence, mrenclave s), s))"

definition generate_attestation :: "attest_env \<Rightarrow> platform \<Rightarrow> AttestationService \<Rightarrow> datetime \<Rightarrow> string \<Rightarrow> string \<Rightarrow> string
   \<Rightarrow> AttestationReport CordonResult \<times> AttestationService" where
  "generate_attestation E p s now client_nonce node_id enclave_signing_key_hex =
     (if length client_nonce < 16
      then (Inl (ValidationFailed ''attestation nonce must be at least 16 characters so a report cannot be replayed against a guessable challenge''), s)
      else let source = measurement_source (attestation (as_config s)); challenge = attestation_challenge E enclave_signing_key_hex client_nonce in
      case quote_parts E p source challenge of
        Inl e \<Rightarrow> (Inl e, s)
      | Inr parts \<Rightarrow>
          let tq = \<lparr>q_pcr_values = measurements s, q_aik_public_key_hex = aik_public_key_hex parts,
                q_attest_message_hex = message_hex parts, q_quote_signature_hex = signature_hex parts, q_nonce = client_nonce,
                q_timestamp = now, q_ek_cert_chain = ek_cert_chain parts\<rparr>
          in (case service_evidence E p s challenge of
               (Inl e, s1) \<Rightarrow> (Inl e, s1)
             | (Inr (evidence, mr), s1) \<Rightarrow>
                 let te = \<lparr>t_tee_type = service_tee_type (tee_preferred (tee (as_config s))), t_mrenclave = mr, t_mrsigner = mrsigner s,
                       t_isv_svn = tee_minimum_security_version (tee (as_config s)),
                       t_raw_report_b64 = pf_b64 p (bytes_of (''CORDON_MEASUREMENT_REPORT:'' @ node_id @ '':'' @ mr)),
                       t_report_signature_b64 = [], t_measurement_source = source_display source,
                       t_enclave_signing_key_hex = enclave_signing_key_hex\<rparr>
                 in (Inr \<lparr>combined = \<lparr>ca_tpm_quote = tq, ca_tee_quote = te, ca_platform_evidence = evidence,
                         ca_combined_hash = compute_combined_hash E tq te evidence, ca_node_id = node_id,
                         ca_cordon_version = pkg_version p, ca_generated_at = now\<rparr>, ar_client_nonce = client_nonce\<rparr>,
                     s1\<lparr>last_attestation := Some now\<rparr>)))"

subsection \<open>Clients that have attested the node\<close>

definition attestation_interval :: "AttestationService \<Rightarrow> int" where
  "attestation_interval s = secs (3600 * int (interval_hours (attestation (as_config s))))"

definition pinned_measurements :: "AttestationService \<Rightarrow> ExpectedMeasurements option" where
  "pinned_measurements s = (case expected (attestation (as_config s)) of None \<Rightarrow> None
   | Some e \<Rightarrow> if pins_empty e then None
     else Some \<lparr>em_pcr_values = pin_pcr_values e,
       em_mrenclave = (case pin_mrenclave e of None \<Rightarrow> [] | Some m \<Rightarrow> m),
       em_mrsigner = (case pin_mrsigner e of None \<Rightarrow> [] | Some m \<Rightarrow> m),
       em_min_isv_svn = pin_min_isv_svn e, em_tee_type = service_tee_type (tee_preferred (tee (as_config s))),
       em_sev_snp = map_option (\<lambda>p. \<lparr>sp_amd_root_der_b64 = amd_root_der_b64 p, sp_min_bootloader_svn = word_of_nat (min_bootloader_svn p),
         sp_min_tee_svn = word_of_nat (min_tee_svn p), sp_min_snp_svn = word_of_nat (min_snp_svn p),
         sp_min_microcode_svn = word_of_nat (min_microcode_svn p), sp_refuse_debuggable_guest = refuse_debuggable_guest p,
         sp_expected_vmpl = expected_vmpl p\<rparr>) (pin_sev_snp e),
       em_nitro = map_option (\<lambda>n. \<lparr>np_root_der_b64 = nitro_root_der_b64 n, np_pcr_values = nitro_pcr_values n,
         np_max_age_seconds = nitro_max_age_seconds n\<rparr>) (pin_nitro e)\<rparr>)"

definition verify_for_client ::
  "attest_env \<Rightarrow> AttestationService \<Rightarrow> datetime \<Rightarrow> AttestationReport \<Rightarrow> string \<Rightarrow> string
   \<Rightarrow> VerifiedAttestation CordonResult \<times> AttestationService" where
  "verify_for_client E s now rep client_nonce client_id = (case pinned_measurements s of
     None \<Rightarrow> (Inl (AttestationInvalid ''this node has no pinned expected measurements, so an attestation report cannot be verified against anything. Pin them under [attestation.expected]; capture the current values with `cordon attest --pin`.''), s)
   | Some x \<Rightarrow> (case report_verify E (nat (timestamp_millis now)) rep x client_nonce of
       Inl err \<Rightarrow> (Inl (AttestationInvalid (crypto_error_to_string err)), s)
     | Inr v \<Rightarrow>
         if requires_hardware_tee (as_config s) \<and> \<not> is_hardware_verified (platform_quote v)
         then (Inl (AttestationInvalid (''this report carries no verified platform quote, and '' @ mode_display (mode (as_config s)) @ '' mode requires one. Measurements alone are a claim the node makes about itself.'')), s)
         else (Inr v, s\<lparr>verified_clients := AList.update client_id
                \<lparr>vr_client_id = client_id, verified_at = now, vr_combined_hash = ca_combined_hash (combined rep), established = v\<rparr>
                (verified_clients s)\<rparr>)))"

definition is_verified_by :: "AttestationService \<Rightarrow> datetime \<Rightarrow> string \<Rightarrow> bool" where
  "is_verified_by s now client_id = (case map_of (verified_clients s) client_id of
     None \<Rightarrow> False | Some r \<Rightarrow> now - verified_at r < attestation_interval s)"

definition is_verified_by_anyone :: "AttestationService \<Rightarrow> datetime \<Rightarrow> bool" where
  "is_verified_by_anyone s now = list_ex (\<lambda>(_, r). now - verified_at r < attestation_interval s) (verified_clients s)"

definition hardware_rooted_client_count :: "AttestationService \<Rightarrow> datetime \<Rightarrow> nat" where
  "hardware_rooted_client_count s now = length (filter
     (\<lambda>(_, r). now - verified_at r < attestation_interval s \<and> is_hardware_rooted (established r)) (verified_clients s))"

definition expire_stale_verifications :: "AttestationService \<Rightarrow> datetime \<Rightarrow> nat \<times> AttestationService" where
  "expire_stale_verifications s now =
     (let live = filter (\<lambda>(_, r). now - verified_at r < attestation_interval s) (verified_clients s)
      in (length (verified_clients s) - length live, s\<lparr>verified_clients := live\<rparr>))"

definition verified_client_count :: "AttestationService \<Rightarrow> datetime \<Rightarrow> nat \<times> AttestationService" where
  "verified_client_count s now = (let s1 = snd (expire_stale_verifications s now)
     in (length (verified_clients s1), s1))"
subsection \<open>What the service guarantees\<close>

text \<open>The pins describe this node.\<close>

definition self_pinned :: "AttestationService \<Rightarrow> string \<Rightarrow> ExpectedMeasurements \<Rightarrow> bool" where
  "self_pinned s mr x \<longleftrightarrow> \<not> em_is_empty x \<and> (\<forall>(i, e) \<in> set (em_pcr_values x). map_of (measurements s) i = Some e)
     \<and> (em_mrenclave x \<noteq> [] \<longrightarrow> mr = em_mrenclave x) \<and> (em_mrsigner x \<noteq> [] \<longrightarrow> mrsigner s = em_mrsigner x)
     \<and> em_min_isv_svn x \<le> tee_minimum_security_version (tee (as_config s))
     \<and> em_tee_type x = service_tee_type (tee_preferred (tee (as_config s)))"

lemma generate_attestation_Inr:
  assumes "generate_attestation E p s now n node key = (Inr rep, s')"
  shows "\<exists>parts evidence mr. quote_parts E p (measurement_source (attestation (as_config s))) (attestation_challenge E key n) = Inr parts
     \<and> fst (service_evidence E p s (attestation_challenge E key n)) = Inr (evidence, mr)
     \<and> q_pcr_values (ca_tpm_quote (combined rep)) = measurements s \<and> q_nonce (ca_tpm_quote (combined rep)) = n
     \<and> q_attest_message_hex (ca_tpm_quote (combined rep)) = message_hex parts
     \<and> q_quote_signature_hex (ca_tpm_quote (combined rep)) = signature_hex parts
     \<and> q_aik_public_key_hex (ca_tpm_quote (combined rep)) = aik_public_key_hex parts
     \<and> ca_platform_evidence (combined rep) = evidence \<and> t_mrenclave (ca_tee_quote (combined rep)) = mr
     \<and> t_mrsigner (ca_tee_quote (combined rep)) = mrsigner s
     \<and> t_isv_svn (ca_tee_quote (combined rep)) = tee_minimum_security_version (tee (as_config s))
     \<and> t_tee_type (ca_tee_quote (combined rep)) = service_tee_type (tee_preferred (tee (as_config s)))
     \<and> t_measurement_source (ca_tee_quote (combined rep)) = source_display (measurement_source (attestation (as_config s)))
     \<and> t_enclave_signing_key_hex (ca_tee_quote (combined rep)) = key
     \<and> ca_combined_hash (combined rep) = compute_combined_hash E (ca_tpm_quote (combined rep)) (ca_tee_quote (combined rep)) evidence"
  using assms by (auto simp: generate_attestation_def Let_def split: if_splits sum.splits prod.splits)

text \<open>A report the node produces passes every check but possibly the platform's.\<close>

lemma generated_report_verdict:
  assumes g: "generate_attestation E p s now n node key = (Inr rep, s')"
    and m: "fst (service_evidence E p s (attestation_challenge E key n)) = Inr (evidence, mr)" "self_pinned s mr x"
    and q: "verify_platform_quote E t rep x n = Inr (pq, b)"
  shows "report_verify E t rep x n = Inr \<lparr>platform_quote = pq, binds_signing_key = b,
    va_measurement_source = source_display (measurement_source (attestation (as_config s)))\<rparr>"
  using generate_attestation_Inr[OF g] m q by (auto simp: report_verify_Inr pins_met_def self_pinned_def)

lemma no_confidential_vm:
  "measurement_source (attestation (as_config s)) \<noteq> SevSnp \<Longrightarrow> service_evidence E p s ch = (Inr (NoEvidence, mrenclave s), s)"
  by (simp add: service_evidence_def)

text \<open>A software measurement verifies, and says that no hardware stands behind it.\<close>

lemma software_report_verifies:
  assumes "generate_attestation E p s now n node key = (Inr rep, s')" "self_pinned s (mrenclave s) x"
    and src: "measurement_source (attestation (as_config s)) = SoftwareMeasurement"
  shows "report_verify E t rep x n = Inr \<lparr>platform_quote = QuoteAbsent, binds_signing_key = False, va_measurement_source = ''software_measurement''\<rparr>"
proof -
  have e: "fst (service_evidence E p s ch) = Inr (NoEvidence, mrenclave s)" for ch by (simp add: no_confidential_vm src)
  have "verify_platform_quote E t rep x n = Inr (QuoteAbsent, False)"
    using generate_attestation_Inr[OF assms(1)]
    by (auto simp: e src quote_parts_def verify_platform_quote_def verify_tpm_quote_def has_hardware_evidence_def Let_def)
  from generated_report_verdict[OF assms(1) e assms(2) this] show ?thesis by (simp add: src source_display_def)
qed

text \<open>C35. What a TPM-attested node reports verifies against pins taken from it, as
  hardware-rooted, whenever the quote the TPM gave for this challenge verifies: the node and
  the verifier compute the same challenge from the signing key and the nonce.\<close>

theorem tpm_report_verifies:
  assumes "generate_attestation E p s now n node key = (Inr rep, s')" "self_pinned s (mrenclave s) x"
    and src: "measurement_source (attestation (as_config s)) = Tpm2" and "key \<noteq> []"
    and "tpm_quote (pf_tpm p) E PCR_ALL (attestation_challenge E key n) = Inr q"
    and "message_hex q \<noteq> []" "signature_hex q \<noteq> []" "aik_public_key_hex q \<noteq> []"
    and "ae_unhex E (message_hex q) = Inr m" "ae_unhex E (signature_hex q) = Inr sg" "ae_unhex E (aik_public_key_hex q) = Inr k"
    and "verify_quote E m sg k (attestation_challenge E key n) (raw_values_in_index_order E (measurements s)) = Inr v" "tq_fully_verified v"
  shows "report_verify E t rep x n = Inr \<lparr>platform_quote = QuoteVerified (tq_ak_is_trusted v), binds_signing_key = True, va_measurement_source = ''tpm2''\<rparr>"
proof -
  have e: "fst (service_evidence E p s ch) = Inr (NoEvidence, mrenclave s)" for ch by (simp add: no_confidential_vm src)
  have "verify_platform_quote E t rep x n = Inr (QuoteVerified (tq_ak_is_trusted v), True)"
    using generate_attestation_Inr[OF assms(1)] assms(4-)
    by (auto simp: e src quote_parts_def verify_platform_quote_def verify_tpm_quote_def has_hardware_evidence_def hex_field_def
        tq_fully_verified_def Let_def)
  from generated_report_verdict[OF assms(1) e assms(2) this] show ?thesis by (simp add: src source_display_def)
qed

definition sample_tpm_host :: tpm_host where
  "sample_tpm_host = \<lparr>th_run = (\<lambda>_. CommandOutput []), th_ak_ctx = Some ''ak'', th_workspace = (\<lambda>_. Inr ''w''),
     th_file = (\<lambda>f. if f = ''w/quote.msg'' then Inr (sample_attest [0xAA]) else if f = ''w/quote.sig'' then Inr sample_tpm_signature
       else if f = ''w/ak-public.bin'' then Inr sample_ak else Inl ''missing''), th_b64 = string_of_bytes\<rparr>"

definition sample_platform :: platform where
  "sample_platform = \<lparr>pf_tpm = sample_tpm_host, pf_tsm = \<lparr>tsm_available = False, tsm_create = Inr (), tsm_write = Inr (),
     tsm_outblob = (\<lambda>_. Inl []), tsm_provider = Inl [], tsm_auxblob = Inl []\<rparr>, pkg_version = ''1'', pf_b64 = string_of_bytes\<rparr>"

definition sample_service :: AttestationService where
  "sample_service = \<lparr>as_config = (default_light ''n'' ''d'')\<lparr>attestation := attestation_default\<rparr>,
     measurements = [(0, ''a''), (1, ''b'')], mrenclave = ''m'', mrsigner = ''s'', verified_clients = [], last_attestation = None\<rparr>"

definition sample_service_pins :: ExpectedMeasurements where
  "sample_service_pins = \<lparr>em_pcr_values = [(0, ''a'')], em_mrenclave = ''m'', em_mrsigner = [], em_min_isv_svn = 0,
     em_tee_type = service_tee_type (tee_preferred (tee (as_config sample_service))), em_sev_snp = None, em_nitro = None\<rparr>"

lemma sample_tpm_quote:
  "tpm_quote sample_tpm_host sample_hash_env PCR_ALL ch = Inr \<lparr>message_hex = string_of_bytes (sample_attest [0xAA]),
     signature_hex = string_of_bytes sample_tpm_signature, aik_public_key_hex = string_of_bytes sample_ak, ek_cert_chain = []\<rparr>"
  by (simp add: tpm_quote_def sample_tpm_host_def private_workspace_def run_command_def tpm_file_def read_ak_public_def
      read_ek_certificate_chain_def Let_def sample_hash_env_def sample_attest_env_def)

theorem tpm_report_verifies_witness:
  "report_verify sample_hash_env 0 (projr (fst (generate_attestation sample_hash_env sample_platform sample_service 0 ''0123456789abcdef'' ''n'' ''k'')))
     sample_service_pins ''0123456789abcdef''
   = Inr \<lparr>platform_quote = QuoteVerified False, binds_signing_key = True, va_measurement_source = ''tpm2''\<rparr>"
proof -
  have src: "measurement_source (attestation (as_config sample_service)) = Tpm2"
    by (simp add: sample_service_def attestation_default_def)
  obtain rep s' where g: "generate_attestation sample_hash_env sample_platform sample_service 0 ''0123456789abcdef'' ''n'' ''k'' = (Inr rep, s')"
    unfolding generate_attestation_def Let_def no_confidential_vm[of sample_service, unfolded src, simplified]
    by (auto simp: src quote_parts_def sample_platform_def sample_tpm_quote split: prod.splits)
  have p: "self_pinned sample_service (mrenclave sample_service) sample_service_pins"
    by (simp add: self_pinned_def sample_service_def sample_service_pins_def em_is_empty_def)
  have h: "ae_unhex sample_hash_env (string_of_bytes b) = Inr b" for b
    by (simp add: sample_hash_env_def sample_attest_env_def)
  have r: "raw_values_in_index_order sample_hash_env (measurements sample_service) = [(0, bytes_of ''a''), (1, bytes_of ''b'')]"
    by (simp add: sample_service_def sample_hash_env_def sample_attest_env_def strip_prefix_def)
  have c: "attestation_challenge sample_hash_env ''k'' n = [0xAA]" for n
    by (simp add: attestation_challenge_def sample_hash_env_def)
  have q: "tpm_quote (pf_tpm sample_platform) sample_hash_env PCR_ALL ch = Inr \<lparr>message_hex = string_of_bytes (sample_attest [0xAA]),
     signature_hex = string_of_bytes sample_tpm_signature, aik_public_key_hex = string_of_bytes sample_ak, ek_cert_chain = []\<rparr>" for ch
    using sample_tpm_quote by (simp add: sample_platform_def)
  have n: "string_of_bytes sample_ak \<noteq> []" "string_of_bytes (sample_attest d) \<noteq> []" "string_of_bytes sample_tpm_signature \<noteq> []" for d
    by (simp_all add: sample_ak_def sample_attest_def sample_tpm_signature_def string_of_bytes_def)
  have v: "verify_quote sample_hash_env (sample_attest [0xAA]) sample_tpm_signature sample_ak
      (attestation_challenge sample_hash_env ''k'' ''0123456789abcdef'') (raw_values_in_index_order sample_hash_env (measurements sample_service))
    = Inr \<lparr>tq_signature_valid = True, tq_nonce_matches = True, tq_pcr_digest_matches = True, tq_ak_is_trusted = False\<rparr>"
    using sample_hash_quote by (simp only: r c)
  show ?thesis
    using tpm_report_verifies[OF g p src _ q _ _ _ _ _ _ v, of 0] n h by (simp add: g tq_fully_verified_def)
qed

subsection \<open>Who is let in\<close>

text \<open>Every operation that changes the service once it runs.\<close>

inductive service_step :: "attest_env \<Rightarrow> crypto_env \<Rightarrow> platform \<Rightarrow> AttestationService \<Rightarrow> AttestationService \<Rightarrow> bool" for E C p where
  generates: "service_step E C p s (snd (generate_attestation E p s now n node key))"
| verifies: "service_step E C p s (snd (verify_for_client E s now rep n client))"
| expires: "service_step E C p s (snd (expire_stale_verifications s now))"
| extends: "service_step E C p s (extend_model_manifest C s h)"

lemma generate_frame [simp]:
  "as_config (snd (generate_attestation E p s now n node key)) = as_config s"
  "verified_clients (snd (generate_attestation E p s now n node key)) = verified_clients s"
  by (auto simp: generate_attestation_def service_evidence_def request_sev_snp_evidence_def Let_def split: sum.split prod.split)

lemma verify_config [simp]: "as_config (snd (verify_for_client E s now rep n client)) = as_config s"
  by (simp add: verify_for_client_def split: option.split sum.split)

lemma pins_of_config: "as_config s' = as_config s \<Longrightarrow> pinned_measurements s' = pinned_measurements s"
  unfolding pinned_measurements_def by (simp only:)

text \<open>A record is justified when a report that verified against the pins at its time stands
  behind it, in a mode that requires hardware with a statement of the platform.\<close>

definition justified :: "attest_env \<Rightarrow> AttestationService \<Rightarrow> VerificationRecord \<Rightarrow> bool" where
  "justified E s r \<longleftrightarrow> (\<exists>x rep n. pinned_measurements s = Some x
     \<and> report_verify E (nat (timestamp_millis (verified_at r))) rep x n = Inr (established r)
     \<and> ca_combined_hash (combined rep) = vr_combined_hash r
     \<and> (requires_hardware_tee (as_config s) \<longrightarrow> platform_statement E (nat (timestamp_millis (verified_at r))) rep x n))"

definition clients_justified :: "attest_env \<Rightarrow> AttestationService \<Rightarrow> bool" where
  "clients_justified E s \<longleftrightarrow> (\<forall>(c, r) \<in> set (verified_clients s). justified E s r)"

lemma justified_config: "as_config s' = as_config s \<Longrightarrow> justified E s' r = justified E s r"
  unfolding justified_def pins_of_config[of s' s] by simp

lemma clients_justified_frame:
  assumes "as_config s' = as_config s" "set (verified_clients s') \<subseteq> insert (c, r) (set (verified_clients s))" "clients_justified E s" "justified E s r"
  shows "clients_justified E s'"
  using assms(2-) unfolding clients_justified_def justified_config[OF assms(1)] by auto

lemma clients_justified_subset:
  assumes "as_config s' = as_config s" "set (verified_clients s') \<subseteq> set (verified_clients s)" "clients_justified E s"
  shows "clients_justified E s'"
  using assms(2-) unfolding clients_justified_def justified_config[OF assms(1)] by auto

lemma verify_for_client_Inr:
  assumes "verify_for_client E s now rep n client = (Inr v, s')"
  shows "\<exists>x. pinned_measurements s = Some x \<and> report_verify E (nat (timestamp_millis now)) rep x n = Inr v
    \<and> (requires_hardware_tee (as_config s) \<longrightarrow> platform_statement E (nat (timestamp_millis now)) rep x n)
    \<and> s' = s\<lparr>verified_clients := AList.update client
        \<lparr>vr_client_id = client, verified_at = now, vr_combined_hash = ca_combined_hash (combined rep), established = v\<rparr> (verified_clients s)\<rparr>"
proof -
  obtain x where x: "pinned_measurements s = Some x" "report_verify E (nat (timestamp_millis now)) rep x n = Inr v"
    "\<not> (requires_hardware_tee (as_config s) \<and> \<not> is_hardware_verified (platform_quote v))"
    "s' = s\<lparr>verified_clients := AList.update client
        \<lparr>vr_client_id = client, verified_at = now, vr_combined_hash = ca_combined_hash (combined rep), established = v\<rparr> (verified_clients s)\<rparr>"
    using assms unfolding verify_for_client_def by (auto split: option.splits sum.splits if_splits)
  then show ?thesis using hardware_verified_statement[OF x(2)] by blast
qed

lemma verify_for_client_Inl: "verify_for_client E s now rep n client = (Inl e, s') \<Longrightarrow> s' = s"
  by (auto simp: verify_for_client_def split: option.splits sum.splits if_splits)

lemma update_set: "set (AList.update k v m) \<subseteq> insert (k, v) (set m)"
  by (induction m) (auto split: if_splits)

lemma verify_keeps_justified: "clients_justified E s \<Longrightarrow> clients_justified E (snd (verify_for_client E s now rep n client))"
proof (cases "verify_for_client E s now rep n client")
  case (Pair res s')
  assume j: "clients_justified E s"
  show ?thesis
  proof (cases res)
    case (Inl e)
    then show ?thesis using j verify_for_client_Inl[OF Pair[unfolded Inl]] Pair by simp
  next
    case (Inr v)
    from verify_for_client_Inr[OF Pair[unfolded Inr]] obtain x where
      x: "pinned_measurements s = Some x" "report_verify E (nat (timestamp_millis now)) rep x n = Inr v"
        "requires_hardware_tee (as_config s) \<longrightarrow> platform_statement E (nat (timestamp_millis now)) rep x n"
      and s': "s' = s\<lparr>verified_clients := AList.update client
        \<lparr>vr_client_id = client, verified_at = now, vr_combined_hash = ca_combined_hash (combined rep), established = v\<rparr> (verified_clients s)\<rparr>"
      by blast
    have "justified E s \<lparr>vr_client_id = client, verified_at = now, vr_combined_hash = ca_combined_hash (combined rep), established = v\<rparr>"
      using x unfolding justified_def by auto
    then have "clients_justified E s'"
      by (intro clients_justified_frame[where c = client, OF _ _ j]) (simp_all add: s' update_set)
    then show ?thesis using Pair by simp
  qed
qed


end
