(* ===== verification/RateLimiter.thy ===== *)
theory RateLimiter
  imports Identity F64
begin

text \<open>
  The per-client token buckets of \<^verbatim>\<open>cordon-core/src/rate_limiter.rs\<close>.  The bucket levels
  are \<^verbatim>\<open>f64\<close>, so every operation on them rounds (theory \<open>F64\<close>); one reading of the
  clock serves a whole call.
\<close>

record ClientBucket =
  request_tokens :: rat
  output_tokens :: rat
  last_refill :: datetime
  max_requests_per_minute :: rat
  max_tokens_per_minute :: rat
  burst_multiplier :: rat
  violations_this_minute :: nat
  violation_window_start :: datetime

definition bucket_new :: "ClientPolicy \<Rightarrow> datetime \<Rightarrow> ClientBucket" where
  "bucket_new policy now =
     (let max_req = of_nat (cp_max_requests_per_minute policy);
          max_tok = of_nat (cp_max_tokens_per_minute policy)
      in \<lparr>request_tokens = max_req, output_tokens = max_tok, last_refill = now,
          max_requests_per_minute = max_req, max_tokens_per_minute = max_tok,
          burst_multiplier = 2, violations_this_minute = 0, violation_window_start = now\<rparr>)"

text \<open>\<^verbatim>\<open>num_milliseconds() as f64\<close> rounds too: the count is an \<^verbatim>\<open>i64\<close>.\<close>

definition refill :: "ClientBucket \<Rightarrow> datetime \<Rightarrow> ClientBucket" where
  "refill b now =
     (let elapsed_secs = f64_div (f64_round (of_int (num_milliseconds (now - last_refill b)))) 1000;
          req_refill = f64_div (f64_mul (max_requests_per_minute b) elapsed_secs) 60;
          tok_refill = f64_div (f64_mul (max_tokens_per_minute b) elapsed_secs) 60;
          max_req_bucket = f64_mul (max_requests_per_minute b) (burst_multiplier b);
          max_tok_bucket = f64_mul (max_tokens_per_minute b) (burst_multiplier b);
          b1 = b\<lparr>last_refill := now,
                request_tokens := min (f64_add (request_tokens b) req_refill) max_req_bucket,
                output_tokens := min (f64_add (output_tokens b) tok_refill) max_tok_bucket\<rparr>
      in if num_seconds (now - violation_window_start b1) \<ge> 60
         then b1\<lparr>violations_this_minute := 0, violation_window_start := now\<rparr> else b1)"

datatype RateLimitResult =
  Allowed | RequestLimitExceeded nat | TokenLimitExceeded nat nat

definition count_violation :: "ClientBucket \<Rightarrow> ClientBucket" where
  "count_violation b = b\<lparr>violations_this_minute := wrap_u32 (violations_this_minute b + 1)\<rparr>"

definition try_consume :: "ClientBucket \<Rightarrow> datetime \<Rightarrow> nat \<Rightarrow> RateLimitResult \<times> ClientBucket" where
  "try_consume b0 now max_output_tokens =
     (let b = refill b0 now
      in if request_tokens b < 1
         then (let b' = count_violation b in (RequestLimitExceeded (violations_this_minute b'), b'))
         else
           let tokens_needed = of_nat max_output_tokens
           in if output_tokens b < tokens_needed
              then (let b' = count_violation b
                    in (TokenLimitExceeded (f64_as_u32 (output_tokens b)) (violations_this_minute b'), b'))
              else (Allowed, b\<lparr>request_tokens := f64_sub (request_tokens b) 1,
                               output_tokens := f64_sub (output_tokens b) tokens_needed\<rparr>))"

definition bucket_settle :: "ClientBucket \<Rightarrow> nat \<Rightarrow> nat \<Rightarrow> ClientBucket" where
  "bucket_settle b reserved actual =
     (let refund = of_nat (reserved - actual)
      in if refund \<le> 0 then b
         else b\<lparr>output_tokens := min (f64_add (output_tokens b) refund)
                  (f64_mul (max_tokens_per_minute b) (burst_multiplier b))\<rparr>)"

record RateLimiter =
  buckets :: "string \<rightharpoonup> ClientBucket"
  violation_alert_threshold :: nat

definition rate_limiter_new :: "nat \<Rightarrow> RateLimiter" where
  "rate_limiter_new t = \<lparr>buckets = Map.empty, violation_alert_threshold = t\<rparr>"

definition bucket_for :: "RateLimiter \<Rightarrow> string \<Rightarrow> ClientPolicy \<Rightarrow> datetime \<Rightarrow> ClientBucket" where
  "bucket_for rl client_id policy now =
     (case buckets rl client_id of Some b \<Rightarrow> b | None \<Rightarrow> bucket_new policy now)"

definition check ::
  "RateLimiter \<Rightarrow> datetime \<Rightarrow> string \<Rightarrow> nat \<Rightarrow> ClientPolicy \<Rightarrow> unit CordonResult \<times> RateLimiter" where
  "check rl now client_id max_output_tokens policy =
     (case try_consume (bucket_for rl client_id policy now) now max_output_tokens of
        (r, b) \<Rightarrow>
          ((case r of Allowed \<Rightarrow> Inr ()
            | RequestLimitExceeded _ \<Rightarrow> Inl (RateLimitExceeded client_id)
            | TokenLimitExceeded _ _ \<Rightarrow> Inl (RateLimitExceeded client_id)),
           rl\<lparr>buckets := (buckets rl)(client_id \<mapsto> b)\<rparr>))"

definition settle :: "RateLimiter \<Rightarrow> string \<Rightarrow> nat \<Rightarrow> nat \<Rightarrow> RateLimiter" where
  "settle rl client_id reserved actual = (case buckets rl client_id of
     Some b \<Rightarrow> rl\<lparr>buckets := (buckets rl)(client_id \<mapsto> bucket_settle b reserved actual)\<rparr>
   | None \<Rightarrow> rl)"

definition update_policy :: "RateLimiter \<Rightarrow> ClientPolicy \<Rightarrow> RateLimiter" where
  "update_policy rl policy = (case buckets rl (cp_client_id policy) of
     Some b \<Rightarrow> rl\<lparr>buckets := (buckets rl)(cp_client_id policy \<mapsto>
        b\<lparr>max_requests_per_minute := of_nat (cp_max_requests_per_minute policy),
          max_tokens_per_minute := of_nat (cp_max_tokens_per_minute policy)\<rparr>)\<rparr>
   | None \<Rightarrow> rl)"

definition remove_client :: "RateLimiter \<Rightarrow> string \<Rightarrow> RateLimiter" where
  "remove_client rl client_id = rl\<lparr>buckets := (buckets rl)(client_id := None)\<rparr>"

definition client_violations :: "RateLimiter \<Rightarrow> string \<Rightarrow> nat" where
  "client_violations rl client_id =
     (case buckets rl client_id of Some b \<Rightarrow> violations_this_minute b | None \<Rightarrow> 0)"

definition prune_stale_buckets :: "RateLimiter \<Rightarrow> datetime \<Rightarrow> int \<Rightarrow> RateLimiter" where
  "prune_stale_buckets rl now stale_after_secs = rl\<lparr>buckets := (\<lambda>c. case buckets rl c of
     Some b \<Rightarrow> if last_refill b > now - secs stale_after_secs then Some b else None
   | None \<Rightarrow> None)\<rparr>"

subsection \<open>The levels of a bucket\<close>

text \<open>A bucket as the node configures it: 32-bit limits and the built-in multiplier.\<close>

definition bucket_limits :: "ClientBucket \<Rightarrow> nat \<Rightarrow> nat \<Rightarrow> bool" where
  "bucket_limits b mr mt \<longleftrightarrow> max_requests_per_minute b = of_nat mr \<and> max_tokens_per_minute b = of_nat mt \<and>
     burst_multiplier b = 2 \<and> mr \<le> u32_max \<and> mt \<le> u32_max"

definition bucket_ok :: "ClientBucket \<Rightarrow> bool" where
  "bucket_ok b \<longleftrightarrow> (\<exists>mr mt. bucket_limits b mr mt \<and>
     0 \<le> request_tokens b \<and> request_tokens b \<le> of_nat (2 * mr) \<and>
     0 \<le> output_tokens b \<and> output_tokens b \<le> of_nat (2 * mt))"

definition limiter_ok :: "RateLimiter \<Rightarrow> bool" where
  "limiter_ok rl \<longleftrightarrow> (\<forall>c b. buckets rl c = Some b \<longrightarrow> bucket_ok b)"

datatype limiter_event =
  Check datetime string nat ClientPolicy | Settle string nat nat | RemoveClient string
| PruneStale datetime int

fun limiter_step :: "RateLimiter \<Rightarrow> limiter_event \<Rightarrow> RateLimiter" where
  "limiter_step rl (Check now c n p) = snd (check rl now c n p)"
| "limiter_step rl (Settle c r a) = settle rl c r a"
| "limiter_step rl (RemoveClient c) = remove_client rl c"
| "limiter_step rl (PruneStale now s) = prune_stale_buckets rl now s"

text \<open>The clock does not step back and the policy's limits are 32-bit.\<close>

fun limiter_event_ok :: "RateLimiter \<Rightarrow> limiter_event \<Rightarrow> bool" where
  "limiter_event_ok rl (Check now c n p) \<longleftrightarrow>
     cp_max_requests_per_minute p \<le> u32_max \<and> cp_max_tokens_per_minute p \<le> u32_max \<and>
     (case buckets rl c of Some b \<Rightarrow> last_refill b \<le> now | None \<Rightarrow> True)"
| "limiter_event_ok rl _ \<longleftrightarrow> True"

text \<open>A burst: requests of one client answered at the same instant.\<close>

fun burst :: "RateLimiter \<Rightarrow> datetime \<Rightarrow> string \<Rightarrow> ClientPolicy \<Rightarrow> nat list \<Rightarrow> nat list \<times> RateLimiter" where
  "burst rl now c p [] = ([], rl)"
| "burst rl now c p (n # ns) =
     (case check rl now c n p of
        (Inr _, rl1) \<Rightarrow> (case burst rl1 now c p ns of (granted, rl2) \<Rightarrow> (n # granted, rl2))
      | (Inl _, rl1) \<Rightarrow> burst rl1 now c p ns)"

lemma f64_double: "m \<le> u32_max \<Longrightarrow> f64_mul (of_nat m) 2 = of_nat (2 * m)"
proof -
  assume "m \<le> u32_max"
  then have "2 * m \<le> 2 ^ 53" by simp
  from f64_round_nat [OF this] show ?thesis by (simp add: f64_mul_def mult.commute)
qed

lemma f64_add_nonneg: "0 \<le> a \<Longrightarrow> 0 \<le> b \<Longrightarrow> 0 \<le> f64_add a b"
  by (simp add: f64_add_def f64_round_nonneg)

lemma f64_mul_nonneg: "0 \<le> a \<Longrightarrow> 0 \<le> b \<Longrightarrow> 0 \<le> f64_mul a b"
  by (simp add: f64_mul_def f64_round_nonneg)

lemma f64_div_nonneg: "0 \<le> a \<Longrightarrow> 0 \<le> b \<Longrightarrow> 0 \<le> f64_div a b"
  by (simp add: f64_div_def f64_round_nonneg)

lemma elapsed_nonneg:
  assumes "last_refill b \<le> now"
  shows "0 \<le> f64_div (f64_round (of_int (num_milliseconds (now - last_refill b)))) 1000"
proof -
  have "0 \<le> num_milliseconds (now - last_refill b)"
    using assms trunc_div_pos [of 1000000 "now - last_refill b"] by (simp add: num_milliseconds_def)
  then show ?thesis by (intro f64_div_nonneg f64_round_nonneg) simp_all
qed

lemmas refill_nonneg = f64_add_nonneg f64_div_nonneg f64_mul_nonneg elapsed_nonneg

lemma refill_limits: "bucket_limits (refill b now) mr mt = bucket_limits b mr mt"
  by (simp add: refill_def Let_def bucket_limits_def)

lemma refill_levels:
  assumes "bucket_limits b mr mt" "0 \<le> request_tokens b" "0 \<le> output_tokens b" "last_refill b \<le> now"
  shows "0 \<le> request_tokens (refill b now)" "request_tokens (refill b now) \<le> of_nat (2 * mr)"
    "0 \<le> output_tokens (refill b now)" "output_tokens (refill b now) \<le> of_nat (2 * mt)"
proof -
  have l: "f64_mul (max_requests_per_minute b) (burst_multiplier b) = of_nat (2 * mr)"
    "f64_mul (max_tokens_per_minute b) (burst_multiplier b) = of_nat (2 * mt)"
    "0 \<le> max_requests_per_minute b" "0 \<le> max_tokens_per_minute b"
    using assms(1) f64_double by (auto simp: bucket_limits_def)
  show "0 \<le> request_tokens (refill b now)" "0 \<le> output_tokens (refill b now)"
    using l assms(2-4) by (simp_all add: refill_def Let_def refill_nonneg)
  show "request_tokens (refill b now) \<le> of_nat (2 * mr)" "output_tokens (refill b now) \<le> of_nat (2 * mt)"
    using l by (simp_all add: refill_def Let_def)
qed

lemma bucket_okI:
  assumes "bucket_limits b mr mt" "0 \<le> request_tokens b" "request_tokens b \<le> of_nat (2 * mr)"
    and "0 \<le> output_tokens b" "output_tokens b \<le> of_nat (2 * mt)"
  shows "bucket_ok b"
  using assms by (auto simp: bucket_ok_def)

lemma bucket_okE:
  assumes "bucket_ok b"
  obtains mr mt where "bucket_limits b mr mt" "0 \<le> request_tokens b" "request_tokens b \<le> of_nat (2 * mr)"
    "0 \<le> output_tokens b" "output_tokens b \<le> of_nat (2 * mt)"
  using assms by (auto simp: bucket_ok_def)

lemma refill_ok: "bucket_ok b \<Longrightarrow> last_refill b \<le> now \<Longrightarrow> bucket_ok (refill b now)"
  unfolding bucket_ok_def using refill_limits refill_levels by metis

lemma take_ok:
  assumes "n \<le> 2 ^ 53" "of_nat a \<le> x" "x \<le> of_nat n"
  shows "0 \<le> f64_sub x (of_nat a)" "f64_sub x (of_nat a) \<le> of_nat n"
  using assms by (auto simp: f64_sub_def intro: f64_round_nonneg f64_round_le_nat)

lemma bucket_new_ok:
  "cp_max_requests_per_minute p \<le> u32_max \<Longrightarrow> cp_max_tokens_per_minute p \<le> u32_max \<Longrightarrow> bucket_ok (bucket_new p now)"
  by (auto simp: bucket_ok_def bucket_limits_def bucket_new_def Let_def)

lemma count_violation_ok [simp]: "bucket_ok (count_violation b) = bucket_ok b"
  by (simp add: bucket_ok_def bucket_limits_def count_violation_def)

lemma try_consume_ok:
  assumes "bucket_ok b" "last_refill b \<le> now"
  shows "bucket_ok (snd (try_consume b now n))"
proof -
  let ?b = "refill b now"
  have ok: "bucket_ok ?b" using refill_ok [OF assms] .
  then obtain mr mt where l: "bucket_limits ?b mr mt" "0 \<le> request_tokens ?b" "request_tokens ?b \<le> of_nat (2 * mr)"
    "0 \<le> output_tokens ?b" "output_tokens ?b \<le> of_nat (2 * mt)" by (rule bucket_okE)
  have le: "2 * mr \<le> 2 ^ 53" "2 * mt \<le> 2 ^ 53" using l(1) by (auto simp: bucket_limits_def)
  have "bucket_ok (?b\<lparr>request_tokens := f64_sub (request_tokens ?b) 1, output_tokens := f64_sub (output_tokens ?b) (of_nat n)\<rparr>)"
    if "1 \<le> request_tokens ?b" "of_nat n \<le> output_tokens ?b"
    by (rule bucket_okI [of _ mr mt])
      (use l that take_ok [OF le(1), of 1] take_ok [OF le(2), of n] in \<open>simp_all add: bucket_limits_def\<close>)
  then show ?thesis using ok by (simp add: try_consume_def Let_def not_less)
qed

lemma bucket_settle_ok:
  assumes "bucket_ok b"
  shows "bucket_ok (bucket_settle b r a)"
proof -
  obtain mr mt where l: "bucket_limits b mr mt" "0 \<le> request_tokens b" "request_tokens b \<le> of_nat (2 * mr)"
    "0 \<le> output_tokens b" "output_tokens b \<le> of_nat (2 * mt)" using assms by (rule bucket_okE)
  have m: "f64_mul (max_tokens_per_minute b) (burst_multiplier b) = of_nat (2 * mt)"
    using l(1) f64_double by (auto simp: bucket_limits_def)
  have "bucket_ok (b\<lparr>output_tokens := min (f64_add (output_tokens b) (of_nat (r - a))) (of_nat (2 * mt))\<rparr>)"
    by (rule bucket_okI [of _ mr mt])
      (use l f64_add_nonneg [of "output_tokens b" "of_nat (r - a)"] in \<open>simp_all add: bucket_limits_def\<close>)
  then show ?thesis using m assms by (simp add: bucket_settle_def del: of_nat_diff)
qed

interpretation limiter_sys: invariant_system limiter_step limiter_event_ok limiter_ok
proof unfold_locales
  fix rl e
  assume inv: "limiter_ok rl" and ok: "limiter_event_ok rl e"
  show "limiter_ok (limiter_step rl e)"
  proof (cases e)
    case (Check now c n p)
    have "bucket_ok (bucket_for rl c p now) \<and> last_refill (bucket_for rl c p now) \<le> now"
      using inv ok Check bucket_new_ok
      by (auto simp: bucket_for_def limiter_ok_def bucket_new_def Let_def split: option.splits)
    then show ?thesis using inv Check try_consume_ok [of "bucket_for rl c p now" now n]
      by (auto simp: check_def limiter_ok_def split: prod.splits)
  next
    case (Settle c r a)
    then show ?thesis using inv bucket_settle_ok
      by (auto simp: settle_def limiter_ok_def split: option.splits)
  next
    case (RemoveClient c)
    then show ?thesis using inv by (auto simp: remove_client_def limiter_ok_def)
  next
    case (PruneStale now s)
    then show ?thesis using inv by (auto simp: prune_stale_buckets_def limiter_ok_def split: option.splits if_splits)
  qed
qed


subsection \<open>Properties\<close>

text \<open>However checks, settlements, removals and pruning interleave, with a clock that does
  not step back, every bucket stays between empty and twice the configured per-minute
  limit, in floating point as in exact arithmetic.\<close>

theorem bucket_levels_bounded:
  assumes "limiter_ok rl" "run_ok limiter_step limiter_event_ok rl es"
    and "buckets (run limiter_step rl es) c = Some b"
  shows "0 \<le> request_tokens b \<and> request_tokens b \<le> 2 * max_requests_per_minute b \<and>
    0 \<le> output_tokens b \<and> output_tokens b \<le> 2 * max_tokens_per_minute b"
proof -
  have "bucket_ok b" using limiter_sys.run_inv [OF assms(1,2)] assms(3) by (auto simp: limiter_ok_def)
  then show ?thesis by (rule bucket_okE) (auto simp: bucket_limits_def)
qed

lemma check_bucket:
  "buckets (snd (check rl now c n p)) c = Some (snd (try_consume (bucket_for rl c p now) now n))"
  by (simp add: check_def split: prod.splits)

theorem bucket_levels_bounded_witness:
  "\<exists>b. buckets (run limiter_step (rate_limiter_new 5) [Check 0 ''a'' 7 (policy_default_for ''a'')]) ''a'' = Some b \<and>
     0 \<le> request_tokens b \<and> request_tokens b \<le> 2 * max_requests_per_minute b"
proof -
  let ?es = "[Check 0 ''a'' 7 (policy_default_for ''a'')]"
  obtain b where b: "buckets (run limiter_step (rate_limiter_new 5) ?es) ''a'' = Some b"
    by (simp add: check_bucket)
  have "limiter_ok (rate_limiter_new 5)" by (simp add: limiter_ok_def rate_limiter_new_def)
  moreover have "run_ok limiter_step limiter_event_ok (rate_limiter_new 5) ?es"
    by (simp add: policy_default_for_def rate_limiter_new_def)
  ultimately show ?thesis using bucket_levels_bounded b by blast
qed

lemma refill_last [simp]: "last_refill (refill b now) = now"
  by (simp add: refill_def Let_def)

lemma refill_again:
  assumes "last_refill b = now" "request_tokens b \<le> of_nat k" "output_tokens b \<le> of_nat m"
    and "k \<le> 2 ^ 53" "m \<le> 2 ^ 53"
  shows "request_tokens (refill b now) \<le> of_nat k" "output_tokens (refill b now) \<le> of_nat m"
proof -
  have "f64_add (request_tokens b) 0 \<le> of_nat k" "f64_add (output_tokens b) 0 \<le> of_nat m"
    using assms by (simp_all add: f64_add_def f64_round_le_nat)
  then show "request_tokens (refill b now) \<le> of_nat k" "output_tokens (refill b now) \<le> of_nat m"
    using assms(1) by (simp_all add: refill_def Let_def num_milliseconds_def trunc_div_def f64_div_def f64_mul_def
        min.coboundedI1)
qed

lemma bucket_for_check:
  "bucket_for (snd (check rl now c n p)) c p' now' = snd (try_consume (bucket_for rl c p now) now n)"
  by (simp add: check_def bucket_for_def split: prod.splits)

lemma check_allowed_iff:
  "fst (check rl now c n p) = Inr () \<longleftrightarrow> fst (try_consume (bucket_for rl c p now) now n) = Allowed"
  by (simp add: check_def split: prod.splits RateLimitResult.splits)

text \<open>One request against a bucket already refilled at this instant.\<close>

lemma try_consume_spends:
  assumes "request_tokens (refill b now) \<le> of_nat k" "output_tokens (refill b now) \<le> of_nat m"
    and "k \<le> 2 ^ 53" "m \<le> 2 ^ 53" "try_consume b now n = (r, b')"
  shows "if r = Allowed then 1 \<le> k \<and> n \<le> m \<and> request_tokens (refill b' now) \<le> of_nat (k - 1) \<and>
      output_tokens (refill b' now) \<le> of_nat (m - n)
    else request_tokens (refill b' now) \<le> of_nat k \<and> output_tokens (refill b' now) \<le> of_nat m"
proof (cases "r = Allowed")
  case True
  let ?b = "refill b now"
  have a: "1 \<le> request_tokens ?b" "of_nat n \<le> output_tokens ?b"
      "b' = ?b\<lparr>request_tokens := f64_sub (request_tokens ?b) 1, output_tokens := f64_sub (output_tokens ?b) (of_nat n)\<rparr>"
    using assms(5) True by (auto simp: try_consume_def Let_def split: if_splits)
  have "(1 :: rat) \<le> of_nat k" "(of_nat n :: rat) \<le> of_nat m" using a assms(1,2) by linarith+
  then have km: "1 \<le> k" "n \<le> m" by simp_all
  have "request_tokens b' \<le> of_nat (k - 1)" "output_tokens b' \<le> of_nat (m - n)"
    using a(3) assms(1-4) km f64_round_le_nat [of "request_tokens ?b - 1" "k - 1"]
      f64_round_le_nat [of "output_tokens ?b - of_nat n" "m - n"]
    by (simp_all add: f64_sub_def of_nat_diff)
  from refill_again [OF _ this, of now] show ?thesis using True a(3) km assms(3,4) by simp
next
  case False
  then have "b' = count_violation (refill b now)"
    using assms(5) by (auto simp: try_consume_def Let_def split: if_splits)
  then show ?thesis using False refill_again [of b' now k m] assms(1-4) by (simp add: count_violation_def)
qed

lemma burst_spends:
  assumes "request_tokens (refill (bucket_for rl c p now) now) \<le> of_nat k"
    and "output_tokens (refill (bucket_for rl c p now) now) \<le> of_nat m"
    and "k \<le> 2 ^ 53" "m \<le> 2 ^ 53" "burst rl now c p ns = (granted, rl')"
  shows "length granted \<le> k \<and> sum_list granted \<le> m"
  using assms
proof (induction ns arbitrary: rl k m granted rl')
  case (Cons n ns)
  obtain r b' where t: "try_consume (bucket_for rl c p now) now n = (r, b')" by fastforce
  note sp = try_consume_spends [OF Cons.prems(1-4) t]
  obtain q rl1 where ch: "check rl now c n p = (q, rl1)" by fastforce
  have b': "bucket_for rl1 c p now = b'" using bucket_for_check [of rl now c n p p now] by (simp add: t ch)
  obtain gs rl2 where bu: "burst rl1 now c p ns = (gs, rl2)" by fastforce
  show ?case
  proof (cases q)
    case (Inr u)
    then have r: "r = Allowed" using check_allowed_iff [of rl now c n p] t ch by simp
    have g: "granted = n # gs" using Cons.prems(5) bu ch Inr by simp
    have "length gs \<le> k - 1 \<and> sum_list gs \<le> m - n"
      using Cons.IH [OF _ _ _ _ bu, of "k - 1" "m - n"] sp r b' Cons.prems(3,4) by (simp del: of_nat_diff)
    then show ?thesis using g sp r by auto
  next
    case (Inl e)
    then have "r \<noteq> Allowed" "granted = gs"
      using check_allowed_iff [of rl now c n p] t ch Cons.prems(5) bu by auto
    then show ?thesis using Cons.IH [OF _ _ _ _ bu, of k m] sp b' Cons.prems(3,4) by simp
  qed
qed simp

text \<open>C12. The burst bound: of any number of requests a client makes at one instant, at most
  twice its per-minute requests are let through, reserving at most twice its per-minute
  tokens; and a client that has just appeared gets at most its plain per-minute limits.\<close>

theorem burst_bounded:
  assumes "limiter_ok rl" "limiter_event_ok rl (Check now c 0 p)" "burst rl now c p ns = (granted, rl')"
  shows "(\<forall>b. buckets rl c = Some b \<longrightarrow> of_nat (length granted) \<le> 2 * max_requests_per_minute b \<and>
        of_nat (sum_list granted) \<le> 2 * max_tokens_per_minute b) \<and>
    (buckets rl c = None \<longrightarrow> length granted \<le> cp_max_requests_per_minute p \<and>
        sum_list granted \<le> cp_max_tokens_per_minute p)"
proof (intro conjI impI allI)
  assume "buckets rl c = None"
  then have b: "bucket_for rl c p now = bucket_new p now" by (simp add: bucket_for_def)
  show "length granted \<le> cp_max_requests_per_minute p" "sum_list granted \<le> cp_max_tokens_per_minute p"
    using burst_spends [OF _ _ _ _ assms(3)] refill_again [of "bucket_new p now" now
        "cp_max_requests_per_minute p" "cp_max_tokens_per_minute p"] assms(2)
    by (simp_all add: b bucket_new_def Let_def)
next
  fix b
  assume b: "buckets rl c = Some b"
  then have bf: "bucket_for rl c p now = b" and le: "last_refill b \<le> now" and ok: "bucket_ok b"
    using assms(1,2) by (auto simp: bucket_for_def limiter_ok_def)
  from ok obtain mr mt where l: "bucket_limits b mr mt" "0 \<le> request_tokens b" "0 \<le> output_tokens b"
    by (rule bucket_okE)
  have "2 * mr \<le> 2 ^ 53" "2 * mt \<le> 2 ^ 53" using l(1) by (auto simp: bucket_limits_def)
  then have "length granted \<le> 2 * mr \<and> sum_list granted \<le> 2 * mt"
    using burst_spends [OF _ _ _ _ assms(3), of "2 * mr" "2 * mt"] refill_levels(2,4) [OF l le] bf by simp
  then have "(of_nat (length granted) :: rat) \<le> of_nat (2 * mr)" "(of_nat (sum_list granted) :: rat) \<le> of_nat (2 * mt)"
    by (simp_all only: of_nat_le_iff)
  then show "of_nat (length granted) \<le> 2 * max_requests_per_minute b"
    "of_nat (sum_list granted) \<le> 2 * max_tokens_per_minute b"
    using l(1) by (simp_all add: bucket_limits_def)
qed

theorem burst_bounded_witness:
  "length (fst (burst (rate_limiter_new 5) 0 ''a'' (policy_default_for ''a'') (replicate 100 1))) \<le> 60"
proof -
  obtain g rl where b: "burst (rate_limiter_new 5) 0 ''a'' (policy_default_for ''a'') (replicate 100 1) = (g, rl)"
    by fastforce
  have "limiter_ok (rate_limiter_new 5)"
    "limiter_event_ok (rate_limiter_new 5) (Check 0 ''a'' 0 (policy_default_for ''a''))"
    by (simp_all add: limiter_ok_def rate_limiter_new_def policy_default_for_def)
  from burst_bounded [OF this b] b show ?thesis by (simp add: rate_limiter_new_def policy_default_for_def)
qed

end
