(* ===== verification/AuditLog.thy ===== *)
theory AuditLog
  imports AuditEvents
begin

text \<open>
  The hash-chained, append-only audit log of \<^verbatim>\<open>cordon-audit/src/log.rs\<close>.

  The directory is a list of named files with their bytes; a \<^verbatim>\<open>BufWriter\<close> is the
  bytes it still holds.  Third-party code is a parameter, collected in the record
  \<open>log_env\<close>: SHA-256 with hex encoding, chrono's RFC 3339 rendering, serde's
  JSON codec and Ed25519.  What the operating system answers to one append (the
  clock, the random identifier, which of write, flush, fsync, rotation succeed and
  how many bytes a failing write still pushed out) is the record \<open>append_io\<close>.
\<close>

definition GENESIS_CONSTANT :: string where
  "GENESIS_CONSTANT = ''CORDON_LOG_GENESIS_V2''"

record LogConfig =
  log_dir :: string
  cfg_deployment_id :: string
  cfg_node_id :: string
  max_file_size_bytes :: nat
  fsync_on_write :: bool

definition log_config_new :: "string \<Rightarrow> string \<Rightarrow> string \<Rightarrow> LogConfig" where
  "log_config_new dir did nid = \<lparr>log_dir = dir, cfg_deployment_id = did, cfg_node_id = nid,
     max_file_size_bytes = 512 * 1024 * 1024, fsync_on_write = True\<rparr>"

record AuditEntry =
  log_id :: uuid
  timestamp :: datetime
  payload_hash :: string
  entry_hash :: string
  signature :: string
  payload :: AuditEvent
  sequence :: nat

record log_env =
  sha256_hex :: "string \<Rightarrow> string"
  to_rfc3339 :: "datetime \<Rightarrow> string"
  json_event :: "AuditEvent \<Rightarrow> string option"
  json_entry :: "AuditEntry \<Rightarrow> string option"
  parse_entry :: "string \<Rightarrow> AuditEntry option"
  sign_hex :: "string \<Rightarrow> string"
  signature_from_hex :: "string \<Rightarrow> string option"
  verify_sig :: "string \<Rightarrow> string \<Rightarrow> bool"

record LogState =
  writer :: string
  last_hash :: string
  state_sequence :: nat
  current_file :: string
  bytes_written :: nat

type_synonym log_disk = "(string \<times> string) list"

record AuditLog =
  config :: LogConfig
  state :: "LogState option"
  disk :: log_disk

record append_io =
  io_now :: datetime
  io_uuid :: uuid
  io_write :: bool
  io_spill :: bool
  io_torn :: nat
  io_flush :: bool
  io_sync :: bool
  io_rotate_flush :: bool
  io_rotate_name :: "string \<times> string"
  io_rotate_open :: bool

text \<open>Files: reading, appending (\<^verbatim>\<open>create(true).append(true)\<close>), the segment filter.\<close>

fun file_append :: "string \<Rightarrow> string \<Rightarrow> log_disk \<Rightarrow> log_disk" where
  "file_append path bs [] = [(path, bs)]"
| "file_append path bs ((p, c) # d) =
     (if p = path then (p, c @ bs) # d else (p, c) # file_append path bs d)"

definition open_log_file :: "bool \<Rightarrow> string \<Rightarrow> log_disk \<Rightarrow> log_disk AuditResult" where
  "open_log_file ok path d =
     (if ok then Inr (file_append path [] d) else Inl (IoError ''Cannot open log file''))"

definition is_jsonl :: "string \<Rightarrow> bool" where
  "is_jsonl p \<longleftrightarrow> length p > 6 \<and> take 6 (rev p) = rev ''.jsonl''"

text \<open>\<^verbatim>\<open>log_files\<close>: the segments, in file-name order (bytewise).\<close>

fun string_le :: "string \<Rightarrow> string \<Rightarrow> bool" where
  "string_le [] _ = True"
| "string_le (_ # _) [] = False"
| "string_le (a # as) (b # bs) =
     ((of_char a :: nat) < of_char b \<or> (a = b \<and> string_le as bs))"

fun insert_file :: "string \<times> string \<Rightarrow> log_disk \<Rightarrow> log_disk" where
  "insert_file f [] = [f]"
| "insert_file f (g # d) = (if string_le (fst f) (fst g) then f # g # d else g # insert_file f d)"

definition log_files :: "log_disk \<Rightarrow> log_disk" where
  "log_files d = foldr insert_file (filter (\<lambda>f. is_jsonl (fst f)) d) []"

definition digit_char :: "nat \<Rightarrow> char" where
  "digit_char n = char_of (48 + n)"

text \<open>\<^verbatim>\<open>{:020}\<close>: decimal, zero-padded to twenty places.\<close>

fun padded :: "nat \<Rightarrow> nat \<Rightarrow> string" where
  "padded 0 n = []"
| "padded (Suc k) n = padded k (n div 10) @ [digit_char (n mod 10)]"

definition new_log_file_path :: "LogConfig \<Rightarrow> nat \<Rightarrow> string \<times> string \<Rightarrow> string" where
  "new_log_file_path cfg first_sequence ts_unique =
     log_dir cfg @ ''/'' @ ''cordon-audit-'' @ padded 20 first_sequence @ ''-'' @ fst ts_unique
       @ ''-'' @ take 8 (snd ts_unique) @ ''.jsonl''"

definition compute_genesis_hash :: "log_env \<Rightarrow> string \<Rightarrow> string" where
  "compute_genesis_hash E did = sha256_hex E (GENESIS_CONSTANT @ did @ ''GENESIS'')"

definition chain_hash :: "log_env \<Rightarrow> string \<Rightarrow> datetime \<Rightarrow> string \<Rightarrow> string" where
  "chain_hash E prev ts ph = sha256_hex E (prev @ to_rfc3339 E ts @ ph)"

definition rotate_log_file :: "append_io \<Rightarrow> AuditLog \<Rightarrow> LogState \<Rightarrow> unit AuditResult \<times> AuditLog" where
  "rotate_log_file io l s =
     (if \<not> io_rotate_flush io
      then (Inl (WriteFailed ''flush''),
        l\<lparr>disk := file_append (current_file s) (take (io_torn io) (writer s)) (disk l),
          state := Some (s\<lparr>writer := drop (io_torn io) (writer s)\<rparr>)\<rparr>)
      else
        let d1 = file_append (current_file s) (writer s) (disk l);
            s1 = s\<lparr>writer := []\<rparr>;
            new_path = new_log_file_path (config l) (wrap_u64 (state_sequence s + 1))
                         (io_rotate_name io)
        in (case open_log_file (io_rotate_open io) new_path d1 of
              Inl e \<Rightarrow> (Inl e, l\<lparr>disk := d1, state := Some s1\<rparr>)
            | Inr d2 \<Rightarrow> (Inr (), l\<lparr>disk := d2,
                state := Some (s1\<lparr>current_file := new_path, bytes_written := 0\<rparr>)\<rparr>)))"

text \<open>
  The write, flush and fsync of one line, before any chain state moves: the
  result, the bytes left in the writer and the directory.  A \<^verbatim>\<open>BufWriter\<close> may spill
  to the file on its own (\<open>io_spill\<close>).
\<close>

definition write_line ::
  "bool \<Rightarrow> append_io \<Rightarrow> string \<Rightarrow> string \<Rightarrow> string \<Rightarrow> log_disk \<Rightarrow> unit AuditResult \<times> string \<times> log_disk"
  where
  "write_line fsync io path buf line d =
     (if \<not> io_write io
      then (Inl (WriteFailed ''write''), drop (io_torn io) buf,
            file_append path (take (io_torn io) (buf @ line)) d)
      else
        let (buf1, d1) = (if io_spill io then ([], file_append path (buf @ line) d)
                          else (buf @ line, d))
        in if \<not> fsync then (Inr (), buf1, d1)
           else if \<not> io_flush io
           then (Inl (WriteFailed ''flush''), drop (io_torn io) buf1,
                 file_append path (take (io_torn io) buf1) d1)
           else
             let d2 = file_append path buf1 d1
             in if \<not> io_sync io then (Inl (WriteFailed ''cannot fsync the audit log''), [], d2)
                else (Inr (), [], d2))"

definition make_entry ::
  "log_env \<Rightarrow> append_io \<Rightarrow> LogState \<Rightarrow> AuditEvent \<Rightarrow> string \<Rightarrow> AuditEntry" where
  "make_entry E io s event payload_bytes =
     (let ph = sha256_hex E payload_bytes; eh = chain_hash E (last_hash s) (io_now io) ph
      in \<lparr>log_id = io_uuid io, timestamp = io_now io, payload_hash = ph, entry_hash = eh,
          signature = sign_hex E eh, payload = event,
          sequence = wrap_u64 (state_sequence s + 1)\<rparr>)"

definition append ::
  "log_env \<Rightarrow> append_io \<Rightarrow> AuditLog \<Rightarrow> AuditEvent \<Rightarrow> AuditEntry AuditResult \<times> AuditLog" where
  "append E io l event =
     (case state l of
        None \<Rightarrow> (Inl (WriteFailed ''Log not initialized''), l)
      | Some s \<Rightarrow>
          (case json_event E event of
             None \<Rightarrow> (Inl (SerializationError ''event''), l)
           | Some payload_bytes \<Rightarrow>
               let entry = make_entry E io s event payload_bytes
               in (case json_entry E entry of
                     None \<Rightarrow> (Inl (SerializationError ''entry''), l)
                   | Some text \<Rightarrow>
                       let line = text @ [newline]
                       in (case write_line (fsync_on_write (config l)) io (current_file s)
                                  (writer s) line (disk l) of
                             (Inl e, buf, d) \<Rightarrow>
                               (Inl e, l\<lparr>state := Some (s\<lparr>writer := buf\<rparr>), disk := d\<rparr>)
                           | (Inr _, buf, d) \<Rightarrow>
                               let s1 = s\<lparr>writer := buf,
                                     bytes_written := wrap_u64 (bytes_written s + length line),
                                     last_hash := entry_hash entry,
                                     state_sequence := sequence entry\<rparr>;
                                   l1 = l\<lparr>state := Some s1, disk := d\<rparr>
                               in if bytes_written s1 \<ge> max_file_size_bytes (config l)
                                  then (case rotate_log_file io l1 s1 of
                                          (Inl e, l2) \<Rightarrow> (Inl e, l2)
                                        | (Inr _, l2) \<Rightarrow> (Inr entry, l2))
                                  else (Inr entry, l1)))))"

definition tail_hash :: "AuditLog \<Rightarrow> string option" where
  "tail_hash l = map_option last_hash (state l)"

definition log_sequence :: "AuditLog \<Rightarrow> nat" where
  "log_sequence l = (case state l of Some s \<Rightarrow> state_sequence s | None \<Rightarrow> 0)"

text \<open>
  \<^verbatim>\<open>read_last_entry\<close>: blocks are read from the end of the file until a non-blank
  line is in hand and the text read holds a line feed or is the whole file.  The
  block size is 64 KiB in the source.
\<close>

definition BLOCK :: nat where
  "BLOCK = 64 * 1024"

definition last_nonblank :: "string list \<Rightarrow> string option" where
  "last_nonblank ls = (case filter (\<lambda>l. \<not> blank l) ls of [] \<Rightarrow> None | l # r \<Rightarrow> Some (last (l # r)))"

function read_last_loop ::
  "log_env \<Rightarrow> nat \<Rightarrow> string \<Rightarrow> nat \<Rightarrow> AuditEntry option AuditResult" where
  "read_last_loop E blk content read_from =
     (let block = min blk read_from; read_from' = read_from - block;
          tail = drop read_from' content;
          have_complete_line = (newline \<in> set tail \<or> read_from' = 0)
      in (case last_nonblank (lines tail) of
            Some line \<Rightarrow>
              if have_complete_line
              then (case parse_entry E line of
                      Some e \<Rightarrow> Inr (Some e)
                    | None \<Rightarrow> Inl (SerializationError ''last entry is unreadable''))
              else if read_from' = 0 then Inr None
              else if blk = 0 then Inr None
              else read_last_loop E blk content read_from'
          | None \<Rightarrow> if read_from' = 0 then Inr None
              else if blk = 0 then Inr None
              else read_last_loop E blk content read_from'))"
  by pat_completeness auto
termination
  by (relation "measure (\<lambda>(E, blk, content, read_from). read_from)") auto

declare read_last_loop.simps [simp del]

definition read_last_entry :: "log_env \<Rightarrow> nat \<Rightarrow> string \<Rightarrow> AuditEntry option AuditResult" where
  "read_last_entry E blk content =
     (if content = [] then Inr None else read_last_loop E blk content (length content))"

text \<open>\<^verbatim>\<open>find_existing_log_file\<close>: the segment whose last entry has the greatest sequence.\<close>

fun find_newest ::
  "log_env \<Rightarrow> log_disk \<Rightarrow> (string \<times> string \<times> nat) option \<Rightarrow> (string \<times> string \<times> nat) option AuditResult"
  where
  "find_newest E [] newest = Inr newest"
| "find_newest E ((path, content) # fs) newest =
     (case read_last_entry E BLOCK content of
        Inl e \<Rightarrow> Inl e
      | Inr None \<Rightarrow> find_newest E fs newest
      | Inr (Some entry) \<Rightarrow>
          (let replace = (case newest of Some (_, _, seq) \<Rightarrow> sequence entry > seq | None \<Rightarrow> True)
           in find_newest E fs
                (if replace then Some (path, entry_hash entry, sequence entry) else newest)))"

definition find_existing_log_file ::
  "log_env \<Rightarrow> log_disk \<Rightarrow> (string \<times> string \<times> nat) option AuditResult" where
  "find_existing_log_file E d = find_newest E (log_files d) None"

definition genesis_event :: "LogConfig \<Rightarrow> string \<Rightarrow> AuditEvent" where
  "genesis_event cfg version = Lifecycle \<lparr>lc_event = Boot, lc_cordon_version = version,
     lc_tee_type = ''initialized'', lc_node_id = cfg_node_id cfg\<rparr>"

definition file_size :: "string \<Rightarrow> log_disk \<Rightarrow> nat" where
  "file_size path d = (case map_of d path of Some c \<Rightarrow> length c | None \<Rightarrow> 0)"

definition initialize ::
  "log_env \<Rightarrow> append_io \<Rightarrow> string \<Rightarrow> string \<times> string \<Rightarrow> bool \<Rightarrow> AuditLog \<Rightarrow> unit AuditResult \<times> AuditLog"
  where
  "initialize E io version name open_ok l =
     (case find_existing_log_file E (disk l) of
        Inl e \<Rightarrow> (Inl e, l)
      | Inr existing \<Rightarrow>
          (let (path, lh, seq) = (case existing of
                 Some (path, lh, seq) \<Rightarrow> (path, lh, seq)
               | None \<Rightarrow> (new_log_file_path (config l) 1 name,
                          compute_genesis_hash E (cfg_deployment_id (config l)), 0))
           in (case open_log_file open_ok path (disk l) of
                 Inl e \<Rightarrow> (Inl e, l)
               | Inr d \<Rightarrow>
                   let l1 = l\<lparr>disk := d, state := Some \<lparr>writer = [], last_hash = lh,
                         state_sequence = seq, current_file = path,
                         bytes_written = file_size path d\<rparr>\<rparr>
                   in if seq = 0
                      then (case append E io l1 (genesis_event (config l1) version) of
                              (Inl e, l2) \<Rightarrow> (Inl e, l2)
                            | (Inr _, l2) \<Rightarrow> (Inr (), l2))
                      else (Inr (), l1))))"

text \<open>
  The exclusive claim on a directory: an operating-system lock on the file
  \<^verbatim>\<open>.cordon-writer.lock\<close>, released when the log is dropped.  \<open>locks\<close> maps a
  directory to its live holder.
\<close>

datatype lock_answer = LockUnavailable string | LockFree

definition acquire ::
  "(string \<rightharpoonup> string) \<Rightarrow> lock_answer \<Rightarrow> bool \<Rightarrow> string \<Rightarrow> string \<Rightarrow> unit AuditResult \<times> (string \<rightharpoonup> string)"
  where
  "acquire locks os open_ok dir nid =
     (if \<not> open_ok then (Inl (IoError ''cannot claim the audit log''), locks)
      else (case locks dir of
              Some holder \<Rightarrow> (Inl (AlreadyLocked holder), locks)
            | None \<Rightarrow> (case os of
                LockUnavailable e \<Rightarrow> (Inl (IoError e), locks)
              | LockFree \<Rightarrow> (Inr (), locks(dir \<mapsto> nid)))))"

definition release :: "(string \<rightharpoonup> string) \<Rightarrow> string \<Rightarrow> (string \<rightharpoonup> string)" where
  "release locks dir = locks(dir := None)"

definition open_log ::
  "log_env \<Rightarrow> append_io \<Rightarrow> string \<Rightarrow> string \<times> string \<Rightarrow> bool \<Rightarrow> bool \<Rightarrow> bool \<Rightarrow> lock_answer
    \<Rightarrow> (string \<rightharpoonup> string) \<Rightarrow> LogConfig \<Rightarrow> log_disk \<Rightarrow> AuditLog AuditResult \<times> (string \<rightharpoonup> string)"
  where
  "open_log E io version name mkdir_ok claim_ok open_ok os locks cfg d =
     (if \<not> mkdir_ok then (Inl (IoError ''Cannot create log dir''), locks)
      else (case acquire locks os claim_ok (log_dir cfg) (cfg_node_id cfg) of
              (Inl e, locks1) \<Rightarrow> (Inl e, locks1)
            | (Inr _, locks1) \<Rightarrow>
                (case initialize E io version name open_ok
                        \<lparr>config = cfg, state = None, disk = d\<rparr> of
                   (Inl e, _) \<Rightarrow> (Inl e, release locks1 (log_dir cfg))
                 | (Inr _, l) \<Rightarrow> (Inr l, locks1))))"

text \<open>Reading entries back: the whole log, its tail, its size.\<close>

definition parse_line :: "log_env \<Rightarrow> string \<Rightarrow> AuditEntry AuditResult" where
  "parse_line E line = (case parse_entry E line of
     Some e \<Rightarrow> Inr e | None \<Rightarrow> Inl (SerializationError line))"

definition entries_of_content :: "log_env \<Rightarrow> string \<Rightarrow> AuditEntry list AuditResult" where
  "entries_of_content E c = try_each (parse_line E) (filter (\<lambda>l. \<not> blank l) (lines c))"

definition read_all_entries :: "log_env \<Rightarrow> log_disk \<Rightarrow> AuditEntry list AuditResult" where
  "read_all_entries E d =
     (case try_each (\<lambda>f. entries_of_content E (snd f)) (log_files d) of
        Inl e \<Rightarrow> Inl e
      | Inr ess \<Rightarrow> Inr (sort_key sequence (concat ess)))"

definition count_entries :: "log_disk \<Rightarrow> nat" where
  "count_entries d =
     sum_list (map (\<lambda>f. length (filter (\<lambda>l. \<not> blank l) (lines (snd f)))) (log_files d))"

fun collect_lines :: "log_env \<Rightarrow> nat \<Rightarrow> string list \<Rightarrow> AuditEntry list \<Rightarrow> AuditEntry list" where
  "collect_lines E n [] acc = acc"
| "collect_lines E n (l # ls) acc =
     (if blank l then collect_lines E n ls acc
      else let acc' = (case parse_entry E l of Some e \<Rightarrow> acc @ [e] | None \<Rightarrow> acc)
           in if length acc' \<ge> n then acc' else collect_lines E n ls acc')"

fun collect_files :: "log_env \<Rightarrow> nat \<Rightarrow> log_disk \<Rightarrow> AuditEntry list \<Rightarrow> AuditEntry list" where
  "collect_files E n [] acc = acc"
| "collect_files E n (f # fs) acc =
     (let acc' = collect_lines E n (rev (lines (snd f))) acc
      in if length acc' \<ge> n then acc' else collect_files E n fs acc')"

definition read_tail_entries :: "log_env \<Rightarrow> log_disk \<Rightarrow> nat \<Rightarrow> AuditEntry list" where
  "read_tail_entries E d n =
     (if n = 0 then [] else sort_key sequence (collect_files E n (rev (log_files d)) []))"

subsection \<open>Rendering of sequence numbers\<close>

lemma padded_numeral:
  "padded (numeral k) n = padded (pred_numeral k) (n div 10) @ [digit_char (n mod 10)]"
  by (subst numeral_eq_Suc) (rule padded.simps(2))

lemma digit_char_simps [simp]:
  "digit_char 0 = CHR ''0''" "digit_char 1 = CHR ''1''" "digit_char (Suc 0) = CHR ''1''"
  by code_simp+

end
