(* ===== verification/IntegrityMonitor.thy ===== *)
theory IntegrityMonitor
  imports ModelStore AuditLog NodeState
begin

text \<open>
  The background monitor of \<^verbatim>\<open>cordon-core/src/integrity_monitor.rs\<close>.  The store, the node
  state and the audit log it shares with the rest of the node are fields of \<open>monitored\<close>;
  \<open>audit_attached\<close> says whether a log was attached.  One reading of the disk, one clock
  value per bundle and the outcome of each log append are arguments of a cycle.
\<close>

record IntegrityMonitor =
  tamper_detected :: bool
  last_check :: "datetime option"
  last_result :: bool
  interval_minutes :: nat
  halt_on_tamper :: bool
  audit_attached :: bool

record monitored =
  m_store :: ModelStore
  m_node :: NodeState
  m_log :: AuditLog
  m_monitor :: IntegrityMonitor

definition monitor_new :: "nat \<Rightarrow> bool \<Rightarrow> IntegrityMonitor" where
  "monitor_new interval halt = \<lparr>tamper_detected = False, last_check = None, last_result = True,
     interval_minutes = interval, halt_on_tamper = halt, audit_attached = False\<rparr>"

definition attach_audit_log :: "IntegrityMonitor \<Rightarrow> IntegrityMonitor" where
  "attach_audit_log m = m\<lparr>audit_attached := True\<rparr>"

definition tamper_event :: "bool \<Rightarrow> string \<Rightarrow> AuditEvent" where
  "tamper_event halt bid = Tamper \<lparr>te_source = WeightIntegrity, te_hsm_zeroized = False, te_enclave_zeroized = halt,
     te_recovery_required = [''bundle '' @ bid @ '' failed its ciphertext digest check'',
       ''restore the bundle from provisioning media, or re-encrypt it with                  cordon-provision'',
       ''then POST /v1/admin/recover with an admin signature'']\<rparr>"

definition record_tamper :: "log_env \<Rightarrow> append_io \<Rightarrow> monitored \<Rightarrow> string \<Rightarrow> monitored" where
  "record_tamper E io w bid = (if \<not> audit_attached (m_monitor w) then w
     else w\<lparr>m_log := snd (append E io (m_log w) (tamper_event (halt_on_tamper (m_monitor w)) bid))\<rparr>)"

record check_env =
  ce_crypto :: crypto_env
  ce_json :: manifest_json
  ce_log :: log_env
  ce_disk :: shard_disk
  ce_clock :: "string \<Rightarrow> datetime"
  ce_io :: "string \<Rightarrow> append_io"

definition check_bundle :: "check_env \<Rightarrow> monitored \<Rightarrow> string \<Rightarrow> bool \<times> monitored" where
  "check_bundle V w bid =
     (case run_integrity_check (ce_crypto V) (ce_json V) (ce_disk V) (m_store w) (ce_clock V bid) bid of
        (Inr True, st) \<Rightarrow> (True, w\<lparr>m_store := st\<rparr>)
      | (Inr False, st) \<Rightarrow>
          let w1 = record_tamper (ce_log V) (ce_io V bid) (w\<lparr>m_store := st\<rparr>) bid
          in (False, if halt_on_tamper (m_monitor w1)
                     then w1\<lparr>m_monitor := (m_monitor w1)\<lparr>tamper_detected := True\<rparr>, m_node := enter_quarantine (m_node w1)\<rparr>
                     else w1)
      | (Inl _, st) \<Rightarrow> (False, w\<lparr>m_store := st\<rparr>))"

fun check_all :: "check_env \<Rightarrow> monitored \<Rightarrow> string list \<Rightarrow> bool \<times> monitored" where
  "check_all V w [] = (True, w)"
| "check_all V w (bid # bids) =
     (case check_bundle V w bid of (ok, w1) \<Rightarrow>
        (case check_all V w1 bids of (rest, w2) \<Rightarrow> (ok \<and> rest, w2)))"

definition run_check :: "check_env \<Rightarrow> datetime \<Rightarrow> monitored \<Rightarrow> bool CordonResult \<times> monitored" where
  "run_check V now w = (case check_all V w (bundle_ids (m_store w)) of (ok, w1) \<Rightarrow>
     (Inr ok, w1\<lparr>m_monitor := (m_monitor w1)\<lparr>last_check := Some now, last_result := ok\<rparr>\<rparr>))"

text \<open>One tick of \<^verbatim>\<open>start\<close>; the first comes thirty seconds after the start.\<close>

definition start_interval_secs :: "IntegrityMonitor \<Rightarrow> nat" where
  "start_interval_secs m = max (interval_minutes m) 1 * 60"

definition monitor_tick :: "check_env \<Rightarrow> datetime \<Rightarrow> monitored \<Rightarrow> monitored" where
  "monitor_tick V now w = (if tamper_detected (m_monitor w) then w else snd (run_check V now w))"

definition reset_tamper :: "IntegrityMonitor \<Rightarrow> IntegrityMonitor" where
  "reset_tamper m = m\<lparr>tamper_detected := False, last_result := True\<rparr>"

subsection \<open>Lemmas\<close>

lemma check_all_Cons:
  "check_all V w (b # bs) =
     (fst (check_bundle V w b) \<and> fst (check_all V (snd (check_bundle V w b)) bs), snd (check_all V (snd (check_bundle V w b)) bs))"
  by (simp add: case_prod_unfold)

declare check_all.simps(2) [simp del] and check_all_Cons [simp]

lemma record_tamper_frame [simp]:
  "m_store (record_tamper E io w bid) = m_store w" "m_node (record_tamper E io w bid) = m_node w"
  "m_monitor (record_tamper E io w bid) = m_monitor w"
  by (simp_all add: record_tamper_def)

text \<open>Checking one bundle only moves the store by a check event.\<close>

lemma check_bundle_store:
  "m_store (snd (check_bundle V w bid)) = store_step (ce_crypto V) (ce_json V) (m_store w) (CheckBundle (ce_disk V) (ce_clock V bid) bid)"
  by (auto simp: check_bundle_def Let_def split: prod.split sum.split bool.split)

lemma check_all_store:
  "\<exists>es. m_store (snd (check_all V w bids)) = run (store_step (ce_crypto V) (ce_json V)) (m_store w) es
     \<and> run_ok (store_step (ce_crypto V) (ce_json V)) (\<lambda>_. leaves_bundle b) (m_store w) es"
proof (induction bids arbitrary: w)
  case Nil
  show ?case by (rule exI[of _ "[]"]) simp
next
  case (Cons bid bids)
  let ?e = "CheckBundle (ce_disk V) (ce_clock V bid) bid"
  obtain es where "m_store (snd (check_all V (snd (check_bundle V w bid)) bids))
        = run (store_step (ce_crypto V) (ce_json V)) (m_store (snd (check_bundle V w bid))) es"
      "run_ok (store_step (ce_crypto V) (ce_json V)) (\<lambda>_. leaves_bundle b) (m_store (snd (check_bundle V w bid))) es"
    using Cons.IH by blast
  then show ?case
    by (intro exI[of _ "?e # es"]) (simp add: check_bundle_store)
qed

lemma check_bundle_halt [simp]: "halt_on_tamper (m_monitor (snd (check_bundle V w bid))) = halt_on_tamper (m_monitor w)"
  by (auto simp: check_bundle_def Let_def split: prod.split sum.split bool.split)

lemma check_bundle_node: "m_node (snd (check_bundle V w bid)) \<in> {m_node w, enter_quarantine (m_node w)}"
  by (auto simp: check_bundle_def Let_def split: prod.split sum.split bool.split)

lemma check_all_keeps_withdrawn: "withdrawn (m_node w) \<Longrightarrow> withdrawn (m_node (snd (check_all V w bids)))"
proof (induction bids arbitrary: w)
  case (Cons bid bids)
  have "withdrawn (m_node (snd (check_bundle V w bid)))"
    using check_bundle_node[of V w bid] Cons.prems by (auto simp: withdrawn_def enter_quarantine_def)
  from Cons.IH[OF this] show ?case by simp
qed simp

lemma check_all_append:
  "check_all V w (xs @ ys) = (case check_all V w xs of (a, w1) \<Rightarrow> (case check_all V w1 ys of (b, w2) \<Rightarrow> (a \<and> b, w2)))"
  by (induction xs arbitrary: w) (simp_all add: case_prod_unfold)

lemma violated_bundle_stops_node:
  assumes halt: "halt_on_tamper (m_monitor w)"
    and bad: "fst (run_integrity_check (ce_crypto V) (ce_json V) (ce_disk V) (m_store w) (ce_clock V bid) bid) = Inr False"
  shows "withdrawn (m_node (snd (check_bundle V w bid))) \<and> is_tampered bid (m_store (snd (check_bundle V w bid)))"
proof -
  obtain st where r: "run_integrity_check (ce_crypto V) (ce_json V) (ce_disk V) (m_store w) (ce_clock V bid) bid = (Inr False, st)"
    using bad by (metis prod.collapse)
  show ?thesis
    using failed_check_tampers[OF r] r halt by (simp add: check_bundle_def Let_def withdrawn_def enter_quarantine_def)
qed

text \<open>Checks of other bundles do not change what a check of this one finds.\<close>

lemma map_of_check_other:
  "b \<noteq> bid \<Longrightarrow> map_of (bundles (m_store (snd (check_bundle V w b)))) bid = map_of (bundles (m_store w)) bid"
  by (simp add: check_bundle_store run_integrity_check_def record_verdict_def map_of_update_entry
      split: option.split sum.split)

lemma check_bundle_vendor [simp]: "vendor_vk (m_store (snd (check_bundle V w b))) = vendor_vk (m_store w)"
  by (simp add: check_bundle_store run_integrity_check_def record_verdict_def split: option.split sum.split)

definition violated :: "check_env \<Rightarrow> ModelStore \<Rightarrow> string \<Rightarrow> bool" where
  "violated V st bid \<longleftrightarrow> (case map_of (bundles st) bid of None \<Rightarrow> False
     | Some e \<Rightarrow> check_shards (ce_crypto V) (ce_json V) st (ce_disk V) (manifest e) (bundle_dir e) = Inr False)"

lemma check_shards_store_irrelevant: "vendor_vk st = vendor_vk st' \<Longrightarrow> check_shards C J st d m dir = check_shards C J st' d m dir"
  by (simp add: check_shards_def split: sum.split bool.split)

lemma violated_result: "violated V st bid \<Longrightarrow>
   fst (run_integrity_check (ce_crypto V) (ce_json V) (ce_disk V) st now bid) = Inr False"
  by (simp add: violated_def run_integrity_check_def split: option.splits)

lemma violated_other: "b \<noteq> bid \<Longrightarrow> violated V (m_store (snd (check_bundle V w b))) bid = violated V (m_store w) bid"
  unfolding violated_def map_of_check_other
  by (auto simp: check_shards_store_irrelevant[of "m_store (snd (check_bundle V w b))" "m_store w"] split: option.split)

lemma violated_in_cycle:
  assumes "violated V (m_store w) bid" "bid \<in> set bids" "halt_on_tamper (m_monitor w)"
  shows "\<not> fst (check_all V w bids) \<and> withdrawn (m_node (snd (check_all V w bids)))
    \<and> is_tampered bid (m_store (snd (check_all V w bids)))"
  using assms
proof (induction bids arbitrary: w)
  case (Cons b bids)
  show ?case
  proof (cases "b = bid")
    case True
    let ?w1 = "snd (check_bundle V w bid)"
    note r = violated_result[OF Cons.prems(1), of "ce_clock V bid"]
    have "\<not> fst (check_bundle V w bid)"
      using r by (auto simp: check_bundle_def Let_def split: prod.splits)
    moreover note violated_bundle_stops_node[OF Cons.prems(3) r]
    moreover obtain es where "m_store (snd (check_all V ?w1 bids)) = run (store_step (ce_crypto V) (ce_json V)) (m_store ?w1) es"
        "run_ok (store_step (ce_crypto V) (ce_json V)) (\<lambda>_. leaves_bundle bid) (m_store ?w1) es"
      using check_all_store by blast
    ultimately show ?thesis
      using True check_all_keeps_withdrawn[of ?w1 V bids] tamper_sys.run_inv by simp
  next
    case False
    then show ?thesis
      using Cons.IH[of "snd (check_bundle V w b)"] Cons.prems violated_other[OF False, of V w] by simp
  qed
qed simp

subsection \<open>Properties\<close>

text \<open>C17. When a monitor that halts on tamper completes a cycle in which some registered
  bundle's ciphertext or vendor signature no longer matches, the cycle reports failure,
  the bundle is refused by the serving gate, and the node serves nothing through any
  further events of its own until an operator puts it back into operation.\<close>

theorem integrity_violation_halts_node:
  assumes "violated V (m_store w) bid" "halt_on_tamper (m_monitor w)" "run_check V now w = (r, w')"
    and "run_ok node_step not_operator (m_node w') es"
  shows "r = Inr False \<and> ensure_servable (m_store w') t bid allow = Inl (ModelIntegrityViolation bid)
    \<and> \<not> can_serve (run node_step (m_node w') es)"
proof -
  have "bid \<in> set (bundle_ids (m_store w))"
    using assms(1) by (auto simp: violated_def bundle_ids_def split: option.splits dest: map_of_SomeD intro!: rev_image_eqI)
  from violated_in_cycle[OF assms(1) this assms(2)] have
    "r = Inr False" "withdrawn (m_node w')" "is_tampered bid (m_store w')"
    using assms(3) by (auto simp: run_check_def split: prod.splits)
  then show ?thesis
    using tampered_refused withdrawn_cannot_serve[OF withdrawn_sys.run_inv[OF _ assms(4)]] by blast
qed

definition sample_check_env :: check_env where
  "sample_check_env = \<lparr>ce_crypto = plain_crypto, ce_json = (\<lambda>_. Inr []),
     ce_log = \<lparr>sha256_hex = id, to_rfc3339 = (\<lambda>_. []), json_event = (\<lambda>_. None), json_entry = (\<lambda>_. None),
       parse_entry = (\<lambda>_. None), sign_hex = id, signature_from_hex = Some, verify_sig = (\<lambda>_ _. True)\<rparr>,
     ce_disk = sample_corrupt_disk, ce_clock = (\<lambda>_. 5),
     ce_io = (\<lambda>_. \<lparr>io_now = 0, io_uuid = 0, io_write = True, io_spill = False, io_torn = 0, io_flush = True,
       io_sync = True, io_rotate_flush = True, io_rotate_name = ([], []), io_rotate_open = True\<rparr>)\<rparr>"

definition sample_monitored :: monitored where
  "sample_monitored = \<lparr>m_store = sample_store, m_node = go_operational (node_state_new ''1'' 0 ''n'' ''d''),
     m_log = \<lparr>config = log_config_new ''log'' ''d'' ''n'', state = None, disk = []\<rparr>, m_monitor = monitor_new 15 True\<rparr>"

theorem integrity_violation_halts_node_witness:
  "can_serve (m_node sample_monitored)
   \<and> \<not> can_serve (run node_step (m_node (snd (run_check sample_check_env 6 sample_monitored))) [RecoverFromDegraded, Degrade])"
proof -
  let ?R = "run_check sample_check_env 6 sample_monitored"
  have v: "violated sample_check_env (m_store sample_monitored) ''m1''" "halt_on_tamper (m_monitor sample_monitored)"
    by (simp_all add: violated_def sample_check_env_def sample_monitored_def monitor_new_def check_shards_def sample_bundle_defs)
  have r: "?R = (fst ?R, snd ?R)" by simp
  have "can_serve (m_node sample_monitored)"
    by (simp add: sample_monitored_def can_serve_def go_operational_def)
  then show ?thesis
    using integrity_violation_halts_node[OF v r, of "[RecoverFromDegraded, Degrade]" 0 False] by (simp add: not_operator_def)
qed

text \<open>The lifetime of a verdict is the check interval, and a verdict is stamped when its
  check completes: when a check takes longer than the one before, a bundle that passed
  both is refused as stale from the moment the first verdict lapses until the second is
  recorded.\<close>

theorem slower_check_refuses_passing_bundle:
  assumes "run_integrity_check C J d st (tick + d1) bid = (Inr True, st1)" "\<not> is_tampered bid st"
    and "verdict_ttl st = secs (60 * interval)" "tick + d1 + secs (60 * interval) \<le> t"
    and "t < (tick + secs (60 * interval)) + d2"
  shows "d1 < d2 \<and> isl (ensure_servable st1 t bid allow)"
proof -
  obtain e where e: "map_of (bundles st) bid = Some e"
    and st1: "st1 = record_verdict st (tick + d1) bid True"
    using assms(1) by (auto simp: run_integrity_check_def split: option.splits sum.splits)
  have "map_of (bundles st1) bid = Some (e\<lparr>verdict := Some \<lparr>checked_at = tick + d1, passed = True\<rparr>\<rparr>)"
    "verdict_ttl st1 = verdict_ttl st" "bundle_status e \<noteq> Tampered"
    using e st1 assms(2) by (auto simp: record_verdict_def map_of_update_entry is_tampered_def)
  then show ?thesis
    using assms by (simp add: ensure_servable_def)
qed

theorem slower_check_refuses_passing_bundle_witness:
  "isl (ensure_servable (snd (run_integrity_check plain_crypto (\<lambda>_. Inr []) sample_disk sample_store (0 + 5) ''m1''))
     (secs 900 + 6) ''m1'' False)"
proof -
  let ?R = "run_integrity_check plain_crypto (\<lambda>_. Inr []) sample_disk sample_store (0 + 5) ''m1''"
  have f: "fst ?R = Inr True"
    by (simp add: run_integrity_check_def check_shards_def sample_bundle_defs)
  have r: "?R = (Inr True, snd ?R)"
    using f by (metis prod.collapse)
  have t: "\<not> is_tampered ''m1'' sample_store" "verdict_ttl sample_store = secs (60 * 15)"
    by (simp_all add: is_tampered_def sample_store_def fresh_entry_def)
  show ?thesis
    using slower_check_refuses_passing_bundle[OF r t, of "secs 900 + 6" 9 False] by (simp add: secs_def)
qed

end
