(* ===== verification/Node.thy ===== *)
theory Node
  imports NodeKeys AttestationService RateLimiter Inference Utf8 IntegrityMonitor
begin

text \<open>
  The request pipeline of \<^verbatim>\<open>cordon-core/src/node.rs\<close>: admission, the unary and the streaming
  path, and the records the node writes about itself.  It composes the state machine, the
  identity registry, the rate limiter, the model store, the inference engine, the output
  filter, the attack detector and the audit log as the source does.

  What a request cannot determine is in \<open>request_io\<close>: the clock, the identifiers drawn, the
  outcome of each log append, the runtime's answer and the elapsed times.  The statistical
  analyser of released text is the field \<open>ne_covert\<close>.
\<close>

record node_env =
  ne_crypto :: crypto_env
  ne_log :: log_env
  ne_show_time :: "datetime \<Rightarrow> string"
  ne_lower :: "utext \<Rightarrow> utext"
  ne_covert :: "utext \<Rightarrow> bool \<times> rat"
  ne_version :: string

record OutputFilters =
  default_filter :: OutputFilter
  by_path :: "string \<rightharpoonup> OutputFilter"

definition for_client :: "OutputFilters \<Rightarrow> ClientPolicy \<Rightarrow> OutputFilter" where
  "for_client fs p = (case cp_content_policy_path p of
     None \<Rightarrow> default_filter fs
   | Some path \<Rightarrow> (case by_path fs path of None \<Rightarrow> default_filter fs | Some f \<Rightarrow> f))"

record NodeMetrics =
  auth_failures_total :: nat
  rate_limit_hits_total :: nat
  content_policy_hits_total :: nat
  covert_channel_detections_total :: nat
  inference_requests_total :: nat
  tokens_generated_total :: nat
  tokens_prompt_total :: nat

record CordonNode =
  nd_config :: CordonConfig
  nd_keys :: NodeKeys
  nd_state :: NodeState
  nd_identity :: IdentityRegistry
  nd_limiter :: RateLimiter
  nd_store :: ModelStore
  nd_engine :: InferenceEngine
  nd_filters :: OutputFilters
  nd_attestation :: AttestationService
  nd_detector :: DetectorState
  nd_audit :: AuditLog
  nd_metrics :: NodeMetrics
  nd_served_bundle :: "string option"

record request_io =
  io_clock :: datetime
  io_request_id :: uuid
  io_fresh_session :: uuid
  io_alert :: append_io
  io_intake :: append_io
  io_final :: append_io
  io_backend :: "InferenceRequest \<Rightarrow> RawInferenceOutput CordonResult option"
  io_elapsed_ms :: nat

subsection \<open>Records the node writes\<close>

text \<open>\<^verbatim>\<open>let _ = self.audit.append(..)\<close>: the outcome is dropped.\<close>

definition log_event :: "node_env \<Rightarrow> append_io \<Rightarrow> CordonNode \<Rightarrow> AuditEvent \<Rightarrow> CordonNode" where
  "log_event V io n ev = n\<lparr>nd_audit := snd (append (ne_log V) io (nd_audit n) ev)\<rparr>"

definition enclave_state_after :: "NodeStatus \<Rightarrow> AuditEnclaveState" where
  "enclave_state_after s = (case s of Quarantine \<Rightarrow> AuditQuarantine | Locked \<Rightarrow> AuditLocked
     | Zeroized \<Rightarrow> AuditZeroized | _ \<Rightarrow> AuditOperational)"

definition record_security_alert ::
  "node_env \<Rightarrow> append_io \<Rightarrow> CordonNode \<Rightarrow> AlertType \<Rightarrow> AlertSeverity \<Rightarrow> string \<Rightarrow> AutoAction \<Rightarrow> string option \<Rightarrow> CordonNode" where
  "record_security_alert V io n ty sev summary act src = log_event V io n (SecurityAlert
     \<lparr>sa_alert_type = ty, sa_severity = sev, sa_detail_hash = digest_hex (ne_crypto V) summary, sa_summary = summary,
      sa_automatic_action = act, sa_enclave_state_after = enclave_state_after (status (nd_state n)),
      sa_source_identifier = src\<rparr>)"

definition enclave_key_id :: "node_env \<Rightarrow> CordonNode \<Rightarrow> string" where
  "enclave_key_id V n = ''enclave-'' @ take 16 (vk_to_hex (ne_crypto V) (verifying_key (ne_crypto V) (enclave_key (nd_keys n))))"

definition record_log_access :: "node_env \<Rightarrow> append_io \<Rightarrow> datetime \<Rightarrow> CordonNode \<Rightarrow> string \<Rightarrow> string \<Rightarrow> nat \<Rightarrow> CordonNode" where
  "record_log_access V io now n client_id what entries = log_event V io n (LogExport
     \<lparr>le_requester_client_id = client_id, le_export_method = what, le_range_start = now, le_range_end = now,
      le_entries_exported = entries, le_export_hash = [], le_recipient_key_id = enclave_key_id V n\<rparr>)"

definition record_attestation_event ::
  "node_env \<Rightarrow> append_io \<Rightarrow> CordonNode \<Rightarrow> AttestationTrigger \<Rightarrow> string \<Rightarrow> bool \<Rightarrow> CordonNode" where
  "record_attestation_event V io n trigger nonce verified = log_event V io n (Attestation
     \<lparr>at_trigger = trigger, at_tpm_pcr_snapshot_hash = measurement_snapshot_hash (ne_crypto V) (nd_attestation n),
      at_mrenclave = mrenclave (nd_attestation n), at_client_verified = verified, at_key_released = False,
      at_nonce = digest_hex (ne_crypto V) nonce\<rparr>)"

definition record_tamper_event :: "node_env \<Rightarrow> append_io \<Rightarrow> CordonNode \<Rightarrow> TamperSource \<Rightarrow> string list \<Rightarrow> CordonNode" where
  "record_tamper_event V io n src recovery = log_event V io n (Tamper
     \<lparr>te_source = src, te_hsm_zeroized = False, te_enclave_zeroized = False, te_recovery_required = recovery\<rparr>)"

definition lifecycle_event :: "node_env \<Rightarrow> CordonNode \<Rightarrow> LifecycleEventType \<Rightarrow> AuditEvent" where
  "lifecycle_event V n ev = Lifecycle \<lparr>lc_event = ev, lc_cordon_version = ne_version V,
     lc_tee_type = tee_display (tee_preferred (tee (nd_config n))), lc_node_id = cc_node_id (nd_config n)\<rparr>"

definition node_go_operational :: "node_env \<Rightarrow> append_io \<Rightarrow> CordonNode \<Rightarrow> unit CordonResult \<times> CordonNode" where
  "node_go_operational V io n = (let n1 = n\<lparr>nd_state := go_operational (nd_state n)\<rparr> in
     case append (ne_log V) io (nd_audit n1) (lifecycle_event V n1 Boot) of
       (Inl e, l) \<Rightarrow> (Inl (from_audit_error e), n1\<lparr>nd_audit := l\<rparr>)
     | (Inr _, l) \<Rightarrow> (Inr (), n1\<lparr>nd_audit := l\<rparr>))"

subsection \<open>Admission\<close>

definition attestation_ready_for :: "CordonNode \<Rightarrow> datetime \<Rightarrow> string \<Rightarrow> bool" where
  "attestation_ready_for n now client_id =
     (if \<not> requires_hardware_tee (nd_config n) \<or> \<not> halt_until_verified (attestation (nd_config n)) then True
      else is_verified_by (nd_attestation n) now client_id)"

fun check_roles :: "Message list \<Rightarrow> unit CordonResult" where
  "check_roles [] = Inr ()"
| "check_roles (m # ms) =
     (if role m \<notin> {''system'', ''user'', ''assistant'', ''tool''}
      then Inl (ValidationFailed (''unknown message role '' @ quoted (role m))) else check_roles ms)"

definition check_request_limits ::
  "CordonConfig \<Rightarrow> Message list \<Rightarrow> InferenceParams \<Rightarrow> ClientPolicy \<Rightarrow> unit CordonResult" where
  "check_request_limits c msgs prms policy =
     (let lim = limits c; total = sum_list (map (length \<circ> content) msgs);
          ceiling = min (max_output_tokens (inference c)) (cp_max_tokens_per_request policy) in
      if msgs = [] then Inl (ValidationFailed ''a request must contain at least one message'')
      else if length msgs > max_messages lim
      then Inl (RequestTooLarge (show_nat (length msgs) @ '' messages exceeds the limit of '' @ show_nat (max_messages lim)))
      else if total > max_prompt_chars lim
      then Inl (RequestTooLarge (''prompt of '' @ show_nat total @ '' bytes exceeds the limit of '' @ show_nat (max_prompt_chars lim)))
      else (case check_roles msgs of Inl e \<Rightarrow> Inl e | Inr _ \<Rightarrow>
        if ip_max_tokens prms = 0 then Inl (ValidationFailed ''max_tokens must be greater than zero'')
        else if ip_max_tokens prms > ceiling
        then Inl (ValidationFailed (''max_tokens '' @ show_nat (ip_max_tokens prms) @ '' exceeds the limit of '' @ show_nat ceiling @ '' for this client''))
        else if \<not> (0 \<le> temperature prms \<and> temperature prms \<le> 2)
        then Inl (ValidationFailed ''temperature must be between 0.0 and 2.0'')
        else if \<not> (0 \<le> top_p prms \<and> top_p prms \<le> 1)
        then Inl (ValidationFailed ''top_p must be between 0.0 and 1.0'')
        else Inr ()))"

definition gate_id :: "CordonNode \<Rightarrow> string \<Rightarrow> string" where
  "gate_id n model = (case nd_served_bundle n of
     Some b \<Rightarrow> if model = [] \<or> model = ''default'' then b else model | None \<Rightarrow> model)"

definition store_gate :: "CordonNode \<Rightarrow> datetime \<Rightarrow> string \<Rightarrow> unit CordonResult" where
  "store_gate n now model =
     (if nd_served_bundle n = None \<and> backend (runtime (nd_config n)) = Supervised then Inr ()
      else ensure_servable (nd_store n) now (gate_id n model) (allow_unregistered_models (nd_keys n)))"

definition bump :: "(NodeMetrics \<Rightarrow> NodeMetrics) \<Rightarrow> CordonNode \<Rightarrow> CordonNode" where
  "bump f n = n\<lparr>nd_metrics := f (nd_metrics n)\<rparr>"

definition inc_auth :: "NodeMetrics \<Rightarrow> NodeMetrics" where
  "inc_auth m = m\<lparr>auth_failures_total := wrap_u64 (auth_failures_total m + 1)\<rparr>"

definition inc_rate :: "NodeMetrics \<Rightarrow> NodeMetrics" where
  "inc_rate m = m\<lparr>rate_limit_hits_total := wrap_u64 (rate_limit_hits_total m + 1)\<rparr>"

definition inc_policy :: "NodeMetrics \<Rightarrow> NodeMetrics" where
  "inc_policy m = m\<lparr>content_policy_hits_total := wrap_u64 (content_policy_hits_total m + 1)\<rparr>"

definition inc_covert :: "NodeMetrics \<Rightarrow> NodeMetrics" where
  "inc_covert m = m\<lparr>covert_channel_detections_total := wrap_u64 (covert_channel_detections_total m + 1)\<rparr>"

definition record_inference_completed :: "nat \<Rightarrow> nat \<Rightarrow> NodeMetrics \<Rightarrow> NodeMetrics" where
  "record_inference_completed prompt completion m = m\<lparr>
     inference_requests_total := wrap_u64 (inference_requests_total m + 1),
     tokens_generated_total := wrap_u64 (tokens_generated_total m + completion),
     tokens_prompt_total := wrap_u64 (tokens_prompt_total m + prompt)\<rparr>"

definition refuse_identity :: "node_env \<Rightarrow> request_io \<Rightarrow> CordonNode \<Rightarrow> ClientIdentity \<Rightarrow> CordonNode" where
  "refuse_identity V io n client =
     (let n1 = bump inc_auth n;
          n2 = n1\<lparr>nd_detector := snd (record_auth_failure (sustained_attack (nd_config n1)) (nd_detector n1) (io_clock io) (ci_fingerprint client))\<rparr>
      in record_security_alert V (io_alert io) n2 AlertType.AuthFailure Medium
           (''authorization refused for client '' @ ci_client_id client) Continue (Some (ci_fingerprint client)))"

definition refuse_model :: "node_env \<Rightarrow> request_io \<Rightarrow> CordonNode \<Rightarrow> ClientIdentity \<Rightarrow> CordonNode" where
  "refuse_model V io n client =
     (let n1 = n\<lparr>nd_detector := snd (record_invalid_model (nd_detector n) (io_clock io) (ci_client_id client))\<rparr>
      in record_security_alert V (io_alert io) n1 SustainedProbe Low
           (''client '' @ ci_client_id client @ '' requested a model its policy does not admit'') Continue (Some (ci_client_id client)))"

definition node_admit ::
  "node_env \<Rightarrow> request_io \<Rightarrow> CordonNode \<Rightarrow> ClientIdentity \<Rightarrow> string \<Rightarrow> Message list \<Rightarrow> InferenceParams
   \<Rightarrow> ClientPolicy CordonResult \<times> CordonNode" where
  "node_admit V io n client model msgs prms =
     (let now = io_clock io in
      if \<not> can_serve (nd_state n) then (Inl Quarantined, n)
      else if \<not> attestation_ready_for n now (ci_client_id client)
      then (Inl (AttestationInvalid (''this client has not verified the node'' @ [CHR 0x27] @ ''s attestation. Call POST /v1/attestation/verify before requesting inference.'')), n)
      else (case is_ip_blocked (nd_detector n) now (ci_fingerprint client) of (is_blocked, d1) \<Rightarrow>
        let n1 = n\<lparr>nd_detector := d1\<rparr> in
        if is_blocked then (Inl (AuthFailed ''source is blocked''), bump inc_auth n1)
        else (case verify_identity (ne_show_time V) (nd_identity n1) now client of
          Inl e \<Rightarrow> (Inl e, refuse_identity V io n1 client)
        | Inr policy \<Rightarrow> (case is_client_suspended (nd_detector n1) now (ci_client_id client) of (reason, d2) \<Rightarrow>
            let n2 = n1\<lparr>nd_detector := d2\<rparr> in
            (case reason of
               Some r \<Rightarrow> (Inl (AuthFailed (''client suspended: '' @ r)), n2)
             | None \<Rightarrow>
                 if \<not> model_permitted policy model
                 then (Inl (AuthFailed (''client '' @ ci_client_id client @ '' is not permitted to use model '' @ model)), refuse_model V io n2 client)
                 else (case check_request_limits (nd_config n2) msgs prms policy of
                   Inl e \<Rightarrow> (Inl e, n2)
                 | Inr _ \<Rightarrow> (case store_gate n2 now model of
                     Inl e \<Rightarrow> (Inl e, n2)
                   | Inr _ \<Rightarrow> (case check (nd_limiter n2) now (ci_client_id client) (ip_max_tokens prms) policy of
                       (Inl e, rl) \<Rightarrow> (Inl e, bump inc_rate (n2\<lparr>nd_limiter := rl\<rparr>))
                     | (Inr _, rl) \<Rightarrow> (Inr policy, n2\<lparr>nd_limiter := rl\<rparr>)))))))))"

subsection \<open>The unary path\<close>

text \<open>Each field is length-prefixed before hashing.\<close>

definition message_bytes :: "Message \<Rightarrow> bytes" where
  "message_bytes m = le_bytes 8 (length (role m)) @ bytes_of (role m) @ le_bytes 8 (length (content m)) @ bytes_of (content m)"

definition hash_messages :: "crypto_env \<Rightarrow> Message list \<Rightarrow> string" where
  "hash_messages C msgs = digest_hex C (string_of_bytes (concat (map message_bytes msgs)))"

fun audit_finish_reason :: "StopReason \<Rightarrow> FinishReason" where
  "audit_finish_reason StopReason.Stop = FinishReason.Stop"
| "audit_finish_reason StopReason.Length = FinishReason.Length"
| "audit_finish_reason StopReason.ContentFilter = FinishReason.ContentFilter"
| "audit_finish_reason TimeoutStop = FinishReason.Timeout"
| "audit_finish_reason ErrorStop = FinishReason.Error"

record InferenceOutcome =
  oc_request_id :: uuid
  oc_session_id :: uuid
  oc_model_id :: string
  oc_client_id :: string
  oc_output :: string
  oc_prompt_tokens :: nat
  oc_completion_tokens :: nat
  oc_finish_reason :: StopReason
  oc_latency_ms :: nat
  oc_timing_bucket_ms :: "nat option"
  oc_content_policy_triggered :: bool
  oc_policy_rules_matched :: "string list"
  oc_covert_channel_score :: rat
  oc_output_hash :: string
  oc_mrenclave :: string

definition make_request ::
  "node_env \<Rightarrow> request_io \<Rightarrow> ClientIdentity \<Rightarrow> string \<Rightarrow> Message list \<Rightarrow> InferenceParams \<Rightarrow> uuid option \<Rightarrow> nat \<Rightarrow> InferenceRequest" where
  "make_request V io client model msgs prms sid timeout = \<lparr>request_id = io_request_id io, rq_client_id = ci_client_id client,
     rq_session_id = sid, model_id = model, messages = msgs, params = prms, timeout_secs = timeout,
     input_hash = hash_messages (ne_crypto V) msgs, rq_created_at = io_clock io\<rparr>"

definition intake_event :: "CordonNode \<Rightarrow> InferenceRequest \<Rightarrow> uuid \<Rightarrow> AuditEvent" where
  "intake_event n rq sid = Inference \<lparr>ie_request_id = request_id rq, ie_client_id = rq_client_id rq, ie_session_id = Some sid,
     ie_model_id = model_id rq, ie_mrenclave = mrenclave (nd_attestation n), ie_input_hash = input_hash rq,
     ie_output_hash = [], ie_prompt_tokens = 0, ie_completion_tokens = 0, ie_latency_ms = 0,
     ie_finish_reason = FinishReason.Stop, ie_content_policy_triggered = False, ie_policy_rules_matched = [],
     ie_covert_channel_score = 0, ie_timing_bucket_ms = bucket_ms (timing_normalization (nd_config n))\<rparr>"

definition completion_event ::
  "CordonNode \<Rightarrow> InferenceRequest \<Rightarrow> uuid \<Rightarrow> string \<Rightarrow> TokenUsage \<Rightarrow> nat \<Rightarrow> FinishReason \<Rightarrow> bool \<Rightarrow> string list \<Rightarrow> rat \<Rightarrow> AuditEvent" where
  "completion_event n rq sid out_hash u latency reason trig rls score = Inference
     \<lparr>ie_request_id = request_id rq, ie_client_id = rq_client_id rq, ie_session_id = Some sid,
      ie_model_id = model_id rq, ie_mrenclave = mrenclave (nd_attestation n), ie_input_hash = input_hash rq,
      ie_output_hash = out_hash, ie_prompt_tokens = prompt_tokens u, ie_completion_tokens = completion_tokens u,
      ie_latency_ms = latency, ie_finish_reason = reason, ie_content_policy_triggered = trig,
      ie_policy_rules_matched = rls, ie_covert_channel_score = score,
      ie_timing_bucket_ms = bucket_ms (timing_normalization (nd_config n))\<rparr>"

text \<open>What admission and the intake record leave: the request, its lease and the node, or a refusal.\<close>

definition release_lease :: "CordonNode \<Rightarrow> InferenceLease \<Rightarrow> CordonNode" where
  "release_lease n l = n\<lparr>nd_engine := drop_lease (nd_engine n) l\<rparr>"

definition intake ::
  "node_env \<Rightarrow> request_io \<Rightarrow> CordonNode \<Rightarrow> ClientIdentity \<Rightarrow> string \<Rightarrow> Message list \<Rightarrow> InferenceParams \<Rightarrow> uuid option \<Rightarrow> nat
   \<Rightarrow> (ClientPolicy \<times> InferenceRequest \<times> InferenceLease) CordonResult \<times> CordonNode" where
  "intake V io n client model msgs prms sid timeout =
     (case node_admit V io n client model msgs prms of
        (Inl e, n1) \<Rightarrow> (Inl e, n1)
      | (Inr policy, n1) \<Rightarrow>
          let rq = make_request V io client model msgs prms sid timeout;
              n2 = n1\<lparr>nd_detector := snd (snd (record_input_hash (sustained_attack (nd_config n1)) (nd_detector n1)
                     (io_clock io) (ci_client_id client) (input_hash rq)))\<rparr>
          in (case admit (nd_engine n2) (io_clock io) (io_fresh_session io) rq of
                (Inl e, en) \<Rightarrow> (Inl e, n2\<lparr>nd_engine := en\<rparr>)
              | (Inr lease, en) \<Rightarrow>
                  let n3 = n2\<lparr>nd_engine := en\<rparr> in
                  (case append (ne_log V) (io_intake io) (nd_audit n3) (intake_event n3 rq (lease_session lease)) of
                     (Inl e, l) \<Rightarrow> (Inl (AuditWriteFailed (audit_error_to_string e)), release_lease (n3\<lparr>nd_audit := l\<rparr>) lease)
                   | (Inr _, l) \<Rightarrow> (Inr (policy, rq, lease), n3\<lparr>nd_audit := l\<rparr>))))"

text \<open>What follows a generation: settling, filtering, analysis, timing and the completion record.\<close>

definition complete ::
  "node_env \<Rightarrow> request_io \<Rightarrow> CordonNode \<Rightarrow> ClientPolicy \<Rightarrow> InferenceRequest \<Rightarrow> uuid \<Rightarrow> RawInferenceOutput
   \<Rightarrow> InferenceOutcome CordonResult \<times> CordonNode" where
  "complete V io n policy rq sid out =
     (let client_id = rq_client_id rq; u = usage out;
          n1 = n\<lparr>nd_limiter := settle (nd_limiter n) client_id (ip_max_tokens (params rq)) (completion_tokens u)\<rparr>;
          fr = filter_text (ne_lower V) (for_client (nd_filters n1) policy) (to_chars (out_text out));
          rls = map match_rule (matches fr)
      in if blocked fr
         then (Inl (violation_of fr),
               log_event V (io_final io) (bump inc_policy n1)
                 (completion_event n1 rq sid [] u (io_elapsed_ms io) FinishReason.ContentFilter True rls 0))
         else
           let n2 = (if triggered fr then bump inc_policy n1 else n1);
               (detected, score) = ne_covert V (filtered fr);
               (susp, n3) = (if detected
                  then (case record_covert_channel_score (sustained_attack (nd_config n2)) (nd_detector n2) (io_clock io) client_id score of
                          (s, _, d) \<Rightarrow> (s, (bump inc_covert n2)\<lparr>nd_detector := d\<rparr>))
                  else (False, n2))
           in if susp
              then (Inl (CovertChannelDetected score),
                    record_security_alert V (io_alert io) n3 CovertChannelSuspectedAlert High
                      (''client '' @ client_id @ '' suspended after repeated covert-channel detections'') SuspendClient (Some client_id))
              else
                let tn = timing_normalization (nd_config n3);
                    latency = io_elapsed_ms io + normalize_ms tn (io_elapsed_ms io);
                    text = to_bytes (filtered fr);
                    out_hash = digest_hex (ne_crypto V) text;
                    n4 = log_event V (io_final io) n3 (completion_event n3 rq sid out_hash u latency
                           (audit_finish_reason (finish_reason out)) (triggered fr) rls score);
                    n5 = (bump (record_inference_completed (prompt_tokens u) (completion_tokens u)) n4)
                           \<lparr>nd_state := update_latency (record_inference (nd_state n4) (completion_tokens u)) latency\<rparr>
                in (Inr \<lparr>oc_request_id = request_id rq, oc_session_id = sid, oc_model_id = model_id rq, oc_client_id = client_id,
                      oc_output = text, oc_prompt_tokens = prompt_tokens u, oc_completion_tokens = completion_tokens u,
                      oc_finish_reason = finish_reason out, oc_latency_ms = latency, oc_timing_bucket_ms = bucket_ms tn,
                      oc_content_policy_triggered = triggered fr, oc_policy_rules_matched = rls,
                      oc_covert_channel_score = score, oc_output_hash = out_hash,
                      oc_mrenclave = mrenclave (nd_attestation n5)\<rparr>, n5))"

text \<open>The lease is dropped on every path out.\<close>

definition process_inference ::
  "node_env \<Rightarrow> request_io \<Rightarrow> CordonNode \<Rightarrow> ClientIdentity \<Rightarrow> string \<Rightarrow> Message list \<Rightarrow> InferenceParams \<Rightarrow> uuid option \<Rightarrow> nat
   \<Rightarrow> InferenceOutcome CordonResult \<times> CordonNode" where
  "process_inference V io n client model msgs prms sid timeout =
     (case intake V io n client model msgs prms sid timeout of
        (Inl e, n1) \<Rightarrow> (Inl e, n1)
      | (Inr (policy, rq, lease), n1) \<Rightarrow>
          (case engine_run (io_backend io) rq of
             Inl e \<Rightarrow> (Inl e, release_lease n1 lease)
           | Inr out \<Rightarrow> (case complete V io n1 policy rq (lease_session lease) out of
               (r, n2) \<Rightarrow> (r, release_lease n2 lease))))"

subsection \<open>The streaming path\<close>

record StreamingMeta =
  sm_request :: InferenceRequest
  sm_session_id :: uuid
  sm_mrenclave :: string
  sm_reserved_tokens :: nat

record StreamingSession =
  meta :: StreamingMeta
  session_filter :: OutputFilter
  session_lease :: InferenceLease

definition begin_streaming_inference ::
  "node_env \<Rightarrow> request_io \<Rightarrow> unit CordonResult \<Rightarrow> CordonNode \<Rightarrow> ClientIdentity \<Rightarrow> string \<Rightarrow> Message list \<Rightarrow> InferenceParams
   \<Rightarrow> uuid option \<Rightarrow> nat \<Rightarrow> StreamingSession CordonResult \<times> CordonNode" where
  "begin_streaming_inference V io opened n client model msgs prms sid timeout =
     (if is_active (timing_normalization (nd_config n))
      then (Inl (ModeForbidden (mode_display (mode (nd_config n))) ''streaming is refused while side_channel.timing_normalization is enabled. A stream releases text as it is generated, so the intervals between chunks carry the per-token timing that normalisation exists to remove. Use POST /v1/inference, which is normalised, or disable timing normalisation.''), n)
      else (case intake V io n client model msgs prms sid timeout of
          (Inl e, n1) \<Rightarrow> (Inl e, n1)
        | (Inr (policy, rq, lease), n1) \<Rightarrow>
            (case opened of
               Inl e \<Rightarrow> (Inl e, release_lease n1 lease)
             | Inr _ \<Rightarrow> (Inr \<lparr>meta = \<lparr>sm_request = rq, sm_session_id = lease_session lease,
                   sm_mrenclave = mrenclave (nd_attestation n1), sm_reserved_tokens = ip_max_tokens prms\<rparr>,
                   session_filter = for_client (nd_filters n1) policy, session_lease = lease\<rparr>, n1))))"

record StreamingRecord =
  sr_output_hash :: string
  sr_latency_ms :: nat
  sr_content_policy_triggered :: bool
  sr_policy_rules_matched :: "string list"
  sr_covert_channel_score :: rat

definition finish_streaming_inference ::
  "node_env \<Rightarrow> request_io \<Rightarrow> CordonNode \<Rightarrow> StreamingMeta \<Rightarrow> string option \<Rightarrow> TokenUsage \<Rightarrow> StopReason \<Rightarrow> string list
   \<Rightarrow> StreamingRecord \<times> CordonNode" where
  "finish_streaming_inference V io n m rel u reason rls =
     (let client_id = rq_client_id (sm_request m);
          n1 = n\<lparr>nd_limiter := settle (nd_limiter n) client_id (sm_reserved_tokens m) (completion_tokens u)\<rparr>;
          text = (case rel of None \<Rightarrow> [] | Some t \<Rightarrow> t);
          out_hash = (if text = [] then [] else digest_hex (ne_crypto V) text);
          (detected, score) = ne_covert V (to_chars text);
          n2 = (if detected
             then (bump inc_covert n1)\<lparr>nd_detector := snd (snd (record_covert_channel_score (sustained_attack (nd_config n1))
                    (nd_detector n1) (io_clock io) client_id score))\<rparr>
             else n1);
          trig = (rel = None \<or> rls \<noteq> []);
          ev = (case completion_event n2 (sm_request m) (sm_session_id m) out_hash u (io_elapsed_ms io)
                  (audit_finish_reason reason) trig rls score of
                  Inference e \<Rightarrow> Inference (e\<lparr>ie_mrenclave := sm_mrenclave m\<rparr>) | other \<Rightarrow> other);
          n3 = log_event V (io_final io) n2 ev;
          n4 = (if rel = None then n3
             else (bump (record_inference_completed (prompt_tokens u) (completion_tokens u)) n3)
                    \<lparr>nd_state := update_latency (record_inference (nd_state n3) (completion_tokens u)) (io_elapsed_ms io)\<rparr>)
      in (\<lparr>sr_output_hash = out_hash, sr_latency_ms = io_elapsed_ms io, sr_content_policy_triggered = trig,
           sr_policy_rules_matched = rls, sr_covert_channel_score = score\<rparr>, n4))"

text \<open>The periodic reclamation of \<^verbatim>\<open>start_background_services\<close>, every sixty seconds.\<close>

definition reclaim :: "datetime \<Rightarrow> CordonNode \<Rightarrow> CordonNode" where
  "reclaim now n = n\<lparr>
     nd_engine := (nd_engine n)\<lparr>kv_cache := snd (cleanup_expired (kv_cache (nd_engine n)) now 900)\<rparr>,
     nd_identity := cleanup_expired_suspensions (nd_identity n) now,
     nd_limiter := prune_stale_buckets (nd_limiter n) now 3600,
     nd_detector := cleanup (nd_detector n) now,
     nd_attestation := snd (expire_stale_verifications (nd_attestation n) now)\<rparr>"

end
