(* ===== verification/Api.thy ===== *)
theory Api
  imports Node
begin

text \<open>
  The outer layer of the HTTP interface: the classification of errors into responses
  (\<^verbatim>\<open>cordon-api/src/error.rs\<close>) and the middleware that runs around every handler
  (\<^verbatim>\<open>cordon-api/src/middleware.rs\<close>).  A header value that is not visible ASCII is absent.
\<close>

subsection \<open>Errors\<close>

record ApiError =
  ae_error :: string
  ae_message :: string
  ae_request_id :: "uuid option"

definition api_error_new :: "string \<Rightarrow> string \<Rightarrow> ApiError" where
  "api_error_new code message = \<lparr>ae_error = code, ae_message = message, ae_request_id = None\<rparr>"

record ApiErrorResponse =
  er_status :: nat
  er_body :: ApiError

fun classify :: "CordonError \<Rightarrow> nat \<times> string \<times> string" where
  "classify (AuthFailed m) = (401, ''auth_failed'', m)"
| "classify (RateLimitExceeded _) = (429, ''rate_limit_exceeded'', ''rate limit exceeded for this client'')"
| "classify (ValidationFailed m) = (400, ''validation_failed'', m)"
| "classify (RequestTooLarge m) = (413, ''request_too_large'', m)"
| "classify (ModelNotFound b) = (404, ''model_not_found'', ''no model named '' @ quoted b @ '' is available'')"
| "classify (ModelIntegrityViolation _) = (503, ''integrity_violation'', ''the requested model failed its integrity check and is not being served'')"
| "classify (AttestationInvalid m) = (503, ''attestation_invalid'', m)"
| "classify Quarantined = (503, ''quarantined'', ''the node is quarantined and is not serving inference'')"
| "classify NodeLocked = (503, ''locked'', ''the node is locked and requires operator recovery'')"
| "classify NodeZeroized = (503, ''zeroized'', ''the node'' @ [CHR 0x27] @ ''s key material has been zeroized and it must be re-provisioned'')"
| "classify (ContentPolicyViolation r) = (422, ''content_policy_violation'', ''the response was withheld by content policy rule '' @ quoted r)"
| "classify (CovertChannelDetected _) = (422, ''covert_channel_detected'', ''the response was withheld after covert-channel analysis'')"
| "classify (AdminRejected m) = (403, ''admin_rejected'', m)"
| "classify (Overloaded k) = (503, ''overloaded'', ''the node is serving its maximum of '' @ show_nat k @ '' concurrent requests'')"
| "classify (Timeout s) = (504, ''timeout'', ''the request exceeded its '' @ show_nat s @ ''s deadline'')"
| "classify (RuntimeUnavailable _) = (503, ''runtime_unavailable'', ''the model runtime is not available'')"
| "classify (ModelDownloadFailed m) = (502, ''model_download_failed'', m)"
| "classify (ModeForbidden md reason) = (403, ''mode_forbidden'', ''not permitted in '' @ md @ '' mode: '' @ reason)"
| "classify (InferenceFailed _) = (502, ''inference_failed'', ''the model runtime did not return a usable response'')"
| "classify (AuditWriteFailed _) = (500, ''audit_write_failed'', ''the request was refused because it could not be recorded in the audit log'')"
| "classify (AuditLogUnavailable _) = (503, ''audit_log_unavailable'', ''the node'' @ [CHR 0x27] @ ''s audit log is not available, so it is not serving'')"
| "classify (KeyError _) = (500, ''internal_error'', ''an internal error occurred; see the node'' @ [CHR 0x27] @ ''s logs'')"
| "classify (ConfigError _) = (500, ''internal_error'', ''an internal error occurred; see the node'' @ [CHR 0x27] @ ''s logs'')"
| "classify (OutputFilterError _) = (500, ''internal_error'', ''an internal error occurred; see the node'' @ [CHR 0x27] @ ''s logs'')"
| "classify (Internal _) = (500, ''internal_error'', ''an internal error occurred; see the node'' @ [CHR 0x27] @ ''s logs'')"

definition map_err :: "CordonError \<Rightarrow> ApiErrorResponse" where
  "map_err e = (case classify e of (st, code, m) \<Rightarrow> \<lparr>er_status = st, er_body = api_error_new code m\<rparr>)"

subsection \<open>Requests and responses\<close>

type_synonym headers = "(string \<times> string) list"

record http_response =
  rs_status :: nat
  rs_headers :: headers

definition insert_header :: "string \<Rightarrow> string \<Rightarrow> http_response \<Rightarrow> http_response" where
  "insert_header name v r = r\<lparr>rs_headers := AList.update name v (rs_headers r)\<rparr>"

definition error_into_response :: "headers \<Rightarrow> ApiErrorResponse \<Rightarrow> http_response" where
  "error_into_response json_headers e = (let r = \<lparr>rs_status = er_status e, rs_headers = json_headers\<rparr> in
     if er_status e = 503 \<or> er_status e = 429 then insert_header ''retry-after'' ''5'' r else r)"

record VerifiedIdentity =
  vi_identity :: ClientIdentity
  vi_source :: IdentitySource

definition is_verified :: "VerifiedIdentity \<Rightarrow> bool" where
  "is_verified v \<longleftrightarrow> vi_source v = ClientCertificate"

record http_request =
  rq_headers :: headers
  rq_https :: bool
  rq_connect_info :: "ip_addr option"
  rq_identity :: "VerifiedIdentity option"
  rq_id :: "uuid option"
  rq_peer :: "ip_addr option option"

text \<open>\<^verbatim>\<open>to_str\<close> on a header value.\<close>

definition header_str :: "string \<Rightarrow> http_request \<Rightarrow> string option" where
  "header_str name rq = (case map_of (rq_headers rq) name of
     Some v \<Rightarrow> if list_all (\<lambda>c. let n = (of_char c :: nat) in (32 \<le> n \<and> n < 127) \<or> n = 9) v then Some v else None
   | None \<Rightarrow> None)"

definition client_id_char :: "char \<Rightarrow> bool" where
  "client_id_char c \<longleftrightarrow> is_ascii_alphanumeric c \<or> c \<in> {CHR ''-'', CHR ''_'', CHR ''.'', CHR ''@''}"

definition sanitize_client_id :: "string \<Rightarrow> string" where
  "sanitize_client_id v = (let cleaned = take 128 (filter client_id_char v) in if cleaned = [] then ''anonymous'' else cleaned)"

definition header_client_id :: "http_request \<Rightarrow> string" where
  "header_client_id rq = (case header_str ''x-client-id'' rq of Some v \<Rightarrow> sanitize_client_id v | None \<Rightarrow> ''anonymous'')"

definition populate_identity :: "(string \<Rightarrow> string) \<Rightarrow> datetime \<Rightarrow> http_request \<Rightarrow> http_request" where
  "populate_identity sha now rq = (case rq_identity rq of
     Some _ \<Rightarrow> rq
   | None \<Rightarrow> rq\<lparr>rq_identity := Some \<lparr>vi_identity = from_dev_header sha now (header_client_id rq), vi_source = DevelopmentHeader\<rparr>\<rparr>)"

definition extract_client_identity :: "(string \<Rightarrow> string) \<Rightarrow> datetime \<Rightarrow> http_request \<Rightarrow> ClientIdentity" where
  "extract_client_identity sha now rq = from_dev_header sha now (header_client_id rq)"

definition inject_request_id :: "(uuid \<Rightarrow> string) \<Rightarrow> uuid \<Rightarrow> (http_request \<Rightarrow> http_response) \<Rightarrow> http_request \<Rightarrow> http_response" where
  "inject_request_id show_uuid fresh inner rq = insert_header ''x-cordon-request-id'' (show_uuid fresh) (inner (rq\<lparr>rq_id := Some fresh\<rparr>))"

definition inject_peer_addr :: "http_request \<Rightarrow> http_request" where
  "inject_peer_addr rq = rq\<lparr>rq_peer := Some (rq_connect_info rq)\<rparr>"

definition hardening_headers :: headers where
  "hardening_headers = [(''x-content-type-options'', ''nosniff''), (''x-frame-options'', ''DENY''), (''referrer-policy'', ''no-referrer''),
     (''cache-control'', ''no-store, no-cache, must-revalidate, private''),
     (''content-security-policy'', ''default-src '' @ quoted ''none'' @ ''; frame-ancestors '' @ quoted ''none'' @ ''; base-uri '' @ quoted ''none''),
     (''cross-origin-resource-policy'', ''same-origin''),
     (''permissions-policy'', ''geolocation=(), camera=(), microphone=(), interest-cohort=()'')]"

definition insert_all :: "headers \<Rightarrow> http_response \<Rightarrow> http_response" where
  "insert_all hs r = foldl (\<lambda>r (k, v). insert_header k v r) r hs"

definition security_headers :: "string \<Rightarrow> (http_request \<Rightarrow> http_response) \<Rightarrow> http_request \<Rightarrow> http_response" where
  "security_headers version inner rq =
     (let is_tls = rq_https rq \<or> header_str ''x-forwarded-proto'' rq = Some ''https'';
          r = insert_all hardening_headers (inner rq);
          r1 = (if is_tls then insert_header ''strict-transport-security'' ''max-age=31536000; includeSubDomains'' r else r)
      in insert_header ''x-cordon-version'' version r1)"

text \<open>An IPv4 address mapped into IPv6 counts as the address it maps.\<close>

fun peer_is_loopback :: "ip_addr \<Rightarrow> bool" where
  "peer_is_loopback (V4 os) = ip_is_loopback (V4 os)"
| "peer_is_loopback (V6 gs) = (ip_is_loopback (V6 gs) \<or> (length gs = 8 \<and> take 6 gs = [0, 0, 0, 0, 0, 65535] \<and> gs ! 6 div 256 = 127))"

definition require_loopback :: "headers \<Rightarrow> (http_request \<Rightarrow> http_response) \<Rightarrow> http_request \<Rightarrow> http_response" where
  "require_loopback json_headers inner rq =
     (case rq_peer rq of
        Some (Some ip) \<Rightarrow> if peer_is_loopback ip then inner rq else \<lparr>rs_status = 403, rs_headers = json_headers\<rparr>
      | _ \<Rightarrow> \<lparr>rs_status = 403, rs_headers = json_headers\<rparr>)"

subsection \<open>What the layers guarantee\<close>

lemma sanitize_client_id_safe:
  "list_all client_id_char (sanitize_client_id v)" "sanitize_client_id v \<noteq> []" "length (sanitize_client_id v) \<le> 128"
proof -
  have "list_all client_id_char ''anonymous''" by code_simp
  then show "list_all client_id_char (sanitize_client_id v)"
    by (auto simp: sanitize_client_id_def Let_def list_all_iff dest: in_set_takeD)
qed (simp_all add: sanitize_client_id_def Let_def)

lemma sanitize_idempotent: "sanitize_client_id (sanitize_client_id v) = sanitize_client_id v"
proof -
  have "filter client_id_char (sanitize_client_id v) = sanitize_client_id v"
    using sanitize_client_id_safe(1)[of v] by (simp add: filter_id_conv list_all_iff)
  then show ?thesis
    using sanitize_client_id_safe(2,3)[of v] by (simp add: sanitize_client_id_def[of "sanitize_client_id v"] Let_def)
qed

text \<open>The metrics handler runs only for a peer the listener saw on loopback.\<close>

lemma metrics_only_from_loopback:
  assumes "rs_status (require_loopback hs inner (inject_peer_addr rq)) \<noteq> 403"
  shows "(\<exists>ip. rq_connect_info rq = Some ip \<and> peer_is_loopback ip) \<and> require_loopback hs inner (inject_peer_addr rq) = inner (inject_peer_addr rq)"
  using assms by (cases "rq_connect_info rq") (auto simp: require_loopback_def inject_peer_addr_def split: if_splits)

text \<open>
  Detail of the node reaches a caller in two answers the rest of the classification would
  generalise: the reason an attestation is invalid and the reason a download failed.
\<close>

definition discloses :: "CordonError \<Rightarrow> bool" where
  "discloses e \<longleftrightarrow> (case e of AttestationInvalid _ \<Rightarrow> True | ModelDownloadFailed _ \<Rightarrow> True | Overloaded _ \<Rightarrow> True | Timeout _ \<Rightarrow> True | _ \<Rightarrow> False)"

text \<open>Every other fault of the node is answered by one of a fixed list of replies, whatever its detail.\<close>

definition server_faults :: "(nat \<times> string \<times> string) list" where
  "server_faults = map classify [ModelIntegrityViolation [], Quarantined, NodeLocked, NodeZeroized, RuntimeUnavailable [],
     InferenceFailed [], AuditWriteFailed [], AuditLogUnavailable [], Internal []]"

lemma server_faults_are_generalised:
  assumes "fst (classify e) \<ge> 500" "\<not> discloses e"
  shows "classify e \<in> set server_faults"
  using assms by (cases e) (simp_all add: discloses_def server_faults_def)

end
