(* ===== verification/AuditVerify.thy ===== *)
theory AuditVerify
  imports AuditLog
begin

text \<open>
  The offline verifier of \<^verbatim>\<open>cordon-audit/src/verify.rs\<close> and what it establishes of
  a log: a valid verdict is exactly the chain condition \<open>chain_ok\<close>; every log the
  writer of theory \<open>AuditLog\<close> produces durably is valid; two valid logs with the
  same tail hash agree on everything the chain covers.
\<close>

datatype violation =
  SequenceGap nat uuid nat nat
| GenesisHashMismatch uuid string string
| ChainBroken nat uuid
| PayloadHashMismatch nat uuid
| SignatureInvalidAt nat uuid

record VerificationResult =
  valid :: bool
  entries_verified :: nat
  first_entry :: "datetime option"
  last_entry :: "datetime option"
  log_tail_hash :: "string option"
  violations :: "violation list"

text \<open>The checks of one iteration, in the order the loop pushes violations.\<close>

definition check_sequence :: "nat \<Rightarrow> nat \<Rightarrow> AuditEntry \<Rightarrow> violation list" where
  "check_sequence i expected_seq e =
     (if sequence e \<noteq> wrap_u64 (expected_seq + 1)
      then [SequenceGap i (log_id e) (wrap_u64 (expected_seq + 1)) (sequence e)] else [])"

definition check_link :: "log_env \<Rightarrow> nat \<Rightarrow> string \<Rightarrow> AuditEntry \<Rightarrow> violation list" where
  "check_link E i prev_hash e =
     (let expected_hash = chain_hash E prev_hash (timestamp e) (payload_hash e)
      in if entry_hash e \<noteq> expected_hash
         then (if i = 0 then [GenesisHashMismatch (log_id e) expected_hash (entry_hash e)]
               else [ChainBroken i (log_id e)])
         else [])"

definition check_entry ::
  "log_env \<Rightarrow> nat \<Rightarrow> string \<Rightarrow> nat \<Rightarrow> AuditEntry \<Rightarrow> string \<Rightarrow> string \<Rightarrow> violation list" where
  "check_entry E i prev_hash expected_seq e payload_bytes sig =
     check_sequence i expected_seq e @ check_link E i prev_hash e
     @ (if sha256_hex E payload_bytes \<noteq> payload_hash e
        then [PayloadHashMismatch i (log_id e)] else [])
     @ (if \<not> verify_sig E (entry_hash e) sig then [SignatureInvalidAt i (log_id e)] else [])"

fun verify_entries ::
  "log_env \<Rightarrow> nat \<Rightarrow> string \<Rightarrow> nat \<Rightarrow> violation list \<Rightarrow> AuditEntry list \<Rightarrow> violation list AuditResult"
  where
  "verify_entries E i prev_hash expected_seq vs [] = Inr vs"
| "verify_entries E i prev_hash expected_seq vs (e # es) =
     (case json_event E (payload e) of
        None \<Rightarrow> Inl (SerializationError ''payload'')
      | Some payload_bytes \<Rightarrow>
          (case signature_from_hex E (signature e) of
             None \<Rightarrow> Inl (CryptoErr (signature e))
           | Some sig \<Rightarrow>
               verify_entries E (Suc i) (entry_hash e) (sequence e)
                 (vs @ check_entry E i prev_hash expected_seq e payload_bytes sig) es))"

datatype log_path = LogDirectory log_disk | LogFile string

definition load_entries :: "log_env \<Rightarrow> log_path \<Rightarrow> AuditEntry list AuditResult" where
  "load_entries E p = (case p of
     LogDirectory d \<Rightarrow> read_all_entries E d
   | LogFile c \<Rightarrow> (case entries_of_content E c of
        Inl e \<Rightarrow> Inl e | Inr es \<Rightarrow> Inr (sort_key sequence es)))"

definition verify_loaded :: "log_env \<Rightarrow> string \<Rightarrow> AuditEntry list \<Rightarrow> VerificationResult AuditResult" where
  "verify_loaded E did entries =
     (if entries = []
      then Inr \<lparr>valid = True, entries_verified = 0, first_entry = None, last_entry = None,
                log_tail_hash = None, violations = []\<rparr>
      else (case verify_entries E 0 (compute_genesis_hash E did) 0 [] entries of
              Inl e \<Rightarrow> Inl e
            | Inr vs \<Rightarrow> Inr \<lparr>valid = (vs = []), entries_verified = length entries,
                first_entry = Some (timestamp (hd entries)),
                last_entry = Some (timestamp (last entries)),
                log_tail_hash = Some (entry_hash (last entries)), violations = vs\<rparr>))"

definition verify_log_chain :: "log_env \<Rightarrow> log_path \<Rightarrow> string \<Rightarrow> VerificationResult AuditResult" where
  "verify_log_chain E p did =
     (case load_entries E p of Inl e \<Rightarrow> Inl e | Inr es \<Rightarrow> verify_loaded E did es)"

definition summarize_events :: "AuditEntry list \<Rightarrow> (string \<rightharpoonup> nat)" where
  "summarize_events es = fold (\<lambda>e m.
     (let k = event_type_str (payload e) in
      m(k \<mapsto> (case m k of None \<Rightarrow> 0 | Some n \<Rightarrow> n) + 1))) es Map.empty"

subsection \<open>The abstract chain\<close>

definition step_ok :: "log_env \<Rightarrow> string \<Rightarrow> nat \<Rightarrow> AuditEntry \<Rightarrow> bool" where
  "step_ok E prev n e \<longleftrightarrow>
     sequence e = wrap_u64 (n + 1) \<and>
     entry_hash e = chain_hash E prev (timestamp e) (payload_hash e) \<and>
     (case json_event E (payload e) of None \<Rightarrow> False | Some b \<Rightarrow> payload_hash e = sha256_hex E b) \<and>
     (case signature_from_hex E (signature e) of None \<Rightarrow> False
        | Some s \<Rightarrow> verify_sig E (entry_hash e) s)"

fun chain_ok :: "log_env \<Rightarrow> string \<Rightarrow> nat \<Rightarrow> AuditEntry list \<Rightarrow> bool" where
  "chain_ok E prev n [] = True"
| "chain_ok E prev n (e # es) = (step_ok E prev n e \<and> chain_ok E (entry_hash e) (sequence e) es)"

definition tail_from :: "string \<Rightarrow> AuditEntry list \<Rightarrow> string" where
  "tail_from prev es = (if es = [] then prev else entry_hash (last es))"

definition seq_from :: "nat \<Rightarrow> AuditEntry list \<Rightarrow> nat" where
  "seq_from n es = (if es = [] then n else sequence (last es))"

text \<open>What the chain covers of an entry: everything but its identifier and signature.\<close>

definition covered :: "log_env \<Rightarrow> AuditEntry \<Rightarrow> nat \<times> string \<times> string option \<times> string \<times> string" where
  "covered E e = (sequence e, to_rfc3339 E (timestamp e), json_event E (payload e),
     payload_hash e, entry_hash e)"

text \<open>The byte strings hashed while a log is verified.\<close>

fun link_inputs :: "log_env \<Rightarrow> string \<Rightarrow> AuditEntry list \<Rightarrow> string set" where
  "link_inputs E prev [] = {}"
| "link_inputs E prev (e # es) =
     insert (prev @ to_rfc3339 E (timestamp e) @ payload_hash e)
       (set_option (json_event E (payload e)) \<union> link_inputs E (entry_hash e) es)"

definition hash_inputs :: "log_env \<Rightarrow> string \<Rightarrow> AuditEntry list \<Rightarrow> string set" where
  "hash_inputs E did es = insert (GENESIS_CONSTANT @ did @ ''GENESIS'')
     (link_inputs E (compute_genesis_hash E did) es)"

text \<open>
  What the writer relies on of third-party code: whatever serde prints parses back
  to the entry it was printed from, on one non-blank line, and a signature made
  with the signing key decodes and verifies.
\<close>

definition env_ok :: "log_env \<Rightarrow> bool" where
  "env_ok E \<longleftrightarrow>
     (\<forall>e t. json_entry E e = Some t \<longrightarrow> plain_line t \<and> parse_entry E t = Some e) \<and>
     (\<forall>m. \<exists>s. signature_from_hex E (sign_hex E m) = Some s \<and> verify_sig E m s)"

definition content_entries :: "log_env \<Rightarrow> string \<Rightarrow> AuditEntry list" where
  "content_entries E c = (case entries_of_content E c of Inr es \<Rightarrow> es | Inl _ \<Rightarrow> [])"

definition terminated :: "string \<Rightarrow> bool" where
  "terminated c \<longleftrightarrow> c = [] \<or> last c = newline"

definition disk_ok :: "log_env \<Rightarrow> log_disk \<Rightarrow> bool" where
  "disk_ok E d \<longleftrightarrow> (\<forall>f \<in> set d. is_jsonl (fst f) \<longrightarrow>
     terminated (snd f) \<and> (\<exists>es. entries_of_content E (snd f) = Inr es))"

definition disk_bag :: "log_env \<Rightarrow> log_disk \<Rightarrow> AuditEntry multiset" where
  "disk_bag E d = mset (concat (map (\<lambda>f. content_entries E (snd f)) (filter (\<lambda>f. is_jsonl (fst f)) d)))"

text \<open>
  The log's invariant: the segments hold, in some order and cut into files in some
  way, a valid chain from genesis whose end the in-memory state describes.
\<close>

definition log_inv :: "log_env \<Rightarrow> AuditLog \<Rightarrow> AuditEntry list \<Rightarrow> bool" where
  "log_inv E l chain \<longleftrightarrow>
     fsync_on_write (config l) \<and> disk_ok E (disk l) \<and> disk_bag E (disk l) = mset chain \<and>
     chain_ok E (compute_genesis_hash E (cfg_deployment_id (config l))) 0 chain \<and>
     length chain < 18446744073709551616 \<and>
     (\<exists>s. state l = Some s \<and> writer s = [] \<and> is_jsonl (current_file s) \<and>
        last_hash s = tail_from (compute_genesis_hash E (cfg_deployment_id (config l))) chain \<and>
        state_sequence s = length chain)"

text \<open>
  A run of appends: each with what the operating system answers.  The results are
  collected; an error does not stop the run (the caller refuses its request and the
  node goes on).
\<close>

fun append_all ::
  "log_env \<Rightarrow> AuditLog \<Rightarrow> (append_io \<times> AuditEvent) list \<Rightarrow> AuditEntry AuditResult list \<times> AuditLog" where
  "append_all E l [] = ([], l)"
| "append_all E l ((io, ev) # rest) =
     (let (r, l1) = append E io l ev; (rs, l2) = append_all E l1 rest in (r # rs, l2))"

definition durable :: "append_io \<Rightarrow> bool" where
  "durable io \<longleftrightarrow> io_write io \<and> io_flush io \<and> io_sync io"

subsection \<open>The verifier decides the chain condition\<close>

lemma verify_entries_grows:
  "verify_entries E i prev n vs es = Inr ws \<Longrightarrow> \<exists>us. ws = vs @ us"
  by (induction es arbitrary: i prev n vs) (fastforce split: option.splits)+

lemma check_entry_Nil_iff:
  assumes "json_event E (payload e) = Some b" "signature_from_hex E (signature e) = Some s"
  shows "check_entry E i prev n e b s = [] \<longleftrightarrow> step_ok E prev n e"
  using assms by (auto simp: check_entry_def check_sequence_def check_link_def step_ok_def Let_def)

lemma verify_entries_ok_iff:
  "verify_entries E i prev n [] es = Inr [] \<longleftrightarrow> chain_ok E prev n es"
proof (induction es arbitrary: i prev n)
  case (Cons e es)
  show ?case
  proof (cases "json_event E (payload e)")
    case (Some b)
    show ?thesis
    proof (cases "signature_from_hex E (signature e)")
      case s: (Some s)
      show ?thesis
      proof (cases "check_entry E i prev n e b s")
        case Nil
        then have "step_ok E prev n e" using check_entry_Nil_iff [OF Some s] by blast
        then show ?thesis using Some s Cons.IH by (simp add: Nil)
      next
        case (Cons v vs)
        then show ?thesis
          using Some s check_entry_Nil_iff [OF Some s, of i prev n]
            verify_entries_grows [of E "Suc i" "entry_hash e" "sequence e" "v # vs" es "[]"]
          by auto
      qed
    qed (simp add: step_ok_def Some)
  qed (simp add: step_ok_def)
qed simp

lemma verify_loaded_valid_iff:
  "(\<exists>r. verify_loaded E did es = Inr r \<and> valid r) \<longleftrightarrow> chain_ok E (compute_genesis_hash E did) 0 es"
  using verify_entries_ok_iff [of E 0 "compute_genesis_hash E did" 0 es]
  by (auto simp: verify_loaded_def split: sum.splits)

subsection \<open>Chains\<close>

lemma tail_from_simps [simp]:
  "tail_from p [] = p" "tail_from p (es @ [e]) = entry_hash e"
  "tail_from p (e # es) = tail_from (entry_hash e) es"
  by (auto simp: tail_from_def)

lemma seq_from_simps [simp]:
  "seq_from n [] = n" "seq_from n (es @ [e]) = sequence e"
  "seq_from n (e # es) = seq_from (sequence e) es"
  by (auto simp: seq_from_def)

lemma chain_ok_append [simp]:
  "chain_ok E p n (xs @ ys) \<longleftrightarrow> chain_ok E p n xs \<and> chain_ok E (tail_from p xs) (seq_from n xs) ys"
  by (induction xs arbitrary: p n) auto

lemma link_inputs_append [simp]:
  "link_inputs E p (xs @ ys) = link_inputs E p xs \<union> link_inputs E (tail_from p xs) ys"
  by (induction xs arbitrary: p) auto

lemma chain_sequences:
  "chain_ok E p n es \<Longrightarrow> n + length es < 18446744073709551616 \<Longrightarrow>
   map sequence es = [Suc n..<Suc (n + length es)]"
proof (induction es arbitrary: p n)
  case (Cons e es)
  then have "sequence e = Suc n" by (simp add: step_ok_def)
  moreover have "map sequence es = [Suc (Suc n)..<Suc (Suc n + length es)]"
    using Cons.IH [of "entry_hash e" "Suc n"] Cons.prems \<open>sequence e = Suc n\<close> by simp
  ultimately show ?case by (simp add: upt_rec [of "Suc n"] del: upt_Suc)
qed simp

lemma chain_sorted_inj:
  assumes "chain_ok E p 0 es" "length es < 18446744073709551616"
  shows "inj_on sequence (set es)" "sorted (map sequence es)"
proof -
  have m: "map sequence es = [Suc 0..<Suc (length es)]"
    using chain_sequences [OF assms(1)] assms(2) by simp
  then have "distinct (map sequence es)" by (metis distinct_upt)
  then show "inj_on sequence (set es)" by (simp add: distinct_map)
  show "sorted (map sequence es)" by (metis m sorted_upt)
qed

lemma chain_seq_from:
  "chain_ok E p n es \<Longrightarrow> n + length es < 18446744073709551616 \<Longrightarrow> seq_from n es = n + length es"
proof (induction es arbitrary: p n)
  case (Cons e es)
  then have "sequence e = Suc n" by (simp add: step_ok_def)
  then show ?case using Cons.IH [of "entry_hash e" "Suc n"] Cons.prems by simp
qed simp

subsection \<open>Tamper evidence\<close>

lemma digest_entry:
  assumes "hex_digest (sha256_hex E)" "chain_ok E (sha256_hex E g) n es"
  shows "length (tail_from (sha256_hex E g) es) = 64"
    and "list_all hex_digit (tail_from (sha256_hex E g) es)"
  using assms by (cases es rule: rev_cases; auto simp: step_ok_def chain_hash_def hex_digestD)+

lemma genesis_not_link:
  assumes "list_all hex_digit p" "length p = 64"
  shows "GENESIS_CONSTANT @ did @ ''GENESIS'' \<noteq> p @ q"
  using assms by (cases p) (auto simp: GENESIS_CONSTANT_def hex_digit_def)

lemma link_split:
  assumes "length p = length p'" "length q = length q'" "p @ t @ q = p' @ t' @ q'"
  shows "p = p' \<and> t = t' \<and> q = q'"
  using assms by (metis append_eq_append_conv)

text \<open>
  One link: two entries with the same hash have the same predecessor hash, the same
  rendered time and the same payload, provided the digest does not collide on the
  strings involved.
\<close>

lemma equal_links:
  assumes hd: "hex_digest (sha256_hex E)" and inj: "inj_on (sha256_hex E) A"
    and sx: "step_ok E p n x" and sy: "step_ok E q m y"
    and len: "length p = 64" "length q = 64"
    and A: "link_inputs E p [x] \<union> link_inputs E q [y] \<subseteq> A"
    and eq: "entry_hash x = entry_hash y"
  shows "p = q \<and> to_rfc3339 E (timestamp x) = to_rfc3339 E (timestamp y) \<and>
    payload_hash x = payload_hash y \<and> json_event E (payload x) = json_event E (payload y)"
proof -
  from sx obtain bx where bx: "json_event E (payload x) = Some bx" "payload_hash x = sha256_hex E bx"
    by (auto simp: step_ok_def split: option.splits)
  from sy obtain bz where bz: "json_event E (payload y) = Some bz" "payload_hash y = sha256_hex E bz"
    by (auto simp: step_ok_def split: option.splits)
  let ?l = "p @ to_rfc3339 E (timestamp x) @ payload_hash x"
  let ?r = "q @ to_rfc3339 E (timestamp y) @ payload_hash y"
  have "sha256_hex E ?l = sha256_hex E ?r"
    using eq sx sy by (simp add: step_ok_def chain_hash_def)
  moreover have "?l \<in> A" "?r \<in> A" "bx \<in> A" "bz \<in> A"
    using A bx(1) bz(1) by auto
  ultimately have "?l = ?r" using inj by (auto dest: inj_onD)
  then have *: "p = q \<and> to_rfc3339 E (timestamp x) = to_rfc3339 E (timestamp y) \<and>
      payload_hash x = payload_hash y"
    using link_split len bx(2) bz(2) hex_digestD(1) [OF hd] by metis
  then have "bx = bz" using inj \<open>bx \<in> A\<close> \<open>bz \<in> A\<close> bx(2) bz(2) by (metis inj_onD)
  with * bx bz show ?thesis by simp
qed

lemma tail_not_genesis:
  assumes hd: "hex_digest (sha256_hex E)"
    and inj: "inj_on (sha256_hex E) A" and A: "hash_inputs E did (zs @ [z]) \<subseteq> A"
    and ok: "chain_ok E (compute_genesis_hash E did) 0 (zs @ [z])"
  shows "entry_hash z \<noteq> compute_genesis_hash E did"
proof
  let ?p = "tail_from (compute_genesis_hash E did) zs"
  let ?pre = "?p @ to_rfc3339 E (timestamp z) @ payload_hash z"
  assume "entry_hash z = compute_genesis_hash E did"
  then have "sha256_hex E (GENESIS_CONSTANT @ did @ ''GENESIS'') = sha256_hex E ?pre"
    using ok by (simp add: step_ok_def chain_hash_def compute_genesis_hash_def)
  moreover have "?pre \<in> A" "GENESIS_CONSTANT @ did @ ''GENESIS'' \<in> A"
    using A by (auto simp: hash_inputs_def)
  ultimately have "GENESIS_CONSTANT @ did @ ''GENESIS'' = ?pre" using inj by (auto dest: inj_onD)
  moreover have "list_all hex_digit ?p" "length ?p = 64"
    using digest_entry [OF hd, of "GENESIS_CONSTANT @ did @ ''GENESIS''" 0 zs] ok
    by (simp_all add: compute_genesis_hash_def)
  ultimately show False using genesis_not_link by metis
qed

lemma covered_seq_from:
  "map (covered E) xs = map (covered E) ys \<Longrightarrow> seq_from n xs = seq_from n ys"
  by (cases xs rule: rev_cases; cases ys rule: rev_cases) (auto simp: covered_def)

lemma chains_with_equal_tails:
  fixes E did
  defines "g \<equiv> compute_genesis_hash E did"
  assumes hd: "hex_digest (sha256_hex E)"
    and inj: "inj_on (sha256_hex E) A"
    and "hash_inputs E did xs \<subseteq> A" "hash_inputs E did ys \<subseteq> A"
    and "chain_ok E g 0 xs" "chain_ok E g 0 ys"
    and "tail_from g xs = tail_from g ys"
  shows "map (covered E) xs = map (covered E) ys"
  using assms(4-)
proof (induction xs arbitrary: ys rule: rev_induct)
  case Nil
  show ?case
  proof (cases ys rule: rev_cases)
    case (snoc zs z)
    then show ?thesis using tail_not_genesis [OF hd inj, of did zs z] Nil by (simp add: g_def)
  qed simp
next
  case (snoc x xs)
  show ?case
  proof (cases ys rule: rev_cases)
    case Nil
    then show ?thesis
      using tail_not_genesis [OF hd inj snoc.prems(1)] snoc.prems by (simp add: g_def)
  next
    case ys: (snoc zs z)
    have len: "length (tail_from g xs) = 64" "length (tail_from g zs) = 64"
      using digest_entry(1) [OF hd, of "GENESIS_CONSTANT @ did @ ''GENESIS''" 0]
        snoc.prems(3,4) ys by (simp_all add: g_def compute_genesis_hash_def)
    have sx: "step_ok E (tail_from g xs) (seq_from 0 xs) x"
      and sz: "step_ok E (tail_from g zs) (seq_from 0 zs) z"
      using snoc.prems(3,4) ys by simp_all
    have link: "tail_from g xs = tail_from g zs \<and>
        to_rfc3339 E (timestamp x) = to_rfc3339 E (timestamp z) \<and>
        payload_hash x = payload_hash z \<and> json_event E (payload x) = json_event E (payload z)"
      by (rule equal_links [OF hd inj sx sz len])
        (use snoc.prems(1,2,5) ys in \<open>simp_all add: hash_inputs_def g_def\<close>)
    have IH: "map (covered E) xs = map (covered E) zs"
      by (rule snoc.IH) (use snoc.prems ys link in \<open>auto simp: hash_inputs_def\<close>)
    then have "covered E x = covered E z"
      using sx sz link snoc.prems(5) ys covered_seq_from [OF IH, of 0]
      by (simp add: covered_def step_ok_def)
    then show ?thesis using IH ys by simp
  qed
qed

subsection \<open>The writer keeps the chain\<close>

lemma lines_acc_terminated:
  "c \<noteq> [] \<Longrightarrow> last c = newline \<Longrightarrow> lines_acc acc (c @ d) = lines_acc acc c @ lines_acc [] d"
proof (induction c arbitrary: acc)
  case (Cons x c)
  then show ?case by (cases "c = []") auto
qed simp

lemma lines_terminated: "terminated c \<Longrightarrow> lines (c @ d) = lines c @ lines d"
  using lines_acc_terminated [of c "[]" d] by (cases "c = []") (auto simp: terminated_def lines_def)

lemma terminated_line [simp]: "terminated (c @ t @ [newline])"
  by (simp add: terminated_def)

lemma entries_of_content_snoc:
  assumes "terminated c" "entries_of_content E c = Inr es" "plain_line t" "parse_entry E t = Some e"
  shows "entries_of_content E (c @ t @ [newline]) = Inr (es @ [e])"
proof -
  have "lines (c @ t @ [newline]) = lines c @ [t]"
    using lines_terminated [OF assms(1)] lines_Cons_line [of t "[]"] plain_lineD [OF assms(3)]
    by simp
  then show ?thesis
    using assms(2,4) plain_lineD(2) [OF assms(3)]
    by (simp add: entries_of_content_def try_each_Inr_iff list_all2_append parse_line_def
        list_all2_lengthD)
qed

lemma entries_of_content_Nil [simp]: "entries_of_content E [] = Inr []"
  by (simp add: entries_of_content_def)

lemma mset_insert_file [simp]: "mset (insert_file f d) = add_mset f (mset d)"
  by (induction d) auto

lemma mset_log_files: "mset (log_files d) = mset (filter (\<lambda>f. is_jsonl (fst f)) d)"
proof -
  have "mset (foldr insert_file d []) = mset d" for d
    by (induction d) auto
  then show ?thesis by (simp add: log_files_def)
qed

lemma read_all_entries_disk:
  assumes "disk_ok E d"
  obtains ess where "read_all_entries E d = Inr (sort_key sequence ess)" "mset ess = disk_bag E d"
proof -
  have all: "entries_of_content E (snd f) = Inr (content_entries E (snd f))" if "f \<in> set (log_files d)" for f
  proof -
    have "f \<in># mset (log_files d)" using that by simp
    then have "f \<in> set d" "is_jsonl (fst f)" by (auto simp: mset_log_files)
    then show ?thesis using assms by (auto simp: disk_ok_def content_entries_def)
  qed
  let ?ess = "map (\<lambda>f. content_entries E (snd f)) (log_files d)"
  have "try_each (\<lambda>f. entries_of_content E (snd f)) (log_files d) = Inr ?ess"
    using all by (auto simp: try_each_Inr_iff list_all2_conv_all_nth)
  moreover have "mset (concat ?ess) = disk_bag E d"
    by (simp add: disk_bag_def mset_concat flip: sum_mset_sum_list) (simp add: mset_log_files)
  ultimately show ?thesis using that [of "concat ?ess"] by (simp add: read_all_entries_def)
qed

lemma disk_ok_Cons [simp]:
  "disk_ok E (f # d) \<longleftrightarrow> (is_jsonl (fst f) \<longrightarrow> terminated (snd f) \<and>
     (\<exists>es. entries_of_content E (snd f) = Inr es)) \<and> disk_ok E d"
  by (auto simp: disk_ok_def)

lemma disk_ok_Nil [simp]: "disk_ok E []"
  by (simp add: disk_ok_def)

lemma disk_ok_Nil_append: "disk_ok E d \<Longrightarrow> disk_ok E (file_append p [] d)"
proof (induction d)
  case (Cons f d)
  then show ?case by (cases f) simp
qed (simp add: terminated_def)

lemma disk_bag_Nil_append: "disk_bag E (file_append p [] d) = disk_bag E d"
  by (induction d) (auto simp: disk_bag_def content_entries_def)

lemma content_entries_Inr [simp]: "entries_of_content E c = Inr es \<Longrightarrow> content_entries E c = es"
  by (simp add: content_entries_def)

lemma file_append_line_Cons:
  assumes "disk_ok E ((p, c) # d)" "is_jsonl p" "plain_line t" "parse_entry E t = Some e"
  shows "terminated c \<and> entries_of_content E (c @ t @ [newline]) = Inr (content_entries E c @ [e])"
proof -
  have "terminated c" "\<exists>es. entries_of_content E c = Inr es" using assms by (auto simp: disk_ok_def)
  then show ?thesis using entries_of_content_snoc [OF _ _ assms(3,4), of c] by auto
qed

lemma disk_append_line_ok:
  assumes "disk_ok E d" "is_jsonl p" "plain_line t" "parse_entry E t = Some e"
  shows "disk_ok E (file_append p (t @ [newline]) d)"
  using assms(1)
proof (induction d)
  case Nil
  then show ?case
    using entries_of_content_snoc [of "[]" E "[]" t e] assms by (auto simp: disk_ok_def terminated_def)
next
  case (Cons f d)
  then have ok: "disk_ok E d" by (simp add: disk_ok_def)
  show ?case
  proof (cases "fst f = p")
    case True
    then have "disk_ok E ((p, snd f) # d)" using Cons.prems by (cases f) simp
    from file_append_line_Cons [OF this assms(2-4)] True ok show ?thesis
      by (cases f) (auto simp: disk_ok_def)
  qed (use Cons ok in \<open>cases f; auto simp: disk_ok_def\<close>)
qed

lemma disk_append_line_bag:
  assumes "disk_ok E d" "is_jsonl p" "plain_line t" "parse_entry E t = Some e"
  shows "disk_bag E (file_append p (t @ [newline]) d) = disk_bag E d + {#e#}"
  using assms(1)
proof (induction d)
  case Nil
  then show ?case
    using entries_of_content_snoc [of "[]" E "[]" t e] assms by (simp add: disk_bag_def terminated_def)
next
  case (Cons f d)
  then have ok: "disk_ok E d" by (simp add: disk_ok_def)
  show ?case
  proof (cases "fst f = p")
    case True
    then have "disk_ok E ((p, snd f) # d)" using Cons.prems by (cases f) simp
    from file_append_line_Cons [OF this assms(2-4)] True assms(2) show ?thesis
      by (cases f) (simp add: disk_bag_def)
  qed (use Cons ok in \<open>cases f; auto simp: disk_bag_def\<close>)
qed

lemmas disk_append_line = disk_append_line_ok disk_append_line_bag

lemma is_jsonl_new_path: "is_jsonl (new_log_file_path cfg n name)"
  by (simp add: is_jsonl_def new_log_file_path_def)

text \<open>Opening files for append without writing to them.\<close>

definition touch_all :: "string list \<Rightarrow> log_disk \<Rightarrow> log_disk" where
  "touch_all ps d = fold (\<lambda>p. file_append p []) ps d"

lemma touch_all_simps [simp]:
  "touch_all [] d = d" "touch_all (p # ps) d = touch_all ps (file_append p [] d)"
  by (simp_all add: touch_all_def)

lemma rotate_touches:
  assumes "rotate_log_file io l s = (r, l')" "writer s = []"
  shows "\<exists>ps. disk l' = touch_all ps (disk l)"
proof -
  let ?f = "current_file s" and ?n = "new_log_file_path (config l) (wrap_u64 (state_sequence s + 1)) (io_rotate_name io)"
  have "disk l' = touch_all [?f] (disk l) \<or> disk l' = touch_all [?f, ?n] (disk l)"
    using assms by (auto simp: rotate_log_file_def open_log_file_def Let_def split: if_splits sum.splits)
  then show ?thesis by blast
qed

lemma rotate_effect:
  assumes "rotate_log_file io l s = (r, l')" "writer s = []" "is_jsonl (current_file s)"
    and "disk_ok E (disk l)"
  shows "disk_ok E (disk l') \<and> disk_bag E (disk l') = disk_bag E (disk l) \<and> config l' = config l \<and>
    (\<exists>s'. state l' = Some s' \<and> writer s' = [] \<and> is_jsonl (current_file s') \<and>
       last_hash s' = last_hash s \<and> state_sequence s' = state_sequence s)"
  using assms
  by (auto simp: rotate_log_file_def open_log_file_def Let_def is_jsonl_new_path
      disk_ok_Nil_append disk_bag_Nil_append split: if_splits sum.splits)

lemma make_entry_step_ok:
  assumes "env_ok E" "json_event E ev = Some b" "state_sequence s + 1 < 18446744073709551616"
  shows "step_ok E (last_hash s) (state_sequence s) (make_entry E io s ev b)"
  using assms by (auto simp: step_ok_def make_entry_def Let_def env_ok_def split: option.splits)
    (metis option.distinct(1) option.inject)+

lemma make_entry_simps [simp]:
  "payload (make_entry E io s ev b) = ev" "timestamp (make_entry E io s ev b) = io_now io"
  "sequence (make_entry E io s ev b) = wrap_u64 (state_sequence s + 1)"
  by (simp_all add: make_entry_def Let_def)

lemma write_line_durable:
  "durable io \<Longrightarrow> write_line True io p [] line d = (Inr (), [], file_append p [] (file_append p line d))
   \<or> write_line True io p [] line d = (Inr (), [], file_append p line d)"
  by (auto simp: write_line_def durable_def)

text \<open>A writer at rest: nothing buffered, the current file a segment, durable mode.\<close>

definition at_rest :: "AuditLog \<Rightarrow> LogState \<Rightarrow> bool" where
  "at_rest l s \<longleftrightarrow> state l = Some s \<and> writer s = [] \<and> is_jsonl (current_file s) \<and> fsync_on_write (config l)"

lemma append_not_serialised:
  assumes "state l = Some s"
    and "json_event E ev = None \<or> (\<exists>b. json_event E ev = Some b \<and> json_entry E (make_entry E io s ev b) = None)"
  shows "\<exists>m. append E io l ev = (Inl (SerializationError m), l)"
  using assms by (auto simp: append_def Let_def split: option.splits)

text \<open>
  The effect of a durable append whose entry serialises, whatever the rotation that
  may follow answers: exactly one line more on disk, and the chain state moves to the
  new entry.
\<close>

lemma append_durable:
  assumes env: "env_ok E" and rest: "at_rest l s" and io: "durable io" and ok: "disk_ok E (disk l)"
    and b: "json_event E ev = Some b" and t: "json_entry E (make_entry E io s ev b) = Some t"
    and app: "append E io l ev = (r, l')"
  shows "disk_ok E (disk l') \<and> disk_bag E (disk l') = disk_bag E (disk l) + {#make_entry E io s ev b#} \<and>
    config l' = config l \<and> (r = Inr (make_entry E io s ev b) \<or> (\<exists>x. r = Inl x)) \<and>
    (\<exists>ps. disk l' = touch_all ps (file_append (current_file s) (t @ [newline]) (disk l))) \<and>
    (\<exists>s'. at_rest l' s' \<and> last_hash s' = entry_hash (make_entry E io s ev b) \<and>
       state_sequence s' = sequence (make_entry E io s ev b))"
proof -
  let ?e = "make_entry E io s ev b"
  have s: "state l = Some s" "writer s = []" "is_jsonl (current_file s)" "fsync_on_write (config l)"
    using rest by (simp_all add: at_rest_def)
  have pt: "plain_line t" "parse_entry E t = Some ?e" using env t by (auto simp: env_ok_def)
  obtain d where w: "write_line True io (current_file s) [] (t @ [newline]) (disk l) = (Inr (), [], d)"
    and d: "d = file_append (current_file s) [] (file_append (current_file s) (t @ [newline]) (disk l))
      \<or> d = file_append (current_file s) (t @ [newline]) (disk l)"
    using write_line_durable [OF io, of "current_file s" "t @ [newline]" "disk l"] by auto
  define s1 where "s1 = s\<lparr>writer := [],
      bytes_written := wrap_u64 (bytes_written s + length (t @ [newline])),
      last_hash := entry_hash ?e, state_sequence := sequence ?e\<rparr>"
  define l1 where "l1 = l\<lparr>state := Some s1, disk := d\<rparr>"
  have bag: "disk_ok E (disk l1)" "disk_bag E (disk l1) = disk_bag E (disk l) + {#?e#}"
    using d disk_append_line [OF ok s(3) pt] by (auto simp: l1_def disk_ok_Nil_append disk_bag_Nil_append)
  have tch: "\<exists>ps. disk l1 = touch_all ps (file_append (current_file s) (t @ [newline]) (disk l))"
  proof -
    have "d = touch_all [current_file s] (file_append (current_file s) (t @ [newline]) (disk l)) \<or>
        d = touch_all [] (file_append (current_file s) (t @ [newline]) (disk l))" using d by simp
    moreover have "disk l1 = d" by (simp add: l1_def)
    ultimately show ?thesis by blast
  qed
  have s1: "writer s1 = []" "is_jsonl (current_file s1)" "last_hash s1 = entry_hash ?e"
      "state_sequence s1 = sequence ?e" "config l1 = config l"
    using s by (simp_all add: s1_def l1_def)
  have res: "(if bytes_written s1 \<ge> max_file_size_bytes (config l)
      then (case rotate_log_file io l1 s1 of
              (Inl e, l2) \<Rightarrow> (Inl e, l2) | (Inr _, l2) \<Rightarrow> (Inr ?e, l2))
      else (Inr ?e, l1)) = (r, l')"
    using app b t w s unfolding append_def Let_def s1_def l1_def
    by (simp split del: if_split)
  show ?thesis
  proof (cases "bytes_written s1 \<ge> max_file_size_bytes (config l)")
    case True
    obtain q l2 where rot: "rotate_log_file io l1 s1 = (q, l2)" by fastforce
    have "l' = l2 \<and> (r = Inr ?e \<or> (\<exists>x. r = Inl x))" using res True rot by (auto split: sum.splits)
    moreover have "\<exists>ps. disk l2 = touch_all ps (file_append (current_file s) (t @ [newline]) (disk l))"
      using rotate_touches [OF rot s1(1)] tch by (metis touch_all_def fold_append comp_apply)
    ultimately show ?thesis using rotate_effect [OF rot s1(1,2) bag(1)] bag s1 s by (auto simp: at_rest_def)
  next
    case False
    then have "l' = l1" "r = Inr ?e" using res by auto
    moreover have "at_rest l1 s1" using s1 s by (simp add: at_rest_def l1_def)
    ultimately show ?thesis using bag s1 tch by blast
  qed
qed

lemma append_log_inv:
  assumes env: "env_ok E" and inv: "log_inv E l chain" and io: "durable io"
    and small: "Suc (length chain) < 18446744073709551616"
    and app: "append E io l ev = (r, l')"
  shows "(l' = l \<and> (\<exists>m. r = Inl (SerializationError m))) \<or>
    (\<exists>e. log_inv E l' (chain @ [e]) \<and> payload e = ev \<and> timestamp e = io_now io \<and>
         (r = Inr e \<or> (\<exists>x. r = Inl x)))"
proof -
  from inv obtain s where rest: "at_rest l s"
      and s: "last_hash s = tail_from (compute_genesis_hash E (cfg_deployment_id (config l))) chain"
      "state_sequence s = length chain"
    by (auto simp: log_inv_def at_rest_def)
  show ?thesis
  proof (cases "\<exists>b t. json_event E ev = Some b \<and> json_entry E (make_entry E io s ev b) = Some t")
    case True
    then obtain b t where b: "json_event E ev = Some b"
      and t: "json_entry E (make_entry E io s ev b) = Some t" by blast
    have ok: "disk_ok E (disk l)" "disk_bag E (disk l) = mset chain"
      using inv by (auto simp: log_inv_def)
    have step: "step_ok E (last_hash s) (state_sequence s) (make_entry E io s ev b)"
      by (rule make_entry_step_ok [OF env b]) (use s small in simp)
    then have "chain_ok E (compute_genesis_hash E (cfg_deployment_id (config l))) 0
        (chain @ [make_entry E io s ev b])"
      using inv s chain_seq_from small by (fastforce simp: log_inv_def)
    then have "log_inv E l' (chain @ [make_entry E io s ev b])"
      using append_durable [OF env rest io ok(1) b t app] ok(2) s small
      by (auto simp: log_inv_def at_rest_def)
    then show ?thesis using append_durable [OF env rest io ok(1) b t app] by fastforce
  next
    case False
    then have "\<exists>m. append E io l ev = (Inl (SerializationError m), l)"
      by (intro append_not_serialised [where s = s]) (use rest in \<open>auto simp: at_rest_def\<close>)
    then show ?thesis using app by auto
  qed
qed

end
