(* ===== verification/AuditGuarantees.thy ===== *)
theory AuditGuarantees
  imports AuditVerify
begin

text \<open>
  What the audit log promises, as properties over the writer of \<open>AuditLog\<close> and the
  verifier of \<open>AuditVerify\<close>: durable runs verify, opening an empty directory starts
  a chain and reopening a log resumes it, a shared tail hash leaves no room for
  tampering, segment names sort in chain order and tailing a log returns its last
  entries.
\<close>

definition short_line :: "string \<Rightarrow> bool" where
  "short_line t \<longleftrightarrow> plain_line t \<and> Suc (length t) \<le> BLOCK"

text \<open>A segment as the writer leaves it: whole lines, each parsing, in sequence order.\<close>

definition segment_holds :: "log_env \<Rightarrow> string \<Rightarrow> AuditEntry list \<Rightarrow> bool" where
  "segment_holds E c es \<longleftrightarrow> (\<exists>ts. c = unlines ts \<and> list_all short_line ts \<and>
     map (parse_entry E) ts = map Some es \<and> sorted (map sequence es))"

definition segments_ok :: "log_env \<Rightarrow> log_disk \<Rightarrow> bool" where
  "segments_ok E d \<longleftrightarrow> (\<forall>f \<in> set d. is_jsonl (fst f) \<longrightarrow> (\<exists>es. segment_holds E (snd f) es))"

definition all_durable :: "(append_io \<times> AuditEvent) list \<Rightarrow> bool" where
  "all_durable evs \<longleftrightarrow> list_all (\<lambda>x. durable (fst x)) evs"

text \<open>Answers under which a line reaches the file but is not confirmed durable.\<close>

definition sync_fails :: "append_io \<Rightarrow> bool" where
  "sync_fails io \<longleftrightarrow> io_write io \<and> io_flush io \<and> \<not> io_sync io"

subsection \<open>A concrete environment for witnesses\<close>

text \<open>
  A finite stand-in for the third-party code: a digest that separates the strings a
  short chain hashes, a codec for the first entries of that chain, a signature
  scheme with one signature.
\<close>

definition sample_event :: AuditEvent where
  "sample_event = Lifecycle \<lparr>lc_event = Boot, lc_cordon_version = ''v'', lc_tee_type = ''initialized'',
     lc_node_id = ''N''\<rparr>"

definition sample_digit :: "char \<Rightarrow> char" where
  "sample_digit c = (if c = CHR ''C'' then CHR ''0'' else if c = CHR ''l'' then CHR ''9''
     else if c = CHR ''0'' then CHR ''1'' else if c = CHR ''1'' then CHR ''2''
     else if c = CHR ''2'' then CHR ''3'' else CHR ''4'')"

definition sample_hash :: "string \<Rightarrow> string" where
  "sample_hash s = (if s = [] then replicate 64 (CHR ''8'') else replicate 64 (sample_digit (hd s)))"

definition sample_char :: "nat \<Rightarrow> char" where
  "sample_char n = (if n = 0 then CHR ''0'' else if n = 1 then CHR ''1'' else if n = 2 then CHR ''2''
     else CHR ''3'')"

definition sample_entry :: "nat \<Rightarrow> AuditEntry" where
  "sample_entry n = \<lparr>log_id = n, timestamp = 0, payload_hash = replicate 64 (CHR ''9''),
     entry_hash = replicate 64 (sample_char n), signature = ''s'', payload = sample_event,
     sequence = n\<rparr>"

definition sample_env :: log_env where
  "sample_env = \<lparr>sha256_hex = sample_hash, to_rfc3339 = (\<lambda>_. ''T''),
     json_event = (\<lambda>ev. Some (event_type_str ev)),
     json_entry = (\<lambda>e. if e = sample_entry 1 then Some ''1''
        else if e = sample_entry 2 then Some ''2'' else if e = sample_entry 3 then Some ''3'' else None),
     parse_entry = (\<lambda>t. if t = ''1'' then Some (sample_entry 1) else if t = ''2'' then Some (sample_entry 2)
        else if t = ''3'' then Some (sample_entry 3) else None),
     sign_hex = (\<lambda>_. ''s''), signature_from_hex = (\<lambda>h. if h = ''s'' then Some ''s'' else None),
     verify_sig = (\<lambda>m s. s = ''s'')\<rparr>"

definition sample_config :: LogConfig where
  "sample_config = log_config_new ''d'' ''D'' ''N''"

definition sample_log :: "nat \<Rightarrow> AuditLog" where
  "sample_log n = \<lparr>config = sample_config, state = Some \<lparr>writer = [],
     last_hash = replicate 64 (sample_char n), state_sequence = n, current_file = ''a.jsonl'',
     bytes_written = 2 * n\<rparr>,
     disk = [(''a.jsonl'', unlines (map (\<lambda>k. [sample_char (Suc k)]) [0..<n]))]\<rparr>"

definition sample_io :: "uuid \<Rightarrow> append_io" where
  "sample_io u = \<lparr>io_now = 0, io_uuid = u, io_write = True, io_spill = False, io_torn = 0,
     io_flush = True, io_sync = True, io_rotate_flush = True, io_rotate_name = (''T'', ''00000000''),
     io_rotate_open = True\<rparr>"

lemmas sample_defs = sample_event_def sample_char_def sample_digit_def sample_hash_def sample_entry_def sample_env_def
  sample_config_def sample_log_def sample_io_def log_config_new_def

lemma sample_env_ok: "env_ok sample_env"
  by (auto simp: env_ok_def sample_env_def plain_line_def newline_def carriage_return_def blank_def
      is_space_def split: if_splits)

lemma sample_hex_digest: "hex_digest (sha256_hex sample_env)"
  by (auto simp: hex_digest_def sample_env_def sample_hash_def sample_digit_def hex_digit_def list_all_length)

lemma sample_chain: "chain_ok sample_env (compute_genesis_hash sample_env ''D'') 0 [sample_entry 1, sample_entry 2]"
  by (simp add: step_ok_def chain_hash_def compute_genesis_hash_def GENESIS_CONSTANT_def sample_env_def
      sample_entry_def sample_hash_def sample_digit_def sample_char_def sample_event_def)

subsection \<open>Verification of what was written\<close>

lemma log_inv_read:
  assumes "log_inv E l chain"
  shows "read_all_entries E (disk l) = Inr chain"
proof -
  have d: "disk_ok E (disk l)" "disk_bag E (disk l) = mset chain"
    and c: "chain_ok E (compute_genesis_hash E (cfg_deployment_id (config l))) 0 chain"
      "length chain < 18446744073709551616"
    using assms by (auto simp: log_inv_def)
  obtain ess where e: "read_all_entries E (disk l) = Inr (sort_key sequence ess)" "mset ess = mset chain"
    using read_all_entries_disk [OF d(1)] d(2) by metis
  have "sort_key sequence ess = sort_key sequence chain"
    by (rule sort_key_mset_unique) (use e chain_sorted_inj [OF c] in \<open>auto dest: mset_eq_setD\<close>)
  also have "\<dots> = chain" using chain_sorted_inj [OF c] by (simp add: sort_key_id_if_sorted)
  finally show ?thesis using e by simp
qed

lemma verify_loaded_chain:
  assumes "chain_ok E (compute_genesis_hash E did) 0 es"
  shows "\<exists>r. verify_loaded E did es = Inr r \<and> valid r \<and> violations r = [] \<and>
    entries_verified r = length es \<and> log_tail_hash r = (if es = [] then None else Some (entry_hash (last es)))"
  using verify_entries_ok_iff [of E 0 "compute_genesis_hash E did" 0 es] assms
  by (auto simp: verify_loaded_def)

lemma log_inv_verifies:
  assumes "log_inv E l chain"
  shows "\<exists>r. verify_log_chain E (LogDirectory (disk l)) (cfg_deployment_id (config l)) = Inr r \<and>
    valid r \<and> violations r = [] \<and> entries_verified r = length chain \<and>
    log_tail_hash r = (if chain = [] then None else Some (entry_hash (last chain)))"
  using verify_loaded_chain [of E "cfg_deployment_id (config l)" chain] log_inv_read [OF assms] assms
  by (simp add: verify_log_chain_def load_entries_def log_inv_def)

lemma log_inv_config_append:
  "append E io l ev = (r, l') \<Longrightarrow> config l' = config l"
  by (auto simp: append_def rotate_log_file_def Let_def split: option.splits sum.splits if_splits prod.splits)

lemma append_all_log_inv:
  assumes "env_ok E" "log_inv E l chain" "all_durable evs"
    and "length chain + length evs < 18446744073709551616"
    and "append_all E l evs = (rs, l')"
  shows "config l' = config l \<and>
    (\<exists>added. log_inv E l' (chain @ added) \<and> length added \<le> length evs \<and>
       (\<forall>e. Inr e \<in> set rs \<longrightarrow> e \<in> set added))"
  using assms(2-)
proof (induction evs arbitrary: l chain rs l')
  case (Cons x evs)
  obtain io ev where x: "x = (io, ev)" by fastforce
  obtain r l1 where a: "append E io l ev = (r, l1)" by fastforce
  obtain rs' where b: "append_all E l1 evs = (rs', l')" and rs: "rs = r # rs'"
    using Cons.prems(4) x a by (auto split: prod.splits)
  have d: "durable io" "all_durable evs" using Cons.prems(2) x by (auto simp: all_durable_def)
  have small: "Suc (length chain) < 18446744073709551616" using Cons.prems(3) by simp
  from append_log_inv [OF assms(1) Cons.prems(1) d(1) small a] show ?case
  proof
    assume "l1 = l \<and> (\<exists>m. r = Inl (SerializationError m))"
    then show ?thesis using Cons.IH [OF Cons.prems(1) d(2) _ ] b Cons.prems(3) rs by fastforce
  next
    assume "\<exists>e. log_inv E l1 (chain @ [e]) \<and> payload e = ev \<and> timestamp e = io_now io \<and>
         (r = Inr e \<or> (\<exists>x. r = Inl x))"
    then obtain e where e: "log_inv E l1 (chain @ [e])" "r = Inr e \<or> (\<exists>x. r = Inl x)" by blast
    from Cons.IH [OF e(1) d(2) _ b] Cons.prems(3) obtain added where
      "config l' = config l1" "log_inv E l' ((chain @ [e]) @ added)" "length added \<le> length evs"
      "\<forall>e. Inr e \<in> set rs' \<longrightarrow> e \<in> set added" by auto
    then show ?thesis using e(2) rs log_inv_config_append [OF a]
      by (auto intro!: exI [of _ "e # added"])
  qed
qed auto

lemma sample_log_inv: "log_inv sample_env (sample_log 1) [sample_entry 1]"
proof -
  have "chain_ok sample_env (compute_genesis_hash sample_env ''D'') 0 [sample_entry 1]"
    using sample_chain by simp
  moreover have "entries_of_content sample_env [CHR ''1'', newline] = Inr [sample_entry 1]"
    by (simp add: entries_of_content_def lines_def newline_def blank_def is_space_def strip_cr_def
        carriage_return_def parse_line_def sample_env_def)
  ultimately show ?thesis
    by (simp add: log_inv_def sample_log_def sample_config_def log_config_new_def disk_bag_def
        is_jsonl_def terminated_def newline_def sample_char_def sample_entry_def content_entries_def)
qed

text \<open>C1. A run of appends for which the operating system confirms every write leaves a
  log that the offline verifier accepts, with every entry the writer acknowledged in it.\<close>

theorem durable_appends_verify:
  assumes "env_ok E" "log_inv E l chain" "all_durable evs"
    and "length chain + length evs < 18446744073709551616"
    and "append_all E l evs = (rs, l')"
  shows "\<exists>added r. read_all_entries E (disk l') = Inr (chain @ added) \<and>
    (\<forall>e. Inr e \<in> set rs \<longrightarrow> e \<in> set added) \<and>
    verify_log_chain E (LogDirectory (disk l')) (cfg_deployment_id (config l)) = Inr r \<and>
    valid r \<and> violations r = [] \<and> entries_verified r = length chain + length added"
proof -
  obtain added where "config l' = config l" "log_inv E l' (chain @ added)"
      "\<forall>e. Inr e \<in> set rs \<longrightarrow> e \<in> set added"
    using append_all_log_inv [OF assms] by blast
  then show ?thesis using log_inv_read log_inv_verifies [of E l' "chain @ added"] by fastforce
qed


theorem durable_appends_verify_witness:
  "\<exists>added r. read_all_entries sample_env (disk (snd (append_all sample_env (sample_log 1) [(sample_io 2, sample_event)])))
      = Inr ([sample_entry 1] @ added) \<and>
    (\<forall>e. Inr e \<in> set (fst (append_all sample_env (sample_log 1) [(sample_io 2, sample_event)])) \<longrightarrow> e \<in> set added) \<and>
    verify_log_chain sample_env
      (LogDirectory (disk (snd (append_all sample_env (sample_log 1) [(sample_io 2, sample_event)])))) ''D'' = Inr r \<and>
    valid r \<and> violations r = [] \<and> entries_verified r = 1 + length added"
  using durable_appends_verify [OF sample_env_ok sample_log_inv, of "[(sample_io 2, sample_event)]"]
  by (simp add: all_durable_def durable_def sample_io_def sample_log_def sample_config_def log_config_new_def)


subsection \<open>What a valid verdict means\<close>

text \<open>C19. The verifier of a directory answers valid exactly when every segment parses and
  the entries, in sequence order, form a chain from the deployment's genesis hash.\<close>

theorem verify_directory_iff_chain:
  "(\<exists>r. verify_log_chain E (LogDirectory d) did = Inr r \<and> valid r) \<longleftrightarrow>
   (\<exists>es. read_all_entries E d = Inr es \<and> chain_ok E (compute_genesis_hash E did) 0 es)"
  using verify_loaded_valid_iff
  by (auto simp: verify_log_chain_def load_entries_def split: sum.splits)

lemma valid_loaded_tail:
  assumes "verify_loaded E did es = Inr r" "valid r"
  shows "chain_ok E (compute_genesis_hash E did) 0 es"
    and "log_tail_hash r = (if es = [] then None else Some (entry_hash (last es)))"
proof -
  show "chain_ok E (compute_genesis_hash E did) 0 es" using assms verify_loaded_valid_iff by blast
  then show "log_tail_hash r = (if es = [] then None else Some (entry_hash (last es)))"
    using verify_loaded_chain assms(1) by fastforce
qed

text \<open>C9. Tamper evidence: two logs that both verify and end in the same tail hash agree
  on the sequence number, time, event and hashes of every entry, if SHA-256 does not
  collide on the strings hashed while verifying them.\<close>

theorem equal_tail_hash_equal_logs:
  assumes "hex_digest (sha256_hex E)"
    and "inj_on (sha256_hex E) (hash_inputs E did xs \<union> hash_inputs E did ys)"
    and "verify_loaded E did xs = Inr r" "valid r"
    and "verify_loaded E did ys = Inr q" "valid q"
    and "log_tail_hash r = log_tail_hash q"
  shows "map (covered E) xs = map (covered E) ys"
proof -
  note x = valid_loaded_tail [OF assms(3,4)] and y = valid_loaded_tail [OF assms(5,6)]
  have "tail_from (compute_genesis_hash E did) xs = tail_from (compute_genesis_hash E did) ys"
    using x(2) y(2) assms(7) by (auto simp: tail_from_def split: if_splits)
  then show ?thesis
    using chains_with_equal_tails [OF assms(1,2)] x(1) y(1) by blast
qed

text \<open>The identifier of an entry is outside what the chain and the signature cover.\<close>

lemma step_ok_log_id [simp]: "step_ok E p n (e\<lparr>log_id := u\<rparr>) = step_ok E p n e"
  by (auto simp: step_ok_def split: option.splits)

lemma sample_verify:
  "\<exists>r. verify_loaded sample_env ''D'' [sample_entry 1, sample_entry 2] = Inr r \<and> valid r"
  using verify_loaded_chain [OF sample_chain] by blast

theorem equal_tail_hash_equal_logs_witness:
  "map (covered sample_env) [sample_entry 1, sample_entry 2] =
   map (covered sample_env) [sample_entry 1, (sample_entry 2)\<lparr>log_id := 7\<rparr>]"
proof -
  let ?xs = "[sample_entry 1, sample_entry 2]" and ?ys = "[sample_entry 1, (sample_entry 2)\<lparr>log_id := 7\<rparr>]"
  have "chain_ok sample_env (compute_genesis_hash sample_env ''D'') 0 ?ys"
    using sample_chain by simp
  from verify_loaded_chain [OF this] obtain q where
    q: "verify_loaded sample_env ''D'' ?ys = Inr q" "valid q"
      "log_tail_hash q = Some (entry_hash (sample_entry 2))" by auto
  from verify_loaded_chain [OF sample_chain] obtain r where
    r: "verify_loaded sample_env ''D'' ?xs = Inr r" "valid r"
      "log_tail_hash r = Some (entry_hash (sample_entry 2))" by auto
  have "hash_inputs sample_env ''D'' ?xs \<union> hash_inputs sample_env ''D'' ?ys =
      {''CORDON_LOG_GENESIS_V2DGENESIS'', ''lifecycle'',
       replicate 64 (CHR ''0'') @ ''T'' @ replicate 64 (CHR ''9''),
       replicate 64 (CHR ''1'') @ ''T'' @ replicate 64 (CHR ''9'')}"
    by (auto simp: hash_inputs_def compute_genesis_hash_def GENESIS_CONSTANT_def sample_env_def
        sample_entry_def sample_event_def sample_hash_def sample_digit_def sample_char_def)
  then have "inj_on (sha256_hex sample_env) (hash_inputs sample_env ''D'' ?xs \<union> hash_inputs sample_env ''D'' ?ys)"
    by (simp add: inj_on_def sample_env_def sample_hash_def sample_digit_def)
  from equal_tail_hash_equal_logs [OF sample_hex_digest this r(1,2) q(1,2)] r(3) q(3)
  show ?thesis by simp
qed

text \<open>Removing entries from the end of a log is not visible to the verifier by itself:
  every prefix of a valid log is valid, so a tail hash kept elsewhere is what shows it.\<close>

theorem truncated_log_still_valid:
  assumes "verify_loaded E did (xs @ ys) = Inr r" "valid r"
  shows "\<exists>q. verify_loaded E did xs = Inr q \<and> valid q \<and> violations q = [] \<and> entries_verified q = length xs"
  using valid_loaded_tail(1) [OF assms] verify_loaded_chain [of E did xs] by auto

theorem truncated_log_still_valid_witness:
  "\<exists>q. verify_loaded sample_env ''D'' [sample_entry 1] = Inr q \<and> valid q \<and> violations q = [] \<and>
     entries_verified q = 1"
  using sample_verify truncated_log_still_valid [of sample_env "''D''" "[sample_entry 1]" "[sample_entry 2]"]
  by auto


subsection \<open>A write that reaches the file but is reported failed\<close>

lemma append_sync_fails:
  assumes env: "env_ok E" and rest: "at_rest l s" and io: "sync_fails io" and ok: "disk_ok E (disk l)"
    and b: "json_event E ev = Some b" and t: "json_entry E (make_entry E io s ev b) = Some t"
    and app: "append E io l ev = (r, l')"
  shows "r = Inl (WriteFailed ''cannot fsync the audit log'') \<and> at_rest l' s \<and> config l' = config l \<and>
    disk_ok E (disk l') \<and> disk_bag E (disk l') = disk_bag E (disk l) + {#make_entry E io s ev b#}"
proof -
  have s: "state l = Some s" "writer s = []" "is_jsonl (current_file s)" "fsync_on_write (config l)"
    using rest by (simp_all add: at_rest_def)
  have pt: "plain_line t" "parse_entry E t = Some (make_entry E io s ev b)" using env t by (auto simp: env_ok_def)
  obtain d where w: "write_line True io (current_file s) [] (t @ [newline]) (disk l) =
      (Inl (WriteFailed ''cannot fsync the audit log''), [], d)"
    and d: "d = file_append (current_file s) [] (file_append (current_file s) (t @ [newline]) (disk l))
      \<or> d = file_append (current_file s) (t @ [newline]) (disk l)"
    using io by (cases "io_spill io") (auto simp: write_line_def sync_fails_def)
  have upd: "s\<lparr>writer := []\<rparr> = s" using s(2) by simp
  have "(r, l') = (Inl (WriteFailed ''cannot fsync the audit log''), l\<lparr>state := Some s, disk := d\<rparr>)"
    using app b t w s by (simp add: append_def Let_def) (metis upd)
  then show ?thesis
    using d disk_append_line [OF ok s(3) pt] s
    by (auto simp: at_rest_def disk_ok_Nil_append disk_bag_Nil_append)
qed

lemma distinct_sequences_if_valid:
  assumes ok: "disk_ok E d" and bag: "disk_bag E d = mset es" and len: "length es < 18446744073709551616"
    and v: "verify_log_chain E (LogDirectory d) did = Inr r" "valid r"
  shows "distinct (map sequence es)"
proof -
  obtain ess where e: "read_all_entries E d = Inr (sort_key sequence ess)" "mset ess = mset es"
    using read_all_entries_disk [OF ok] bag by metis
  have "chain_ok E (compute_genesis_hash E did) 0 (sort_key sequence ess)"
    using v e(1) verify_loaded_valid_iff by (auto simp: verify_log_chain_def load_entries_def)
  from chain_sequences [OF this] have "distinct (map sequence (sort_key sequence ess))"
    using len mset_eq_length [OF e(2)] by (simp del: upt_Suc)
  moreover have "mset (map sequence (sort_key sequence ess)) = mset (map sequence es)"
    using e(2) by simp
  ultimately show ?thesis by (metis distinct_count_atmost_1 mset_eq_setD)
qed

text \<open>When the bytes of an entry reach the segment but the fsync that should confirm
  them fails, the writer reports the failure and stays at the old position of the
  chain; the next append it acknowledges then reuses the sequence number, and the
  log no longer verifies.\<close>

theorem failed_fsync_then_append_forks:
  assumes "env_ok E" "log_inv E l chain" "length chain + 2 < 18446744073709551616"
    and "sync_fails io" "append E io l ev = (r, l1)" "\<forall>m. r \<noteq> Inl (SerializationError m)"
    and "durable io'" "append E io' l1 ev' = (Inr e', l2)"
  shows "(\<exists>m. r = Inl (WriteFailed m)) \<and> log_sequence l1 = length chain \<and>
    \<not> (\<exists>q. verify_log_chain E (LogDirectory (disk l2)) did = Inr q \<and> valid q)"
proof -
  obtain s where rest: "at_rest l s" and n: "state_sequence s = length chain"
    and ok: "disk_ok E (disk l)" "disk_bag E (disk l) = mset chain"
    using assms(2) by (auto simp: log_inv_def at_rest_def)
  obtain b t where b: "json_event E ev = Some b" and t: "json_entry E (make_entry E io s ev b) = Some t"
    using assms(5,6) rest append_not_serialised [of l s E ev io] by (fastforce simp: at_rest_def)
  note a = append_sync_fails [OF assms(1) rest assms(4) ok(1) b t assms(5)]
  then have rest1: "at_rest l1 s" by simp
  obtain b' t' where b': "json_event E ev' = Some b'" and t': "json_entry E (make_entry E io' s ev' b') = Some t'"
    using assms(8) rest1 append_not_serialised [of l1 s E ev' io'] by (fastforce simp: at_rest_def)
  have ok1: "disk_ok E (disk l1)" using a by simp
  note c = append_durable [OF assms(1) rest1 assms(7) ok1 b' t' assms(8)]
  have r: "\<exists>m. r = Inl (WriteFailed m)" using a by simp
  have seq: "log_sequence l1 = length chain" using rest1 n by (simp add: at_rest_def log_sequence_def)
  let ?es = "chain @ [make_entry E io s ev b, make_entry E io' s ev' b']"
  have "disk_ok E (disk l2)" "disk_bag E (disk l2) = mset ?es" using a c ok(2) by simp_all
  with r seq show ?thesis
    using distinct_sequences_if_valid [of E "disk l2" ?es did] assms(3) by fastforce
qed

theorem failed_fsync_then_append_forks_witness:
  "\<not> (\<exists>q. verify_log_chain sample_env (LogDirectory (disk (snd (append sample_env (sample_io 2)
        (snd (append sample_env ((sample_io 2)\<lparr>io_sync := False\<rparr>) (sample_log 1) sample_event))
        sample_event)))) ''D'' = Inr q \<and> valid q)"
proof -
  let ?io = "(sample_io 2)\<lparr>io_sync := False\<rparr>"
  have 1: "append sample_env ?io (sample_log 1) sample_event = (Inl (WriteFailed ''cannot fsync the audit log''),
      (sample_log 1)\<lparr>disk := [(''a.jsonl'', [CHR ''1'', newline, CHR ''2'', newline])]\<rparr>)" (is "_ = (_, ?l1)")
    by (simp add: append_def sample_defs Let_def make_entry_def write_line_def chain_hash_def)
  have 2: "\<exists>l2. append sample_env (sample_io 2) ?l1 sample_event = (Inr (sample_entry 2), l2)"
    by (simp add: append_def sample_defs Let_def make_entry_def write_line_def chain_hash_def)
  then obtain l2 where 2: "append sample_env (sample_io 2) ?l1 sample_event = (Inr (sample_entry 2), l2)" by blast
  show ?thesis
    using failed_fsync_then_append_forks [OF sample_env_ok sample_log_inv _ _ 1 _ _ 2, of "''D''"] 1 2
    by (simp add: sync_fails_def durable_def sample_io_def)
qed


subsection \<open>Opening and reopening\<close>

lemma lines_of_unlines_tail:
  assumes "terminated x" "plain_line t"
  shows "last_nonblank (lines (x @ t @ [newline])) = Some t"
proof -
  have "lines (x @ t @ [newline]) = lines x @ [t]"
    using lines_terminated [OF assms(1)] lines_Cons_line [of t "[]"] plain_lineD [OF assms(2)] by simp
  then show ?thesis using plain_lineD(2) [OF assms(2)]
    by (auto simp: last_nonblank_def split: list.splits) (metis last_snoc last_ConsR list.distinct(1))+
qed

lemma unlines_snoc: "unlines (ts @ [t]) = unlines ts @ t @ [newline]"
  by simp

lemma terminated_unlines: "terminated (unlines ts)"
  by (cases ts rule: rev_cases) (simp_all add: terminated_def)

lemma terminated_drop: "terminated c \<Longrightarrow> terminated (drop k c)"
  by (cases "length c \<le> k") (auto simp: terminated_def last_drop)

lemma read_last_loop_hit:
  assumes "last_nonblank (lines (drop (n - min blk n) c)) = Some t" "newline \<in> set (drop (n - min blk n) c)"
  shows "read_last_loop E blk c n = (case parse_entry E t of
    Some e \<Rightarrow> Inr (Some e) | None \<Rightarrow> Inl (SerializationError ''last entry is unreadable''))"
  using assms by (subst read_last_loop.simps) (simp add: Let_def)

lemma read_last_entry_segment:
  assumes "short_line t"
  shows "read_last_entry E BLOCK (unlines (ts @ [t])) = (case parse_entry E t of
    Some e \<Rightarrow> Inr (Some e) | None \<Rightarrow> Inl (SerializationError ''last entry is unreadable''))"
proof -
  let ?c = "unlines ts @ t @ [newline]"
  define k where "k = length ?c - min BLOCK (length ?c)"
  have k: "k \<le> length (unlines ts)" using assms by (auto simp: k_def short_line_def)
  then have tail: "drop k ?c = drop k (unlines ts) @ t @ [newline]" by simp
  have "last_nonblank (lines (drop k ?c)) = Some t"
    unfolding tail using lines_of_unlines_tail terminated_drop terminated_unlines assms
    by (simp add: short_line_def)
  moreover have "newline \<in> set (drop k ?c)" unfolding tail by simp
  ultimately have "read_last_loop E BLOCK ?c (length ?c) = (case parse_entry E t of
      Some e \<Rightarrow> Inr (Some e) | None \<Rightarrow> Inl (SerializationError ''last entry is unreadable''))"
    unfolding k_def by (rule read_last_loop_hit)
  then show ?thesis by (simp add: read_last_entry_def)
qed

lemma segment_holds_entries:
  assumes "segment_holds E c es"
  shows "content_entries E c = es" "entries_of_content E c = Inr es" "terminated c"
proof -
  obtain ts where ts: "c = unlines ts" "list_all short_line ts" "map (parse_entry E) ts = map Some es"
    using assms by (auto simp: segment_holds_def)
  have plain: "list_all plain_line ts" using ts(2) by (auto simp: short_line_def list_all_iff)
  then have "filter (\<lambda>l. \<not> blank l) (lines c) = ts"
    using lines_unlines [OF plain] ts(1) plain_lineD(2) by (simp add: list_all_iff)
  moreover have "list_all2 (\<lambda>t e. parse_line E t = Inr e) ts es"
    using ts(3) by (auto simp: list_all2_conv_all_nth parse_line_def list_eq_iff_nth_eq)
  ultimately show "entries_of_content E c = Inr es" by (simp add: entries_of_content_def try_each_Inr_iff)
  then show "content_entries E c = es" by simp
  show "terminated c" using ts terminated_unlines by simp
qed

lemma segment_last_entry:
  assumes "segment_holds E c es"
  shows "read_last_entry E BLOCK c = Inr (if es = [] then None else Some (last es))"
proof -
  obtain ts where ts: "c = unlines ts" "list_all short_line ts" "map (parse_entry E) ts = map Some es"
    using assms by (auto simp: segment_holds_def)
  show ?thesis
  proof (cases ts rule: rev_cases)
    case Nil
    then show ?thesis using ts by (simp add: read_last_entry_def)
  next
    case (snoc us u)
    then have "es \<noteq> []" using arg_cong [OF ts(3), of length] by auto
    moreover have "parse_entry E u = Some (last es)"
      using arg_cong [OF ts(3), of last] snoc \<open>es \<noteq> []\<close> by (simp add: last_map)
    moreover note snoc
    ultimately have "parse_entry E u = Some (last es)" "es \<noteq> []" by simp_all
    then show ?thesis using read_last_entry_segment [of u E us] ts snoc by simp
  qed
qed

text \<open>The search keeps the greatest sequence number seen so far.\<close>

lemma find_newest_max:
  assumes "\<forall>f \<in> set fs. \<exists>es. segment_holds E (snd f) es"
  shows "\<exists>r. find_newest E fs newest = Inr r \<and>
    (r = newest \<or> (\<exists>f \<in> set fs. \<exists>e \<in> set (content_entries E (snd f)).
        r = Some (fst f, entry_hash e, sequence e))) \<and>
    (\<forall>p h n. newest = Some (p, h, n) \<longrightarrow> (\<exists>q g m. r = Some (q, g, m) \<and> n \<le> m)) \<and>
    (\<forall>f \<in> set fs. \<forall>e \<in> set (content_entries E (snd f)). \<exists>q g m. r = Some (q, g, m) \<and> sequence e \<le> m)"
  using assms
proof (induction fs arbitrary: newest)
  case (Cons f fs)
  obtain p c where f: "f = (p, c)" by fastforce
  obtain es where es: "segment_holds E c es" using Cons.prems f by auto
  have ce: "content_entries E c = es" by (rule segment_holds_entries(1) [OF es])
  show ?case
  proof (cases "es = []")
    case True
    then show ?thesis using segment_last_entry [OF es] Cons.IH [of newest] Cons.prems f ce by auto
  next
    case False
    define newest' where "newest' = (if (case newest of Some (_, _, seq) \<Rightarrow> sequence (last es) > seq | None \<Rightarrow> True)
        then Some (p, entry_hash (last es), sequence (last es)) else newest)"
    have unfold: "find_newest E (f # fs) newest = find_newest E fs newest'"
      using segment_last_entry [OF es] False f by (simp add: newest'_def Let_def)
    have le: "sequence e \<le> sequence (last es)" if "e \<in> set es" for e
      using es that sorted_key_last by (auto simp: segment_holds_def)
    have "\<exists>m q g. newest' = Some (q, g, m) \<and> sequence (last es) \<le> m \<and>
        (\<forall>p h n. newest = Some (p, h, n) \<longrightarrow> n \<le> m)"
      by (cases newest) (auto simp: newest'_def)
    then obtain m q g where nw: "newest' = Some (q, g, m)" "sequence (last es) \<le> m"
      "\<forall>p h n. newest = Some (p, h, n) \<longrightarrow> n \<le> m" by blast
    have src: "newest' = newest \<or> newest' = Some (p, entry_hash (last es), sequence (last es))"
      by (auto simp: newest'_def)
    from Cons.IH [of newest'] Cons.prems obtain r where r: "find_newest E fs newest' = Inr r"
      "r = newest' \<or> (\<exists>f \<in> set fs. \<exists>e \<in> set (content_entries E (snd f)).
        r = Some (fst f, entry_hash e, sequence e))"
      "\<exists>q g m'. r = Some (q, g, m') \<and> m \<le> m'"
      "\<forall>f \<in> set fs. \<forall>e \<in> set (content_entries E (snd f)). \<exists>q g m. r = Some (q, g, m) \<and> sequence e \<le> m"
      using nw(1) by auto
    have "r = newest \<or> (\<exists>f' \<in> set (f # fs). \<exists>e \<in> set (content_entries E (snd f')).
        r = Some (fst f', entry_hash e, sequence e))"
      using r(2) src False f ce by auto
    moreover have "\<forall>e \<in> set es. \<exists>q g m. r = Some (q, g, m) \<and> sequence e \<le> m"
      using r(3) nw(2) order_trans [OF le] by fastforce
    moreover have "\<forall>p h n. newest = Some (p, h, n) \<longrightarrow> (\<exists>q g m. r = Some (q, g, m) \<and> n \<le> m)"
      using r(3) nw(3) le_trans by fastforce
    ultimately show ?thesis using unfold r(1,4) f ce by auto
  qed
qed auto


lemma initialize_fresh:
  assumes "log_files (disk l) = []" "open_ok"
  shows "initialize E io version name open_ok l =
    (case append E io (l\<lparr>disk := file_append (new_log_file_path (config l) 1 name) [] (disk l),
        state := Some \<lparr>writer = [], last_hash = compute_genesis_hash E (cfg_deployment_id (config l)),
          state_sequence = 0, current_file = new_log_file_path (config l) 1 name,
          bytes_written = file_size (new_log_file_path (config l) 1 name)
            (file_append (new_log_file_path (config l) 1 name) [] (disk l))\<rparr>\<rparr>)
       (genesis_event (config l) version) of
     (Inl e, l2) \<Rightarrow> (Inl e, l2) | (Inr _, l2) \<Rightarrow> (Inr (), l2))"
  using assms by (simp add: initialize_def find_existing_log_file_def open_log_file_def Let_def)

lemma log_files_Nil_iff: "log_files d = [] \<longleftrightarrow> (\<forall>f \<in> set d. \<not> is_jsonl (fst f))"
  using mset_log_files [of d] by (metis filter_empty_conv mset_zero_iff)

lemma disk_without_segments:
  assumes "log_files d = []"
  shows "disk_ok E d" "disk_bag E d = {#}"
  using assms by (auto simp: log_files_Nil_iff disk_ok_def disk_bag_def filter_empty_conv)

text \<open>Opening an empty directory starts the chain: when \<^verbatim>\<open>AuditLog::open\<close> succeeds and
  the genesis entry was durably written, the log verifies and holds exactly one entry, the
  boot event of this node, with sequence number 1; and the directory is claimed.\<close>

theorem open_empty_directory:
  assumes "env_ok E" "durable io" "fsync_on_write cfg" "log_files d = []"
    and "open_log E io version name mkdir_ok claim_ok open_ok os locks cfg d = (Inr l, locks')"
  shows "\<exists>e. log_inv E l [e] \<and> payload e = genesis_event cfg version \<and> sequence e = 1 \<and>
    config l = cfg \<and> locks (log_dir cfg) = None \<and> locks' = locks(log_dir cfg \<mapsto> cfg_node_id cfg)"
proof -
  let ?p = "new_log_file_path cfg 1 name" and ?d = "file_append (new_log_file_path cfg 1 name) [] d"
  define l0 where "l0 = \<lparr>config = cfg, state = Some \<lparr>writer = [],
      last_hash = compute_genesis_hash E (cfg_deployment_id cfg), state_sequence = 0,
      current_file = ?p, bytes_written = file_size ?p ?d\<rparr>, disk = ?d\<rparr>"
  have acq: "acquire locks os claim_ok (log_dir cfg) (cfg_node_id cfg) = (Inr (), locks')"
      and ini: "initialize E io version name open_ok \<lparr>config = cfg, state = None, disk = d\<rparr> = (Inr (), l)"
    using assms(5) by (auto simp: open_log_def split: if_splits sum.splits prod.splits)
  have lk: "locks (log_dir cfg) = None" "locks' = locks(log_dir cfg \<mapsto> cfg_node_id cfg)"
    using acq by (auto simp: acquire_def split: if_splits option.splits lock_answer.splits)
  have op: "open_ok" using ini assms(4)
    by (auto simp: initialize_def find_existing_log_file_def open_log_file_def Let_def split: if_splits)
  have inv0: "log_inv E l0 []"
    using assms(3) disk_without_segments [OF assms(4)] disk_ok_Nil_append disk_bag_Nil_append
    by (simp add: log_inv_def l0_def is_jsonl_new_path)
  obtain r l1 where app: "append E io l0 (genesis_event cfg version) = (r, l1)" by fastforce
  then have r: "l = l1" "\<exists>e. r = Inr e"
    using ini initialize_fresh [of "\<lparr>config = cfg, state = None, disk = d\<rparr>" open_ok E io version name] op assms(4)
    by (auto simp: l0_def split: sum.splits)
  have "Suc (length []) < 18446744073709551616" by simp
  from append_log_inv [OF assms(1) inv0 assms(2) this app] r obtain e where
    e: "log_inv E l [e]" "payload e = genesis_event cfg version" by auto
  moreover have "sequence e = 1" using e(1) by (simp add: log_inv_def step_ok_def)
  moreover have "config l = cfg" using log_inv_config_append [OF app] r(1) by (simp add: l0_def)
  ultimately show ?thesis using lk by blast
qed

definition sample_opened :: AuditLog where
  "sample_opened = (sample_log 1)\<lparr>disk := [(''d/cordon-audit-00000000000000000001-T-00000000.jsonl'', [CHR ''1'', newline])],
     state := map_option (\<lambda>s. s\<lparr>current_file := ''d/cordon-audit-00000000000000000001-T-00000000.jsonl''\<rparr>)
       (state (sample_log 1))\<rparr>"

lemma sample_open:
  "open_log sample_env (sample_io 1) ''v'' (''T'', ''00000000'') True True True LockFree Map.empty sample_config [] =
     (Inr sample_opened, [''d'' \<mapsto> ''N''])"
proof -
  have p: "new_log_file_path sample_config (Suc 0) (''T'', ''00000000'') = ''d/cordon-audit-00000000000000000001-T-00000000.jsonl''"
    by (simp add: new_log_file_path_def sample_config_def log_config_new_def padded_numeral)
  show ?thesis
    by (simp add: open_log_def acquire_def initialize_fresh log_files_def p)
      (simp add: append_def sample_opened_def sample_defs Let_def make_entry_def write_line_def chain_hash_def
        genesis_event_def compute_genesis_hash_def GENESIS_CONSTANT_def file_size_def)
qed

theorem open_empty_directory_witness:
  "\<exists>e. log_inv sample_env sample_opened [e] \<and> payload e = genesis_event sample_config ''v'' \<and> sequence e = 1"
  using open_empty_directory [OF sample_env_ok _ _ _ sample_open]
  by (auto simp: durable_def sample_io_def sample_config_def log_config_new_def log_files_def)

lemma segments_ok_Cons [simp]:
  "segments_ok E (f # d) \<longleftrightarrow> (is_jsonl (fst f) \<longrightarrow> (\<exists>es. segment_holds E (snd f) es)) \<and> segments_ok E d"
  by (auto simp: segments_ok_def)

lemma segments_ok_Nil [simp]: "segments_ok E []" "segment_holds E [] []"
  by (auto simp: segments_ok_def segment_holds_def)

lemma segments_ok_touch_all: "segments_ok E d \<Longrightarrow> segments_ok E (touch_all ps d)"
proof (induction ps arbitrary: d)
  case (Cons p ps)
  have "segments_ok E (file_append p [] d)" using Cons.prems
  proof (induction d)
    case (Cons f d)
    then show ?case by (cases f) simp
  qed (auto intro: segments_ok_Nil)
  then show ?case using Cons.IH by simp
qed simp

lemma segment_holds_snoc:
  assumes "segment_holds E c es" "short_line t" "parse_entry E t = Some e"
    and "\<forall>x \<in> set es. sequence x \<le> sequence e"
  shows "segment_holds E (c @ t @ [newline]) (es @ [e])"
proof -
  obtain ts where "c = unlines ts" "list_all short_line ts" "map (parse_entry E) ts = map Some es"
      "sorted (map sequence es)" using assms(1) by (auto simp: segment_holds_def)
  then show ?thesis using assms(2-) unfolding segment_holds_def
    by (intro exI [of _ "ts @ [t]"]) (auto simp: sorted_append)
qed

lemma segments_ok_append_line:
  assumes "short_line t" "parse_entry E t = Some e"
    and "segments_ok E d" "\<forall>x \<in># disk_bag E d. sequence x \<le> sequence e"
  shows "segments_ok E (file_append p (t @ [newline]) d)"
  using assms(3,4)
proof (induction d)
  case Nil
  show ?case using segment_holds_snoc [OF segments_ok_Nil(2) assms(1,2)] by auto
next
  case (Cons f d)
  obtain q c where f: "f = (q, c)" by fastforce
  have bag: "disk_bag E (f # d) = (if is_jsonl q then mset (content_entries E c) else {#}) + disk_bag E d"
    by (simp add: disk_bag_def f)
  then have IH: "segments_ok E (file_append p (t @ [newline]) d)" using Cons by auto
  have "\<exists>es. segment_holds E (c @ t @ [newline]) es" if jq: "is_jsonl q"
  proof -
    obtain es where es: "segment_holds E c es" using Cons.prems(1) jq f by auto
    then have "\<forall>x \<in> set es. sequence x \<le> sequence e"
      using Cons.prems(2) bag jq segment_holds_entries(1) [OF es] by simp
    then show ?thesis using segment_holds_snoc [OF es assms(1,2)] by blast
  qed
  then show ?case using IH Cons.prems(1) f by auto
qed

lemma log_inv_sequences:
  assumes "log_inv E l chain" "x \<in> set chain"
  shows "sequence x \<le> length chain"
proof -
  have "map sequence chain = [Suc 0..<Suc (0 + length chain)]"
    by (rule chain_sequences) (use assms(1) in \<open>auto simp: log_inv_def\<close>)
  moreover have "sequence x \<in> set (map sequence chain)" using assms(2) by simp
  ultimately show ?thesis by (simp only: set_upt) simp
qed

lemma append_segments_ok:
  assumes "env_ok E" "\<forall>e t. json_entry E e = Some t \<longrightarrow> short_line t"
    and "log_inv E l chain" "segments_ok E (disk l)" "durable io"
    and "Suc (length chain) < 18446744073709551616" "append E io l ev = (r, l')"
  shows "segments_ok E (disk l')"
proof -
  obtain s where rest: "at_rest l s" and n: "state_sequence s = length chain"
    and ok: "disk_ok E (disk l)" "disk_bag E (disk l) = mset chain"
    using assms(3) by (auto simp: log_inv_def at_rest_def)
  show ?thesis
  proof (cases "\<exists>b t. json_event E ev = Some b \<and> json_entry E (make_entry E io s ev b) = Some t")
    case True
    then obtain b t where b: "json_event E ev = Some b" "json_entry E (make_entry E io s ev b) = Some t" by blast
    have "parse_entry E t = Some (make_entry E io s ev b)" using assms(1) b by (auto simp: env_ok_def)
    moreover have "\<forall>x \<in># disk_bag E (disk l). sequence x \<le> sequence (make_entry E io s ev b)"
      using ok(2) log_inv_sequences [OF assms(3)] n assms(6) by (fastforce intro: le_SucI)
    ultimately have "segments_ok E (file_append (current_file s) (t @ [newline]) (disk l))"
      using assms(2,4) b(2) by (intro segments_ok_append_line) auto
    then show ?thesis
      using append_durable [OF assms(1) rest assms(5) ok(1) b assms(7)] segments_ok_touch_all by metis
  next
    case False
    then have "\<exists>m. append E io l ev = (Inl (SerializationError m), l)"
      by (intro append_not_serialised [where s = s]) (use rest in \<open>auto simp: at_rest_def\<close>)
    then show ?thesis using assms(4,7) by auto
  qed
qed


text \<open>
  The state a run of durable appends leaves, as one invariant of the writer, and the
  writer as a transition system that keeps it.
\<close>

definition writer_inv :: "log_env \<Rightarrow> AuditLog \<Rightarrow> bool" where
  "writer_inv E l \<longleftrightarrow> segments_ok E (disk l) \<and> (\<exists>chain. chain \<noteq> [] \<and> log_inv E l chain)"

definition writer_step :: "log_env \<Rightarrow> AuditLog \<Rightarrow> append_io \<times> AuditEvent \<Rightarrow> AuditLog" where
  "writer_step E l x = snd (append E (fst x) l (snd x))"

definition writer_ok :: "log_env \<Rightarrow> AuditLog \<Rightarrow> append_io \<times> AuditEvent \<Rightarrow> bool" where
  "writer_ok E l x \<longleftrightarrow> env_ok E \<and> (\<forall>e t. json_entry E e = Some t \<longrightarrow> short_line t) \<and> durable (fst x) \<and>
     Suc (log_sequence l) < 18446744073709551616"

interpretation writer_sys: invariant_system "writer_step E" "writer_ok E" "writer_inv E" for E
proof unfold_locales
  fix l :: AuditLog and x :: "append_io \<times> AuditEvent"
  assume "writer_inv E l" and ok: "writer_ok E l x"
  then obtain chain where c: "chain \<noteq> []" "log_inv E l chain" "segments_ok E (disk l)"
    by (auto simp: writer_inv_def)
  obtain r l' where app: "append E (fst x) l (snd x) = (r, l')" by fastforce
  have small: "Suc (length chain) < 18446744073709551616"
    using ok c(2) by (auto simp: writer_ok_def log_inv_def log_sequence_def)
  have "segments_ok E (disk l')"
    using append_segments_ok [OF _ _ c(2,3) _ small app] ok by (auto simp: writer_ok_def)
  moreover have "\<exists>ch. ch \<noteq> [] \<and> log_inv E l' ch"
    using append_log_inv [OF _ c(2) _ small app] ok c(1,2) by (auto simp: writer_ok_def)
  ultimately show "writer_inv E (writer_step E l x)" by (simp add: writer_inv_def writer_step_def app)
qed

lemma find_existing_resumes:
  assumes "log_inv E l chain" "segments_ok E (disk l)" "chain \<noteq> []"
  shows "\<exists>p. find_existing_log_file E (disk l) = Inr (Some (p, entry_hash (last chain), length chain)) \<and>
    is_jsonl p"
proof -
  have files: "f \<in> set (log_files (disk l)) \<longleftrightarrow> f \<in> set (disk l) \<and> is_jsonl (fst f)" for f
    using mset_eq_setD [OF mset_log_files, of "disk l"] by simp
  have bag: "set chain = {e. \<exists>f \<in> set (log_files (disk l)). e \<in> set (content_entries E (snd f))}"
  proof -
    have "set_mset (disk_bag E (disk l)) = set chain" using assms(1) by (auto simp: log_inv_def)
    moreover have "set_mset (disk_bag E (disk l)) =
        {e. \<exists>f \<in> set (log_files (disk l)). e \<in> set (content_entries E (snd f))}"
      by (auto simp: disk_bag_def files)
    ultimately show ?thesis by simp
  qed
  have c: "chain_ok E (compute_genesis_hash E (cfg_deployment_id (config l))) 0 chain"
      "length chain < 18446744073709551616" using assms(1) by (auto simp: log_inv_def)
  have last: "sequence (last chain) = length chain" "last chain \<in> set chain"
    using chain_seq_from [OF c(1)] c(2) assms(3) by (auto simp: seq_from_def)
  have "\<forall>f \<in> set (log_files (disk l)). \<exists>es. segment_holds E (snd f) es"
    using assms(2) files by (auto simp: segments_ok_def)
  from find_newest_max [OF this, of None] obtain r where
    r: "find_existing_log_file E (disk l) = Inr r"
      "r = None \<or> (\<exists>f \<in> set (log_files (disk l)). \<exists>e \<in> set (content_entries E (snd f)).
        r = Some (fst f, entry_hash e, sequence e))"
      "\<forall>f \<in> set (log_files (disk l)). \<forall>e \<in> set (content_entries E (snd f)).
        \<exists>q g m. r = Some (q, g, m) \<and> sequence e \<le> m"
    by (auto simp: find_existing_log_file_def)
  obtain q g m where m: "r = Some (q, g, m)" "length chain \<le> m"
    using r(3) last bag by fastforce
  then obtain f e where e: "f \<in> set (log_files (disk l))" "e \<in> set chain"
      "r = Some (fst f, entry_hash e, sequence e)" using r(2) bag by auto
  then have "sequence e = sequence (last chain)"
    using m last log_inv_sequences [OF assms(1) e(2)] by simp
  then have "e = last chain" using chain_sorted_inj(1) [OF c] e(2) last(2) by (auto dest: inj_onD)
  then show ?thesis using r(1) e files last by auto
qed


lemma sample_short: "json_entry sample_env e = Some t \<Longrightarrow> short_line t"
proof -
  assume j: "json_entry sample_env e = Some t"
  then have "plain_line t" using sample_env_ok by (auto simp: env_ok_def)
  moreover have "length t = 1" using j by (auto simp: sample_env_def split: if_splits)
  ultimately show ?thesis by (simp add: short_line_def BLOCK_def)
qed

lemma sample_writer_inv: "writer_inv sample_env (sample_log 1)"
proof -
  have "segment_holds sample_env [CHR ''1'', newline] [sample_entry 1]"
    unfolding segment_holds_def using sample_short [of "sample_entry 1" "''1''"]
    by (intro exI [of _ "[''1'']"]) (simp add: sample_env_def)
  then have "segments_ok sample_env (disk (sample_log 1))"
    by (auto simp: sample_log_def sample_char_def)
  then show ?thesis unfolding writer_inv_def using sample_log_inv by blast
qed



text \<open>A segment whose last line is as long as the block that is read from the end of the
  file cannot be resumed: the block ends in the line's own line feed, which is taken
  for a complete line, and what was read of the line does not parse.  The same file is
  read without error by the verifier.\<close>

theorem long_last_line_not_resumed:
  assumes "is_jsonl p" "plain_line t" "BLOCK \<le> length t" "parse_entry E t = Some e"
    and "\<not> blank (drop (Suc (length t) - BLOCK) t)" "parse_entry E (drop (Suc (length t) - BLOCK) t) = None"
  shows "fst (initialize E io version name open_ok \<lparr>config = cfg, state = None, disk = [(p, t @ [newline])]\<rparr>)
      = Inl (SerializationError ''last entry is unreadable'') \<and>
    load_entries E (LogDirectory [(p, t @ [newline])]) = Inr [e]"
proof -
  define u where "u = drop (Suc (length t) - BLOCK) t"
  have fs: "log_files [(p, t @ [newline])] = [(p, t @ [newline])]" using assms(1) by (simp add: log_files_def)
  have B: "Suc (length t) - min BLOCK (Suc (length t)) = Suc (length t) - BLOCK" by (simp add: min_def)
  have dr: "drop (Suc (length t) - BLOCK) (t @ [newline]) = u @ [newline]"
    using assms(3) by (simp add: u_def BLOCK_def)
  have "plain_line u"
    using assms(2,3,5) last_drop [of "Suc (length t) - BLOCK" t]
    by (auto simp: plain_line_def u_def BLOCK_def dest: in_set_dropD)
  then have "last_nonblank (lines (u @ [newline])) = Some u"
    using lines_of_unlines_tail [of "[]" u] by (simp add: terminated_def)
  then have "read_last_loop E BLOCK (t @ [newline]) (length (t @ [newline])) =
      Inl (SerializationError ''last entry is unreadable'')"
    using read_last_loop_hit [of "length (t @ [newline])" BLOCK "t @ [newline]" u E] B dr assms(6)
    by (simp add: u_def)
  then have "find_existing_log_file E [(p, t @ [newline])] = Inl (SerializationError ''last entry is unreadable'')"
    using fs by (simp add: find_existing_log_file_def read_last_entry_def)
  moreover have "entries_of_content E (t @ [newline]) = Inr [e]"
    using entries_of_content_snoc [of "[]" E "[]" t e] assms(2,4) by (simp add: terminated_def)
  ultimately show ?thesis using fs
    by (simp add: initialize_def load_entries_def read_all_entries_def)
qed

definition sample_long_env :: log_env where
  "sample_long_env = sample_env\<lparr>parse_entry := (\<lambda>t. if length t = BLOCK then Some (sample_entry 1) else None)\<rparr>"

theorem long_last_line_not_resumed_witness:
  "fst (initialize sample_long_env (sample_io 1) ''v'' (''T'', ''1'') True
      \<lparr>config = sample_config, state = None, disk = [(''a.jsonl'', replicate BLOCK (CHR ''x'') @ [newline])]\<rparr>)
    = Inl (SerializationError ''last entry is unreadable'')"
proof -
  let ?t = "replicate BLOCK (CHR ''x'')"
  have pos: "BLOCK = Suc (BLOCK - 1)" by (simp add: BLOCK_def)
  have "\<not> blank ?t" "plain_line ?t"
    by (subst pos; simp add: blank_def is_space_def plain_line_def newline_def carriage_return_def)+
  moreover have "\<not> blank (drop (Suc (length ?t) - BLOCK) ?t)"
  proof -
    have "BLOCK - 1 = Suc (BLOCK - 2)" by (simp add: BLOCK_def)
    then have "drop (Suc (length ?t) - BLOCK) ?t = CHR ''x'' # replicate (BLOCK - 2) (CHR ''x'')"
      by simp
    then show ?thesis by (simp add: blank_def is_space_def)
  qed
  moreover have "length (drop (Suc (length ?t) - BLOCK) ?t) \<noteq> BLOCK" by (simp add: BLOCK_def)
  ultimately show ?thesis
    using long_last_line_not_resumed [of "''a.jsonl''" ?t sample_long_env "sample_entry 1"]
    by (simp add: is_jsonl_def sample_long_env_def)
qed

subsection \<open>One writer at a time\<close>

text \<open>Once \<^verbatim>\<open>AuditLog::open\<close> has succeeded on a directory, every later open of the same
  directory, by any node and with any configuration, fails and leaves the claim in place
  until the first log is dropped.\<close>

theorem second_writer_refused:
  assumes "open_log E io version name mkdir_ok claim_ok open_ok os locks cfg d = (Inr l, locks1)"
    and "log_dir cfg' = log_dir cfg"
  shows "(\<exists>e. open_log E' io' version' name' mkdir_ok' claim_ok' open_ok' os' locks1 cfg' d' = (Inl e, locks1)) \<and>
    release locks1 (log_dir cfg) (log_dir cfg) = None"
proof -
  have "locks1 (log_dir cfg) = Some (cfg_node_id cfg)"
    using assms(1) by (auto simp: open_log_def acquire_def split: if_splits sum.splits prod.splits
        option.splits lock_answer.splits)
  then show ?thesis using assms(2) by (auto simp: open_log_def acquire_def release_def)
qed


theorem second_writer_refused_witness:
  "\<exists>e. open_log sample_env (sample_io 5) ''v'' (''T'', ''00000000'') True True True LockFree [''d'' \<mapsto> ''N'']
     (log_config_new ''d'' ''D'' ''M'') [] = (Inl e, [''d'' \<mapsto> ''N''])"
  using second_writer_refused [OF sample_open, of "log_config_new ''d'' ''D'' ''M''" sample_env "sample_io 5"]
  by (simp add: sample_config_def log_config_new_def)

subsection \<open>Segment names and the tail of the log\<close>

lemma digit_char_less:
  assumes "a < b" "b < 10"
  shows "(of_char (digit_char a) :: nat) < of_char (digit_char b)"
  using assms by (simp add: digit_char_def)

lemma padded_less:
  "n < m \<Longrightarrow> m < 10 ^ k \<Longrightarrow>
   \<exists>u c d v w. padded k n = u @ c # v \<and> padded k m = u @ d # w \<and> (of_char c :: nat) < of_char d"
proof (induction k arbitrary: n m)
  case (Suc k)
  show ?case
  proof (cases "n div 10 < m div 10")
    case True
    have "m div 10 < 10 ^ k" using Suc.prems(2) by auto
    from Suc.IH [OF True this] obtain u c d v w where "padded k (n div 10) = u @ c # v"
      "padded k (m div 10) = u @ d # w" "(of_char c :: nat) < of_char d" by blast
    then show ?thesis
      by (intro exI [of _ u] exI [of _ c] exI [of _ d] exI [of _ "v @ [digit_char (n mod 10)]"]
          exI [of _ "w @ [digit_char (m mod 10)]"]) simp
  next
    case False
    then have eq: "n div 10 = m div 10" using Suc.prems(1) div_le_mono [of n m 10] by simp
    have "n mod 10 < m mod 10"
      using Suc.prems(1) eq div_mult_mod_eq [of n 10] div_mult_mod_eq [of m 10] by linarith
    with eq show ?thesis using digit_char_less [of "n mod 10" "m mod 10"]
      by (intro exI [of _ "padded k (m div 10)"] exI [of _ "digit_char (n mod 10)"]
          exI [of _ "digit_char (m mod 10)"] exI [of _ "[]"]) simp
  qed
qed simp

lemma string_le_prefix: "string_le (u @ xs) (u @ ys) = string_le xs ys"
  by (induction u) auto

text \<open>The names given to segments sort, as plain strings, in the order of the sequence
  numbers they begin at, whatever timestamp and random suffix they carry, up to the
  largest 64-bit sequence number.\<close>

theorem segment_names_sort_by_sequence:
  assumes "n < m" "m \<le> u64_max"
  shows "string_le (new_log_file_path cfg n x) (new_log_file_path cfg m y) \<and>
    \<not> string_le (new_log_file_path cfg m y) (new_log_file_path cfg n x)"
proof -
  obtain u c d v w where "padded 20 n = u @ c # v" "padded 20 m = u @ d # w" "(of_char c :: nat) < of_char d"
    using padded_less [of n m 20] assms by auto
  then show ?thesis by (auto simp: new_log_file_path_def string_le_prefix)
qed

theorem segment_names_sort_by_sequence_witness:
  "string_le (new_log_file_path sample_config 9 (''T'', ''ffffffff'')) (new_log_file_path sample_config 10 (''S'', ''00000000''))"
  using segment_names_sort_by_sequence [of 9 10 sample_config] by simp

lemma collect_lines_parsed:
  assumes "list_all short_line ls" "map (parse_entry E) ls = map Some es" "length acc < n"
  shows "collect_lines E n ls acc = acc @ take (n - length acc) es"
  using assms
proof (induction ls arbitrary: es acc)
  case (Cons l ls)
  then obtain e es' where es: "es = e # es'" "parse_entry E l = Some e" "map (parse_entry E) ls = map Some es'"
    by (cases es) auto
  have nb: "\<not> blank l" using Cons.prems(1) by (simp add: short_line_def plain_line_def)
  show ?case
  proof (cases "Suc (length acc) < n")
    case True
    then have "collect_lines E n ls (acc @ [e]) = (acc @ [e]) @ take (n - length (acc @ [e])) es'"
      using Cons.IH [OF _ es(3), of "acc @ [e]"] Cons.prems(1) by simp
    then show ?thesis using es nb True Cons.prems(3) by (simp add: take_Cons' Suc_diff_Suc)
  next
    case False
    then have "n - length acc = 1" using Cons.prems(3) by simp
    then show ?thesis using es nb False by simp
  qed
qed simp

lemma collect_files_segments:
  assumes "list_all2 (\<lambda>f es. segment_holds E (snd f) es) fs ess" "length acc < n"
  shows "collect_files E n fs acc = acc @ take (n - length acc) (concat (map rev ess))"
  using assms
proof (induction fs arbitrary: ess acc)
  case (Cons f fs)
  then obtain es ess' where ess: "ess = es # ess'" "segment_holds E (snd f) es"
      "list_all2 (\<lambda>f es. segment_holds E (snd f) es) fs ess'" by (auto simp: list_all2_Cons1)
  obtain ts where ts: "snd f = unlines ts" "list_all short_line ts" "map (parse_entry E) ts = map Some es"
    using ess(2) by (auto simp: segment_holds_def)
  have "lines (snd f) = ts" using ts(1,2) lines_unlines [of ts] by (auto simp: short_line_def list_all_iff)
  then have col: "collect_lines E n (rev (lines (snd f))) acc = acc @ take (n - length acc) (rev es)"
    using collect_lines_parsed [of "rev ts" E "rev es" acc n] ts Cons.prems(2)
    by (simp add: rev_map [symmetric])
  show ?case
  proof (cases "length acc + length es < n")
    case True
    then have "collect_files E n fs (acc @ rev es) = (acc @ rev es) @ take (n - length (acc @ rev es)) (concat (map rev ess'))"
      using Cons.IH [OF ess(3), of "acc @ rev es"] by simp
    then show ?thesis using col ess(1) True by simp
  next
    case False
    then show ?thesis using col ess(1) Cons.prems(2) by simp
  qed
qed auto

text \<open>Tailing a log whose segments hold consecutive stretches of the chain, in file-name
  order, returns exactly its last n entries, in chain order, or all of them if there are fewer.\<close>

theorem read_tail_is_suffix:
  assumes "list_all2 (\<lambda>f es. segment_holds E (snd f) es) (log_files d) ess"
    and "chain_ok E p 0 (concat ess)" "length (concat ess) < 18446744073709551616"
  shows "read_tail_entries E d n = drop (length (concat ess) - n) (concat ess)"
proof (cases "n = 0")
  case False
  let ?c = "concat ess"
  have "collect_files E n (rev (log_files d)) [] = take n (concat (map rev (rev ess)))"
    using collect_files_segments [of E "rev (log_files d)" "rev ess" "[]" n] assms(1) False
    by (simp add: list_all2_rev)
  also have "\<dots> = take n (rev ?c)" by (simp add: rev_concat rev_map)
  also have "\<dots> = rev (drop (length ?c - n) ?c)" by (simp add: take_rev)
  finally have col: "collect_files E n (rev (log_files d)) [] = rev (drop (length ?c - n) ?c)" .
  have srt: "inj_on sequence (set ?c)" "sorted (map sequence ?c)"
    using chain_sorted_inj [OF assms(2,3)] by blast+
  have "sort_key sequence (rev (drop (length ?c - n) ?c)) = sort_key sequence (drop (length ?c - n) ?c)"
    by (rule sort_key_mset_unique) (use inj_on_subset [OF srt(1) set_drop_subset] in simp_all)
  also have "\<dots> = drop (length ?c - n) ?c"
    using srt(2) by (intro sort_key_id_if_sorted) (simp add: drop_map [symmetric] sorted_wrt_drop)
  finally show ?thesis using False col by (simp add: read_tail_entries_def)
qed (simp add: read_tail_entries_def)

theorem read_tail_is_suffix_witness:
  "read_tail_entries sample_env [(''a.jsonl'', [CHR ''1'', newline]), (''b.jsonl'', [CHR ''2'', newline])] 1 = [sample_entry 2]"
proof -
  let ?d = "[(''a.jsonl'', [CHR ''1'', newline]), (''b.jsonl'', [CHR ''2'', newline])]"
  have fs: "log_files ?d = ?d" by (simp add: log_files_def is_jsonl_def)
  have "segment_holds sample_env [CHR ''1'', newline] [sample_entry 1]"
    "segment_holds sample_env [CHR ''2'', newline] [sample_entry 2]"
    using sample_short [of "sample_entry 1" "''1''"] sample_short [of "sample_entry 2" "''2''"]
    unfolding segment_holds_def
    by (intro exI [of _ "[''1'']"] exI [of _ "[''2'']"]; simp add: sample_env_def sample_entry_def)+
  then have "list_all2 (\<lambda>f es. segment_holds sample_env (snd f) es) (log_files ?d) [[sample_entry 1], [sample_entry 2]]"
    unfolding fs by simp
  from read_tail_is_suffix [OF this, of "compute_genesis_hash sample_env ''D''" 1] sample_chain
  show ?thesis by simp
qed


subsection \<open>Append only\<close>

definition disk_extends :: "log_disk \<Rightarrow> log_disk \<Rightarrow> bool" where
  "disk_extends d d' \<longleftrightarrow> (\<forall>p c. map_of d p = Some c \<longrightarrow> (\<exists>x. map_of d' p = Some (c @ x)))"

lemma map_of_file_append:
  "map_of (file_append p bs d) q =
     (if q = p then Some ((case map_of d p of Some c \<Rightarrow> c | None \<Rightarrow> []) @ bs) else map_of d q)"
  by (induction p bs d rule: file_append.induct) auto

lemma disk_extends_refl [simp]: "disk_extends d d"
  by (auto simp: disk_extends_def)

lemma disk_extends_trans: "disk_extends a b \<Longrightarrow> disk_extends b c \<Longrightarrow> disk_extends a c"
  unfolding disk_extends_def by (metis append_assoc)

lemma disk_extends_file_append: "disk_extends d d' \<Longrightarrow> disk_extends d (file_append p bs d')"
  by (rule disk_extends_trans) (auto simp: disk_extends_def map_of_file_append)

lemma rotate_extends: "rotate_log_file io l s = (r, l') \<Longrightarrow> disk_extends (disk l) (disk l')"
  by (auto simp: rotate_log_file_def open_log_file_def Let_def disk_extends_file_append split: if_splits sum.splits)

lemma write_line_extends: "write_line fs io p buf line d = (r, b, d') \<Longrightarrow> disk_extends d d'"
  by (auto simp: write_line_def Let_def disk_extends_file_append split: if_splits prod.splits)

lemma append_extends: "append E io l ev = (r, l') \<Longrightarrow> disk_extends (disk l) (disk l')"
  by (auto simp: append_def Let_def split: option.splits sum.splits prod.splits if_splits
      dest!: write_line_extends rotate_extends intro: disk_extends_trans)

interpretation append_only: monotone_system "writer_step E" "\<lambda>_ _. True" "\<lambda>l l'. disk_extends (disk l) (disk l')" for E
  by unfold_locales
    (auto simp: writer_step_def intro: disk_extends_trans append_extends [OF prod.collapse [symmetric]])

text \<open>The log is append-only at the level of bytes: whatever the operating system answers to
  each write, flush, fsync and rotation, a run of appends never removes a segment and never
  changes a byte that a segment already holds.\<close>

theorem appends_only_extend_segments:
  "\<forall>p c. map_of (disk l) p = Some c \<longrightarrow> (\<exists>x. map_of (disk (run (writer_step E) l evs)) p = Some (c @ x))"
  using append_only.run_le [OF run_ok_True, of l E evs] by (simp add: disk_extends_def)

theorem appends_only_extend_segments_witness:
  "\<exists>x. map_of (disk (run (writer_step sample_env) (sample_log 1) [((sample_io 2)\<lparr>io_write := False, io_torn := 1\<rparr>, sample_event)]))
     ''a.jsonl'' = Some ([CHR ''1'', newline] @ x)"
proof -
  have "map_of (disk (sample_log 1)) ''a.jsonl'' = Some [CHR ''1'', newline]"
    by (simp add: sample_log_def sample_char_def)
  then show ?thesis using appends_only_extend_segments [of "sample_log 1" sample_env] by blast
qed

end
