(* ===== verification/NodeGuarantees.thy ===== *)
theory NodeGuarantees
  imports Node
begin

text \<open>
  What the composed request pipeline guarantees: which gates stand before a response, that
  no generation is asked of the runtime before its intake record is in the log, that the
  text released is the client's own filter's, and that every path returns its slot.
\<close>

subsection \<open>What admission requires and leaves alone\<close>

text \<open>The gates of \<^verbatim>\<open>admit\<close>, as a conjunction over the node a request finds.\<close>

definition gates_open ::
  "node_env \<Rightarrow> datetime \<Rightarrow> CordonNode \<Rightarrow> ClientIdentity \<Rightarrow> string \<Rightarrow> Message list \<Rightarrow> InferenceParams \<Rightarrow> ClientPolicy \<Rightarrow> bool" where
  "gates_open V now n client model msgs prms policy \<longleftrightarrow>
     can_serve (nd_state n) \<and> attestation_ready_for n now (ci_client_id client)
     \<and> (\<forall>t. map_of (blocked_ips (nd_detector n)) (ci_fingerprint client) = Some t \<longrightarrow> t \<le> now)
     \<and> verify_identity (ne_show_time V) (nd_identity n) now client = Inr policy
     \<and> (\<forall>t why. map_of (suspended_clients (nd_detector n)) (ci_client_id client) = Some (t, why) \<longrightarrow> t \<le> now)
     \<and> model_permitted policy model \<and> check_request_limits (nd_config n) msgs prms policy = Inr ()
     \<and> store_gate n now model = Inr ()
     \<and> fst (check (nd_limiter n) now (ci_client_id client) (ip_max_tokens prms) policy) = Inr ()"

lemmas node_write_defs = log_event_def record_security_alert_def refuse_identity_def refuse_model_def bump_def

lemma node_write_frame [simp]:
  "nd_engine (refuse_identity V io n client) = nd_engine n" "nd_engine (refuse_model V io n client) = nd_engine n"
  "nd_limiter (refuse_identity V io n client) = nd_limiter n" "nd_limiter (refuse_model V io n client) = nd_limiter n"
  "nd_engine (bump f n) = nd_engine n" "nd_engine (log_event V a n ev) = nd_engine n"
  "nd_engine (record_security_alert V a n ty sev summary act src) = nd_engine n"
  by (simp_all add: node_write_defs Let_def)

lemma node_admit_engine [simp]: "nd_engine (snd (node_admit V io n client model msgs prms)) = nd_engine n"
  by (simp add: node_admit_def Let_def split: sum.split option.split prod.split)

lemma blocked_frame [simp]: "suspended_clients (snd (is_ip_blocked d now src)) = suspended_clients d"
  by (simp add: is_ip_blocked_def split: option.split)

lemma blocked_iff: "fst (is_ip_blocked d now src) \<longleftrightarrow> (\<exists>t. map_of (blocked_ips d) src = Some t \<and> now < t)"
  by (simp add: is_ip_blocked_def split: option.split)

lemma suspended_iff:
  "fst (is_client_suspended d now c) = None \<longleftrightarrow>
     (\<forall>t why. map_of (suspended_clients d) c = Some (t, why) \<longrightarrow> t \<le> now)"
  by (auto simp: is_client_suspended_def split: option.split)

text \<open>An admission that succeeds changes the detector's and the limiter's tables and nothing else.\<close>

lemma node_admit_Inr:
  assumes "node_admit V io n client model msgs prms = (Inr policy, n1)"
  shows "gates_open V (io_clock io) n client model msgs prms policy
    \<and> n1 = n\<lparr>nd_detector := nd_detector n1,
             nd_limiter := snd (check (nd_limiter n) (io_clock io) (ci_client_id client) (ip_max_tokens prms) policy)\<rparr>"
proof -
  obtain b d1 where b: "is_ip_blocked (nd_detector n) (io_clock io) (ci_fingerprint client) = (b, d1)" by fastforce
  obtain r d2 where r: "is_client_suspended d1 (io_clock io) (ci_client_id client) = (r, d2)" by fastforce
  have d: "suspended_clients d1 = suspended_clients (nd_detector n)" using blocked_frame b by (metis snd_conv)
  have g: "store_gate (n\<lparr>nd_detector := d2\<rparr>) t model = store_gate n t model" for t
    by (simp add: store_gate_def gate_id_def)
  show ?thesis
    using assms b r d g blocked_iff[of "nd_detector n" "io_clock io" "ci_fingerprint client"]
      suspended_iff[of d1 "io_clock io" "ci_client_id client"]
    by (auto simp: node_admit_def Let_def gates_open_def not_less
        split: if_splits sum.splits option.splits prod.splits)
qed

text \<open>Conversely, open gates admit.\<close>

lemma node_admit_intro:
  assumes "gates_open V (io_clock io) n client model msgs prms policy"
  shows "\<exists>n1. node_admit V io n client model msgs prms = (Inr policy, n1)"
proof -
  obtain d1 where b: "is_ip_blocked (nd_detector n) (io_clock io) (ci_fingerprint client) = (False, d1)"
    using assms blocked_iff[of "nd_detector n" "io_clock io" "ci_fingerprint client"]
    by (cases "is_ip_blocked (nd_detector n) (io_clock io) (ci_fingerprint client)") (fastforce simp: gates_open_def)
  then have "suspended_clients d1 = suspended_clients (nd_detector n)"
    using blocked_frame[of "nd_detector n"] by (metis snd_conv)
  then obtain d2 where s: "is_client_suspended d1 (io_clock io) (ci_client_id client) = (None, d2)"
    using assms suspended_iff[of d1 "io_clock io" "ci_client_id client"]
    by (cases "is_client_suspended d1 (io_clock io) (ci_client_id client)") (auto simp: gates_open_def)
  obtain rl where c: "check (nd_limiter n) (io_clock io) (ci_client_id client) (ip_max_tokens prms) policy = (Inr (), rl)"
    using assms by (cases "check (nd_limiter n) (io_clock io) (ci_client_id client) (ip_max_tokens prms) policy")
      (auto simp: gates_open_def)
  have g: "store_gate (n\<lparr>nd_detector := d\<rparr>) t model = store_gate n t model" for t d
    by (simp add: store_gate_def gate_id_def)
  show ?thesis
    using assms by (simp add: node_admit_def gates_open_def b s c g)
qed

subsection \<open>Intake\<close>

lemma intake_event_frame [simp]:
  "intake_event (n\<lparr>nd_limiter := x\<rparr>) rq s = intake_event n rq s"
  "intake_event (n\<lparr>nd_detector := d\<rparr>) rq s = intake_event n rq s"
  "intake_event (n\<lparr>nd_engine := e\<rparr>) rq s = intake_event n rq s"
  by (simp_all add: intake_event_def)

lemma append_payload: "append E a l ev = (Inr entry, l') \<Longrightarrow> payload entry = ev"
  by (auto simp: append_def Let_def make_entry_def split: option.splits sum.splits prod.splits if_splits)

text \<open>An intake that succeeds passed every gate, holds a lease and has its record in the log.\<close>

lemma intake_Inr:
  assumes "intake V io n client model msgs prms sid timeout = (Inr (policy, rq, lease), n1)"
  obtains entry where "gates_open V (io_clock io) n client model msgs prms policy"
    "rq = make_request V io client model msgs prms sid timeout"
    "admit (nd_engine n) (io_clock io) (io_fresh_session io) rq = (Inr lease, nd_engine n1)"
    "append (ne_log V) (io_intake io) (nd_audit n) (intake_event n rq (lease_session lease)) = (Inr entry, nd_audit n1)"
    "payload entry = intake_event n rq (lease_session lease)"
    "n1 = n\<lparr>nd_detector := nd_detector n1, nd_engine := nd_engine n1, nd_audit := nd_audit n1,
       nd_limiter := snd (check (nd_limiter n) (io_clock io) (ci_client_id client) (ip_max_tokens prms) policy)\<rparr>"
proof -
  obtain n0 where a: "node_admit V io n client model msgs prms = (Inr policy, n0)"
    using assms by (auto simp: intake_def Let_def split: sum.splits prod.splits)
  define d where "d = nd_detector n0"
  have g: "gates_open V (io_clock io) n client model msgs prms policy"
    and n0: "n0 = n\<lparr>nd_detector := d,
       nd_limiter := snd (check (nd_limiter n) (io_clock io) (ci_client_id client) (ip_max_tokens prms) policy)\<rparr>"
    using node_admit_Inr[OF a] by (simp_all add: d_def)
  show ?thesis
    using assms a g unfolding n0
    by (auto simp: intake_def Let_def append_payload split: sum.splits prod.splits intro!: that)
qed

lemma intake_frame:
  assumes "n1 = n\<lparr>nd_detector := d, nd_engine := e, nd_audit := a, nd_limiter := l\<rparr>"
  shows "nd_filters n1 = nd_filters n" "nd_config n1 = nd_config n" "nd_attestation n1 = nd_attestation n"
  by (simp_all add: assms)

lemma limiter_of_update: "n1 = n\<lparr>nd_detector := d, nd_limiter := l\<rparr> \<Longrightarrow> nd_limiter n1 = l"
  by simp

lemma intake_ignores_backend [simp]:
  "refuse_identity V (io\<lparr>io_backend := b\<rparr>) = refuse_identity V io"
  "refuse_model V (io\<lparr>io_backend := b\<rparr>) = refuse_model V io"
  "make_request V (io\<lparr>io_backend := b\<rparr>) = make_request V io"
  "node_admit V (io\<lparr>io_backend := b\<rparr>) = node_admit V io"
  "intake V (io\<lparr>io_backend := b\<rparr>) = intake V io"
proof -
  have io: "io_clock (io\<lparr>io_backend := b\<rparr>) = io_clock io" "io_intake (io\<lparr>io_backend := b\<rparr>) = io_intake io"
    "io_fresh_session (io\<lparr>io_backend := b\<rparr>) = io_fresh_session io"
    by simp_all
  show 1: "refuse_identity V (io\<lparr>io_backend := b\<rparr>) = refuse_identity V io"
    "refuse_model V (io\<lparr>io_backend := b\<rparr>) = refuse_model V io"
    "make_request V (io\<lparr>io_backend := b\<rparr>) = make_request V io"
    by (simp_all add: fun_eq_iff refuse_identity_def refuse_model_def make_request_def)
  show 2: "node_admit V (io\<lparr>io_backend := b\<rparr>) = node_admit V io"
    unfolding fun_eq_iff node_admit_def 1 io by simp
  show "intake V (io\<lparr>io_backend := b\<rparr>) = intake V io"
    unfolding fun_eq_iff intake_def 1 2 io by simp
qed

lemma admit_slots:
  "admit en now fresh rq = (Inr l, en1) \<Longrightarrow> free_slots en = Suc (free_slots en1) \<and> max_concurrent en1 = max_concurrent en"
  by (auto simp: admit_def split: if_splits sum.splits prod.splits)

lemma admit_Inl_slots:
  "admit en now fresh rq = (Inl e, en1) \<Longrightarrow> free_slots en1 = free_slots en \<and> max_concurrent en1 = max_concurrent en"
  by (auto simp: admit_def split: if_splits sum.splits prod.splits)

lemma release_slots [simp]:
  "free_slots (nd_engine (release_lease n l)) = Suc (free_slots (nd_engine n))"
  "max_concurrent (nd_engine (release_lease n l)) = max_concurrent (nd_engine n)"
  by (simp_all add: release_lease_def drop_lease_def)

lemma intake_Inl_slots:
  assumes "intake V io n client model msgs prms sid timeout = (Inl e, n1)"
  shows "free_slots (nd_engine n1) = free_slots (nd_engine n) \<and> max_concurrent (nd_engine n1) = max_concurrent (nd_engine n)"
proof -
  obtain r n0 where a: "node_admit V io n client model msgs prms = (r, n0)" by fastforce
  have "nd_engine n0 = nd_engine n" using node_admit_engine a by (metis snd_conv)
  then show ?thesis
    using assms a by (auto simp: intake_def Let_def split: sum.splits prod.splits dest: admit_slots admit_Inl_slots)
qed

subsection \<open>Completion\<close>

lemma complete_engine [simp]: "nd_engine (snd (complete V io n policy rq sid out)) = nd_engine n"
  by (simp add: complete_def Let_def case_prod_unfold)

lemma complete_Inr:
  fixes V io n policy rq sid out
  defines "fr \<equiv> filter_text (ne_lower V) (for_client (nd_filters n) policy) (to_chars (out_text out))"
  assumes "complete V io n policy rq sid out = (Inr oc, n')"
  shows "\<not> blocked fr \<and> oc_output oc = to_bytes (filtered fr) \<and> oc_output_hash oc = digest_hex (ne_crypto V) (oc_output oc)
    \<and> oc_latency_ms oc = io_elapsed_ms io + normalize_ms (timing_normalization (nd_config n)) (io_elapsed_ms io)
    \<and> nd_audit n' = snd (append (ne_log V) (io_final io) (nd_audit n)
        (completion_event n rq sid (oc_output_hash oc) (usage out) (oc_latency_ms oc) (audit_finish_reason (finish_reason out))
          (triggered fr) (map match_rule (matches fr)) (snd (ne_covert V (filtered fr)))))"
  using assms(2) by (auto simp: complete_def Let_def fr_def[symmetric] log_event_def bump_def completion_event_def
      split: if_splits prod.splits)

lemma process_Inr:
  assumes "process_inference V io n client model msgs prms sid timeout = (Inr oc, n')"
  obtains policy rq lease n1 out where
    "intake V io n client model msgs prms sid timeout = (Inr (policy, rq, lease), n1)"
    "io_backend io rq = Some (Inr out)"
    "complete V io n1 policy rq (lease_session lease) out = (Inr oc, snd (complete V io n1 policy rq (lease_session lease) out))"
    "n' = release_lease (snd (complete V io n1 policy rq (lease_session lease) out)) lease"
  using assms by (auto simp: process_inference_def engine_run_def split: sum.splits prod.splits option.splits intro!: that)

lemma stream_Inr:
  assumes "begin_streaming_inference V io opened n client model msgs prms sid timeout = (Inr s, n')"
  obtains policy rq lease where
    "intake V io n client model msgs prms sid timeout = (Inr (policy, rq, lease), n')"
    "session_filter s = for_client (nd_filters n') policy" "\<not> is_active (timing_normalization (nd_config n))"
  using assms by (auto simp: begin_streaming_inference_def split: if_splits sum.splits prod.splits intro!: that)

subsection \<open>The properties\<close>

text \<open>C2. Neither path serves a request unless every gate was open when it arrived: the node
  can serve, the client verified its attestation where that is required, its source is not
  blocked and it is not suspended, its identity verifies to a policy that admits the model,
  the request is within its limits, the bundle passed its integrity check and the client's
  token buckets held what it asks for.\<close>

theorem no_response_without_gates:
  "(\<forall>oc n'. process_inference V io n client model msgs prms sid timeout = (Inr oc, n') \<longrightarrow>
      (\<exists>policy. gates_open V (io_clock io) n client model msgs prms policy)) \<and>
   (\<forall>s n'. begin_streaming_inference V io opened n client model msgs prms sid timeout = (Inr s, n') \<longrightarrow>
      \<not> is_active (timing_normalization (nd_config n)) \<and> (\<exists>policy. gates_open V (io_clock io) n client model msgs prms policy))"
  by (metis process_Inr stream_Inr intake_Inr)

text \<open>C3. What the runtime would answer can influence the outcome of a request, or the node,
  only if the intake record of that request was appended to the audit log first: when the
  record cannot be written, the pipeline returns the same refusal and the same node
  whatever the runtime would have generated.\<close>

theorem no_generation_before_intake_record:
  assumes "process_inference V (io\<lparr>io_backend := b\<rparr>) n client model msgs prms sid timeout
    \<noteq> process_inference V (io\<lparr>io_backend := b'\<rparr>) n client model msgs prms sid timeout"
  shows "\<exists>rq session entry l. rq = make_request V io client model msgs prms sid timeout \<and>
    append (ne_log V) (io_intake io) (nd_audit n) (intake_event n rq session) = (Inr entry, l) \<and>
    payload entry = intake_event n rq session"
proof -
  show ?thesis
  proof (cases "intake V io n client model msgs prms sid timeout")
    case (Pair r n1)
    then show ?thesis
    proof (cases r)
      case (Inl e)
      then show ?thesis using assms Pair by (simp add: process_inference_def)
    next
      case (Inr x)
      then obtain policy rq lease where "x = (policy, rq, lease)" by (metis prod_cases3)
      then show ?thesis using intake_Inr[of V io n client model msgs prms sid timeout policy rq lease n1] Pair Inr by metis
    qed
  qed
qed

text \<open>C4. The text a client receives is what the filter enrolled for that client makes of the
  runtime's output, and only if that filter does not block it; the digest in the response
  is of that text, and the log ends with the request's intake record followed by the
  attempt to append a completion record that carries the same digest.\<close>

theorem released_text_is_filtered_and_recorded:
  assumes "process_inference V io n client model msgs prms sid timeout = (Inr oc, n')"
  shows "\<exists>policy rq out entry log.
    verify_identity (ne_show_time V) (nd_identity n) (io_clock io) client = Inr policy \<and>
    rq = make_request V io client model msgs prms sid timeout \<and> io_backend io rq = Some (Inr out) \<and>
    append (ne_log V) (io_intake io) (nd_audit n) (intake_event n rq (oc_session_id oc)) = (Inr entry, log) \<and>
    (let fr = filter_text (ne_lower V) (for_client (nd_filters n) policy) (to_chars (out_text out)) in
     \<not> blocked fr \<and> oc_output oc = to_bytes (filtered fr) \<and> oc_output_hash oc = digest_hex (ne_crypto V) (oc_output oc) \<and>
     nd_audit n' = snd (append (ne_log V) (io_final io) log
       (completion_event n rq (oc_session_id oc) (oc_output_hash oc) (usage out) (oc_latency_ms oc)
          (audit_finish_reason (finish_reason out)) (triggered fr) (map match_rule (matches fr))
          (snd (ne_covert V (filtered fr))))))"
proof -
  obtain policy rq lease n1 out where p: "intake V io n client model msgs prms sid timeout = (Inr (policy, rq, lease), n1)"
    "io_backend io rq = Some (Inr out)"
    and c: "complete V io n1 policy rq (lease_session lease) out = (Inr oc, snd (complete V io n1 policy rq (lease_session lease) out))"
    and n': "n' = release_lease (snd (complete V io n1 policy rq (lease_session lease) out)) lease"
    using assms by (rule process_Inr)
  obtain entry where i: "gates_open V (io_clock io) n client model msgs prms policy"
    "rq = make_request V io client model msgs prms sid timeout"
    "append (ne_log V) (io_intake io) (nd_audit n) (intake_event n rq (lease_session lease)) = (Inr entry, nd_audit n1)"
    and n1: "n1 = n\<lparr>nd_detector := nd_detector n1, nd_engine := nd_engine n1, nd_audit := nd_audit n1,
       nd_limiter := snd (check (nd_limiter n) (io_clock io) (ci_client_id client) (ip_max_tokens prms) policy)\<rparr>"
    by (rule intake_Inr[OF p(1)])
  note f = intake_frame[OF n1]
  have e: "completion_event n1 = completion_event n"
    by (simp add: fun_eq_iff completion_event_def f)
  have s: "oc_session_id oc = lease_session lease"
    using c by (auto simp: complete_def Let_def split: if_splits prod.splits)
  have a: "nd_audit n' = nd_audit (snd (complete V io n1 policy rq (lease_session lease) out))"
    by (simp add: n' release_lease_def)
  show ?thesis
    using i p(2) complete_Inr[OF c] unfolding a s e f Let_def gates_open_def by blast
qed


text \<open>The tokens reserved at admission come back only through a finished generation: when
  the runtime fails or times out, the client's bucket stays as the admission check left it,
  charged with the full \<^verbatim>\<open>max_tokens\<close>.\<close>

theorem failed_generation_keeps_reservation:
  assumes "node_admit V io n client model msgs prms = (Inr policy, n0)"
    and "engine_run (io_backend io) (make_request V io client model msgs prms sid timeout) = Inl e"
  shows "isl (fst (process_inference V io n client model msgs prms sid timeout)) \<and>
    nd_limiter (snd (process_inference V io n client model msgs prms sid timeout)) =
      snd (check (nd_limiter n) (io_clock io) (ci_client_id client) (ip_max_tokens prms) policy)"
proof -
  have "nd_limiter n0 = snd (check (nd_limiter n) (io_clock io) (ci_client_id client) (ip_max_tokens prms) policy)"
    using node_admit_Inr[OF assms(1)] by (blast intro: limiter_of_update)
  then show ?thesis
    using assms by (auto simp: process_inference_def intake_def release_lease_def Let_def split: sum.splits prod.splits)
qed

subsection \<open>A node that serves\<close>

definition sample_node_env :: node_env where
  "sample_node_env = \<lparr>ne_crypto = plain_crypto,
     ne_log = (ce_log sample_check_env)\<lparr>json_event := (\<lambda>_. Some []), json_entry := (\<lambda>_. Some [])\<rparr>,
     ne_show_time = (\<lambda>_. []), ne_lower = id, ne_covert = (\<lambda>_. (False, 0)), ne_version = ''1''\<rparr>"

definition sample_node :: CordonNode where
  "sample_node = \<lparr>nd_config = default_light ''n'' ''d'',
     nd_keys = \<lparr>master = None, key_principal = [], admin_vk = None, enclave_key = [], provenance = Ephemeral,
       insecure_admin = False, allow_unregistered_models = True\<rparr>,
     nd_state = go_operational (node_state_new ''1'' 0 ''n'' ''d''), nd_identity = registry_new,
     nd_limiter = rate_limiter_new 5,
     nd_store = \<lparr>store_dir = [], bundles = [], vendor_vk = None, verdict_ttl = 0\<rparr>,
     nd_engine = engine_new 2 True 64, nd_filters = \<lparr>default_filter = sample_policy, by_path = Map.empty\<rparr>,
     nd_attestation = \<lparr>as_config = default_light ''n'' ''d'', measurements = [], mrenclave = ''m'', mrsigner = [],
       verified_clients = [], last_attestation = None\<rparr>,
     nd_detector = detector_new 0,
     nd_audit = \<lparr>config = log_config_new ''log'' ''d'' ''n'', state = Some \<lparr>writer = [], last_hash = [], state_sequence = 0,
       current_file = ''a'', bytes_written = 0\<rparr>, disk = [(''a'', [])]\<rparr>,
     nd_metrics = \<lparr>auth_failures_total = 0, rate_limit_hits_total = 0, content_policy_hits_total = 0,
       covert_channel_detections_total = 0, inference_requests_total = 0, tokens_generated_total = 0, tokens_prompt_total = 0\<rparr>,
     nd_served_bundle = None\<rparr>"

definition sample_answer :: "string \<Rightarrow> InferenceRequest \<Rightarrow> RawInferenceOutput CordonResult option" where
  "sample_answer t rq = Some (Inr \<lparr>out_text = t, usage = \<lparr>prompt_tokens = 3, completion_tokens = 4\<rparr>,
     finish_reason = StopReason.Stop, latency_ms = 5\<rparr>)"

definition sample_request_io :: request_io where
  "sample_request_io = \<lparr>io_clock = 0, io_request_id = 1, io_fresh_session = 2, io_alert = ce_io sample_check_env [],
     io_intake = ce_io sample_check_env [], io_final = ce_io sample_check_env [], io_backend = sample_answer ''the key'', io_elapsed_ms = 5\<rparr>"

definition sample_messages :: "Message list" where
  "sample_messages = [\<lparr>role = ''user'', content = ''hi''\<rparr>]"

definition sample_params :: InferenceParams where
  "sample_params = params sample_request"

definition sample_process :: "request_io \<Rightarrow> InferenceOutcome CordonResult \<times> CordonNode" where
  "sample_process io = process_inference sample_node_env io sample_node sample_identity ''m'' sample_messages sample_params None 60"

lemma sample_check: "fst (check (rate_limiter_new 5) 0 ''noisy'' 512 (policy_default_for ''noisy'')) = Inr ()"
  using f64_round_nat[of 60] f64_round_nat[of 120] f64_round_nat[of 100000] f64_round_nat[of 200000]
  by (simp add: check_def try_consume_def bucket_for_def rate_limiter_new_def bucket_new_def refill_def policy_default_for_def
      f64_div_def f64_mul_def f64_add_def num_milliseconds_def num_seconds_def trunc_div_def Let_def)

lemma sample_gates:
  "gates_open sample_node_env 0 sample_node sample_identity ''m'' sample_messages sample_params (policy_default_for ''noisy'')"
proof -
  have "verify_identity (\<lambda>_. []) registry_new 0 sample_identity = Inr (policy_default_for ''noisy'')"
    by (simp add: sample_identity_def from_dev_header_def registry_new_def with_unknown_client_policy_def verify_identity_def
      identity_valid_at_def suspension_at_def lookup_policy_def policy_valid_at_def verify_pin_def policy_default_for_def secs_def)
  moreover have "ci_client_id sample_identity = ''noisy''" by (simp add: sample_identity_def from_dev_header_def)
  moreover have "check_request_limits (default_light ''n'' ''d'') sample_messages sample_params (policy_default_for ''noisy'') = Inr ()"
    by (simp add: check_request_limits_def sample_messages_def sample_params_def default_light_def limits_default_def
      sample_request_def inference_default_def policy_default_for_def Let_def)
  ultimately show ?thesis
    using sample_check
    by (simp add: gates_open_def sample_node_def sample_node_env_def go_operational_def can_serve_def attestation_ready_for_def
      default_light_def requires_hardware_tee_def detector_new_def model_permitted_def policy_default_for_def store_gate_def
      gate_id_def ensure_servable_def sample_params_def sample_request_def)
qed

lemma sample_node_admits:
  "\<exists>n0. node_admit sample_node_env sample_request_io sample_node sample_identity ''m'' sample_messages sample_params
     = (Inr (policy_default_for ''noisy''), n0)"
  using sample_gates by (intro node_admit_intro) (simp add: sample_request_io_def)

lemma complete_intro:
  assumes "\<not> blocked (filter_text (ne_lower V) (for_client (nd_filters n) policy) (to_chars (out_text out)))"
    and "\<And>t. \<not> fst (ne_covert V t)"
  shows "\<exists>oc n'. complete V io n policy rq sid out = (Inr oc, n')"
  using assms by (simp add: complete_def Let_def case_prod_unfold)

lemma sample_append: "\<exists>entry l. append (ne_log sample_node_env) (ce_io sample_check_env []) (nd_audit sample_node) ev = (Inr entry, l)"
  by (simp add: sample_node_env_def sample_check_env_def sample_node_def append_def log_config_new_def write_line_def make_entry_def Let_def)

lemma sample_intake:
  "\<exists>rq lease n1. intake sample_node_env sample_request_io sample_node sample_identity ''m'' sample_messages sample_params None 60
     = (Inr (policy_default_for ''noisy'', rq, lease), n1) \<and> nd_filters n1 = nd_filters sample_node"
proof -
  obtain n0 where a: "node_admit sample_node_env sample_request_io sample_node sample_identity ''m'' sample_messages sample_params
     = (Inr (policy_default_for ''noisy''), n0)"
    using sample_node_admits by blast
  obtain d l where n0: "n0 = sample_node\<lparr>nd_detector := d, nd_limiter := l\<rparr>"
    using node_admit_Inr[OF a] by blast
  let ?rq = "make_request sample_node_env sample_request_io sample_identity ''m'' sample_messages sample_params None 60"
  obtain lease en where e: "admit (nd_engine sample_node) 0 2 ?rq = (Inr lease, en)"
    by (simp add: sample_node_def admit_def engine_new_def kv_new_def with_client_limit_def open_session_def insert_session_def
        active_sessions_for_client_def make_request_def)
  obtain entry log where p: "append (ne_log sample_node_env) (ce_io sample_check_env []) (nd_audit sample_node)
      (intake_event sample_node ?rq (lease_session lease)) = (Inr entry, log)"
    using sample_append by blast
  have io: "io_clock sample_request_io = 0" "io_fresh_session sample_request_io = 2"
    "io_intake sample_request_io = ce_io sample_check_env []"
    by (simp_all add: sample_request_io_def)
  show ?thesis
    unfolding intake_def a by (simp add: n0 io e p Let_def)
qed

lemma sample_filtered: "\<not> blocked (filter_text id sample_policy (to_chars ''the key''))"
  by code_simp

lemma sample_served: "\<exists>oc n'. sample_process sample_request_io = (Inr oc, n')"
proof -
  obtain rq lease n1 where i: "intake sample_node_env sample_request_io sample_node sample_identity ''m'' sample_messages sample_params None 60
     = (Inr (policy_default_for ''noisy'', rq, lease), n1)" "nd_filters n1 = nd_filters sample_node"
    using sample_intake by blast
  let ?out = "projr (the (sample_answer ''the key'' rq))"
  have r: "engine_run (io_backend sample_request_io) rq = Inr ?out"
    by (simp add: engine_run_def sample_request_io_def sample_answer_def)
  have f: "ne_lower sample_node_env = id" "for_client (nd_filters n1) (policy_default_for ''noisy'') = sample_policy"
    "out_text ?out = ''the key''" "\<not> fst (ne_covert sample_node_env t)" for t
    by (simp_all add: sample_node_env_def i(2) for_client_def policy_default_for_def sample_node_def sample_answer_def)
  obtain oc n' where "complete sample_node_env sample_request_io n1 (policy_default_for ''noisy'') rq (lease_session lease) ?out = (Inr oc, n')"
    using complete_intro[of sample_node_env n1 "policy_default_for ''noisy''" ?out] f sample_filtered by (simp del: split_paired_Ex) blast
  then show ?thesis
    by (simp add: sample_process_def process_inference_def i r)
qed

theorem no_response_without_gates_witness:
  "\<exists>policy. gates_open sample_node_env 0 sample_node sample_identity ''m'' sample_messages sample_params policy"
  using no_response_without_gates[of sample_node_env sample_request_io sample_node sample_identity "''m''" sample_messages
      sample_params None 60 "Inr ()"] sample_served
  by (auto simp: sample_process_def sample_request_io_def)

theorem released_text_is_filtered_and_recorded_witness:
  "oc_output (projr (fst (sample_process sample_request_io))) = ''the ''"
proof -
  obtain oc n' where s: "sample_process sample_request_io = (Inr oc, n')" using sample_served by blast
  have v: "verify_identity (ne_show_time sample_node_env) (nd_identity sample_node) (io_clock sample_request_io) sample_identity
      = Inr (policy_default_for ''noisy'')"
    using sample_gates by (simp add: gates_open_def sample_request_io_def)
  have f: "ne_lower sample_node_env = id" "for_client (nd_filters sample_node) (policy_default_for ''noisy'') = sample_policy"
    "io_backend sample_request_io = sample_answer ''the key''"
    by (simp_all add: sample_node_env_def sample_node_def for_client_def policy_default_for_def sample_request_io_def)
  have t: "to_bytes (filtered (filter_text id sample_policy (to_chars ''the key''))) = ''the ''" by code_simp
  show ?thesis
    using released_text_is_filtered_and_recorded[OF s[unfolded sample_process_def]] s v
    by (auto simp: f Let_def sample_answer_def t)
qed

theorem no_generation_before_intake_record_witness:
  "\<exists>entry. rq_client_id (make_request sample_node_env sample_request_io sample_identity ''m'' sample_messages sample_params None 60) = ''noisy''
     \<and> (\<exists>session l. append (ne_log sample_node_env) (io_intake sample_request_io) (nd_audit sample_node)
         (intake_event sample_node (make_request sample_node_env sample_request_io sample_identity ''m'' sample_messages sample_params None 60) session)
       = (Inr entry, l))"
proof -
  let ?no = "\<lambda>_. None" and ?yes = "sample_answer ''the key''"
  have b: "sample_request_io\<lparr>io_backend := ?yes\<rparr> = sample_request_io"
    by (simp add: sample_request_io_def)
  have "isl (fst (sample_process (sample_request_io\<lparr>io_backend := ?no\<rparr>)))"
    by (auto simp: sample_process_def process_inference_def engine_run_def split: prod.split sum.split)
  then have "sample_process (sample_request_io\<lparr>io_backend := ?no\<rparr>) \<noteq> sample_process (sample_request_io\<lparr>io_backend := ?yes\<rparr>)"
    using sample_served b by auto
  from no_generation_before_intake_record[OF this[unfolded sample_process_def]] show ?thesis
    by (auto simp: make_request_def sample_identity_def from_dev_header_def)
qed

theorem failed_generation_keeps_reservation_witness:
  "nd_limiter (snd (sample_process (sample_request_io\<lparr>io_backend := (\<lambda>_. None)\<rparr>)))
     = snd (check (rate_limiter_new 5) 0 ''noisy'' 512 (policy_default_for ''noisy''))"
proof -
  let ?io = "sample_request_io\<lparr>io_backend := (\<lambda>_. None)\<rparr>"
  obtain n0 where a: "node_admit sample_node_env ?io sample_node sample_identity ''m'' sample_messages sample_params
     = (Inr (policy_default_for ''noisy''), n0)"
    using sample_node_admits by auto
  have c: "io_clock sample_request_io = 0" "ci_client_id sample_identity = ''noisy''" "ip_max_tokens sample_params = 512"
    "nd_limiter sample_node = rate_limiter_new 5"
    by (simp_all add: sample_request_io_def sample_identity_def from_dev_header_def sample_params_def sample_request_def sample_node_def)
  show ?thesis
    using failed_generation_keeps_reservation[OF a, of None 60] by (simp add: engine_run_def sample_process_def c)
qed

subsection \<open>The digest of a request\<close>

definition message_sized :: "Message \<Rightarrow> bool" where
  "message_sized m \<longleftrightarrow> length (role m) < 2 ^ 64 \<and> length (content m) < 2 ^ 64"

lemma message_bytes_split:
  assumes "message_sized a" "message_sized b" "message_bytes a @ xs = message_bytes b @ ys"
  shows "a = b \<and> xs = ys"
proof -
  have p: "(256 :: nat) ^ 8 = 2 ^ 64" by simp
  have "length (role a) = length (role b)
      \<and> bytes_of (role a) @ le_bytes 8 (length (content a)) @ bytes_of (content a) @ xs
        = bytes_of (role b) @ le_bytes 8 (length (content b)) @ bytes_of (content b) @ ys"
    using assms by (intro le.enc_append_eq) (simp_all add: message_sized_def message_bytes_def p)
  then have r: "role a = role b"
    "le_bytes 8 (length (content a)) @ bytes_of (content a) @ xs = le_bytes 8 (length (content b)) @ bytes_of (content b) @ ys"
    by (auto simp: append_eq_append_conv)
  then have "length (content a) = length (content b) \<and> bytes_of (content a) @ xs = bytes_of (content b) @ ys"
    using assms by (intro le.enc_append_eq) (simp_all add: message_sized_def p)
  then show ?thesis using r(1) by (auto simp: append_eq_append_conv)
qed

lemma message_bytes_not_empty: "message_bytes m @ xs \<noteq> []"
  by (metis message_bytes_def append_is_Nil_conv le.enc_length length_0_conv zero_neq_numeral)

lemma messages_inj:
  "list_all message_sized ms \<Longrightarrow> list_all message_sized ms' \<Longrightarrow>
   concat (map message_bytes ms) = concat (map message_bytes ms') \<Longrightarrow> ms = ms'"
proof (induction ms arbitrary: ms')
  case Nil
  show ?case
  proof (cases ms')
    case (Cons m xs)
    then show ?thesis using Nil.prems(3) message_bytes_not_empty[of m "concat (map message_bytes xs)"] by simp
  qed simp
next
  case (Cons m ms)
  show ?case
  proof (cases ms')
    case Nil
    then show ?thesis using Cons.prems(3) message_bytes_not_empty[of m "concat (map message_bytes ms)"] by simp
  next
    case (Cons m' xs)
    have "m = m' \<and> concat (map message_bytes ms) = concat (map message_bytes xs)"
      using Cons.prems Cons by (intro message_bytes_split) simp_all
    then show ?thesis using Cons.IH[of xs] Cons.prems Cons by simp
  qed
qed

text \<open>C34. The digest logged for a prompt binds its messages: two conversations with the same
  digest are the same, role by role and content by content, or their encodings are a
  collision of the hash function, so moving a boundary between messages or fields changes what is hashed.\<close>

theorem input_hash_binds_messages:
  assumes "list_all message_sized ms" "list_all message_sized ms'" "hash_messages C ms = hash_messages C ms'"
  shows "ms = ms' \<or> collides (digest_hex C) (string_of_bytes (concat (map message_bytes ms))) (string_of_bytes (concat (map message_bytes ms')))"
  using assms messages_inj[of ms ms'] string_of_bytes_inj unfolding hash_messages_def collides_def by blast

theorem input_hash_binds_messages_witness:
  "hash_messages plain_crypto [\<lparr>role = ''user'', content = ''ab''\<rparr>] \<noteq> hash_messages plain_crypto [\<lparr>role = ''usera'', content = ''b''\<rparr>]"
  using input_hash_binds_messages[of "[\<lparr>role = ''user'', content = ''ab''\<rparr>]" "[\<lparr>role = ''usera'', content = ''b''\<rparr>]" plain_crypto]
  by (auto simp: message_sized_def plain_crypto_def collides_def)

end
