(* ===== verification/Spec2Isabelle.thy ===== *)
theory Spec2Isabelle
  imports Bundle Runtime Api NodeState AuditGuarantees Timing RateLimiter AttackDetector Inference OutputFilter Attestation PlatformProbes AttestationService NodeGuarantees
begin

text \<open>Header to be completed.\<close>

end
